(* ===== verification/Prelude.thy ===== *)
theory Prelude
  imports Complex_Main "HOL-Library.Multiset"
begin

text \<open>
  What every component shares: JavaScript's string, number and array operations as the two
  TypeScript front ends use them, a stable comparator sort (Array.prototype.sort) behind a locale,
  and list lemmas.  Strings are \<^typ>\<open>string\<close>, that is lists of bytes; a literal outside ASCII is
  written as its UTF-8 bytes, and case mapping and \<open>\s\<close> act on the ASCII range.  Timestamps,
  counts and tokens are \<^typ>\<open>int\<close> (exact in a double up to 2 to the 53), dollar amounts and other
  fractions are \<^typ>\<open>rat\<close>, so binary rounding of doubles is not modelled.
\<close>

named_theorems js_simps \<open>unfolding the JavaScript helpers\<close>

section \<open>Characters and strings\<close>

definition lower_char :: "char \<Rightarrow> char" where
  "lower_char c = (let n = of_char c :: nat in if 65 \<le> n \<and> n \<le> 90 then char_of (n + 32) else c)"

definition upper_char :: "char \<Rightarrow> char" where
  "upper_char c = (let n = of_char c :: nat in if 97 \<le> n \<and> n \<le> 122 then char_of (n - 32) else c)"

definition is_upper :: "char \<Rightarrow> bool" where
  "is_upper c \<longleftrightarrow> (let n = of_char c :: nat in 65 \<le> n \<and> n \<le> 90)"

definition is_digit_char :: "char \<Rightarrow> bool" where
  "is_digit_char c \<longleftrightarrow> (let n = of_char c :: nat in 48 \<le> n \<and> n \<le> 57)"

definition to_lower :: "string \<Rightarrow> string" where
  "to_lower s = map lower_char s"

definition to_upper :: "string \<Rightarrow> string" where
  "to_upper s = map upper_char s"

definition char_lf :: char where "char_lf = char_of (10::nat)"
definition char_cr :: char where "char_cr = char_of (13::nat)"
definition char_tab :: char where "char_tab = char_of (9::nat)"
definition char_quot :: char where "char_quot = char_of (34::nat)"
definition char_apos :: char where "char_apos = char_of (39::nat)"
definition char_bslash :: char where "char_bslash = char_of (92::nat)"

definition is_space :: "char \<Rightarrow> bool" where
  "is_space c \<longleftrightarrow> (let n = of_char c :: nat in n = 32 \<or> (9 \<le> n \<and> n \<le> 13))"

lemma special_chars [simp]:
  "of_char char_lf = (10::nat)" "of_char char_cr = (13::nat)" "of_char char_tab = (9::nat)"
  "of_char char_quot = (34::nat)" "of_char char_apos = (39::nat)" "of_char char_bslash = (92::nat)"
  by (simp_all add: char_lf_def char_cr_def char_tab_def char_quot_def char_apos_def char_bslash_def)

lemma char_codes:
  "char_lf = CHR 0x0A" "char_cr = CHR 0x0D" "char_tab = CHR 0x09"
  "char_quot = CHR 0x22" "char_apos = CHR 0x27" "char_bslash = CHR 0x5C"
  by (simp_all add: char_lf_def char_cr_def char_tab_def char_quot_def char_apos_def char_bslash_def char_of_def bit_0)

lemmas char_apos_eq = char_codes(5)

fun starts_with :: "string \<Rightarrow> string \<Rightarrow> bool" where
  "starts_with [] s = True"
| "starts_with (p # ps) [] = False"
| "starts_with (p # ps) (c # cs) = (p = c \<and> starts_with ps cs)"

fun includes_str :: "string \<Rightarrow> string \<Rightarrow> bool" where
  "includes_str needle [] = (needle = [])"
| "includes_str needle (c # cs) = (starts_with needle (c # cs) \<or> includes_str needle cs)"

definition js_trim :: "string \<Rightarrow> string" where
  "js_trim s = rev (dropWhile is_space (rev (dropWhile is_space s)))"

fun join_str :: "string \<Rightarrow> string list \<Rightarrow> string" where
  "join_str sep [] = []"
| "join_str sep [x] = x"
| "join_str sep (x # y # xs) = x @ sep @ join_str sep (y # xs)"

text \<open>\<open>s.split(p)\<close> for a separator that is one character of a class.\<close>

fun split_chars :: "(char \<Rightarrow> bool) \<Rightarrow> string \<Rightarrow> string list" where
  "split_chars p [] = [[]]"
| "split_chars p (c # cs) =
     (if p c then [] # split_chars p cs
      else (case split_chars p cs of [] \<Rightarrow> [[c]] | w # ws \<Rightarrow> (c # w) # ws))"

lemma starts_with_iff: "starts_with p s \<longleftrightarrow> (\<exists>r. s = p @ r)"
  by (induction p s rule: starts_with.induct) auto

lemma starts_with_append [simp]: "starts_with p (p @ r)"
  by (auto simp: starts_with_iff)

lemma starts_with_refl [simp]: "starts_with p p"
  by (auto simp: starts_with_iff)

lemma join_str_Cons: "xs \<noteq> [] \<Longrightarrow> join_str sep (x # xs) = x @ sep @ join_str sep xs"
  by (cases xs) auto

lemma set_join_str: "set (join_str sep xs) \<subseteq> set sep \<union> \<Union>(set ` set xs)"
  by (induction sep xs rule: join_str.induct) auto

section \<open>Numbers as text\<close>

definition digit_char :: "nat \<Rightarrow> char" where
  "digit_char d = char_of (48 + d)"

fun nat_str :: "nat \<Rightarrow> string" where
  "nat_str n = (if n < 10 then [digit_char n] else nat_str (n div 10) @ [digit_char (n mod 10)])"

declare nat_str.simps [simp del]
lemmas nat_str_unfold [js_simps] = nat_str.simps

definition int_str :: "int \<Rightarrow> string" where
  "int_str i = (if i < 0 then ''-'' @ nat_str (nat (- i)) else nat_str (nat i))"

lemma of_char_digit_char [simp]: "d < 10 \<Longrightarrow> of_char (digit_char d) = 48 + d"
  by (simp add: digit_char_def)

lemma nat_str_digits: "c \<in> set (nat_str n) \<Longrightarrow> is_digit_char c"
proof (induction n rule: nat_str.induct)
  case (1 n)
  show ?case
  proof (cases "n < 10")
    case True
    with 1 show ?thesis by (simp add: nat_str.simps [of n] is_digit_char_def)
  next
    case False
    have "n mod 10 < 10" by simp
    with False 1 show ?thesis
      by (auto simp: nat_str.simps [of n] is_digit_char_def)
  qed
qed

lemma nat_str_nonempty [simp]: "nat_str n \<noteq> []"
  by (subst nat_str.simps) simp

lemma digit_char_inj: "a < 10 \<Longrightarrow> b < 10 \<Longrightarrow> digit_char a = digit_char b \<Longrightarrow> a = b"
  by (metis add_left_cancel of_char_digit_char)

lemma nat_str_inj: "nat_str m = nat_str n \<Longrightarrow> m = n"
proof (induction m arbitrary: n rule: nat_str.induct)
  case (1 m)
  have mm: "m mod 10 < 10" and nm: "n mod 10 < 10" by simp_all
  show ?case
  proof (cases "m < 10")
    case True
    with 1(2) have "length (nat_str n) = 1" by (metis length_Cons list.size(3) nat_str.simps One_nat_def)
    then have "n < 10"
      using length_greater_0_conv [of "nat_str (n div 10)"]
      by (cases "n < 10") (simp_all add: nat_str.simps [of n])
    with True 1(2) show ?thesis
      using digit_char_inj [of m n] by (simp add: nat_str.simps [of m] nat_str.simps [of n])
  next
    case False
    have n: "\<not> n < 10"
    proof
      assume "n < 10"
      with False 1(2) have "nat_str (m div 10) @ [digit_char (m mod 10)] = [digit_char n]"
        by (simp add: nat_str.simps [of m] nat_str.simps [of n])
      then show False by simp
    qed
    have "nat_str (m div 10) = nat_str (n div 10)" and "m mod 10 = n mod 10"
      using False n 1(2) digit_char_inj [OF mm nm]
      by (auto simp: nat_str.simps [of m] nat_str.simps [of n])
    then have "m div 10 = n div 10" and "m mod 10 = n mod 10"
      using 1(1) False by auto
    then show ?thesis by (metis div_mult_mod_eq)
  qed
qed

lemma int_str_inj: "int_str i = int_str j \<Longrightarrow> i = j"
proof -
  assume eq: "int_str i = int_str j"
  have nd: "\<not> is_digit_char (CHR ''-'')" by (simp add: is_digit_char_def)
  have hd: "is_digit_char (hd (nat_str n))" for n
    by (rule nat_str_digits [of _ n]) simp
  have "(i < 0) = (j < 0)"
    using eq hd [of "nat i"] hd [of "nat j"] nd
    by (metis append_Cons append_Nil int_str_def list.sel(1))
  then show "i = j"
    using eq by (auto simp: int_str_def split: if_splits dest: nat_str_inj)
qed

text \<open>Thousands separators of the en-US locale, on a digit string.\<close>

fun group3_rev :: "string \<Rightarrow> string" where
  "group3_rev (a # b # c # d # ds) = a # b # c # CHR '','' # group3_rev (d # ds)"
| "group3_rev ds = ds"

definition group3 :: "string \<Rightarrow> string" where
  "group3 ds = rev (group3_rev (rev ds))"

text \<open>\<open>n.toLocaleString('en-US')\<close> of an integer.\<close>

definition locale_int :: "int \<Rightarrow> string" where
  "locale_int i = (if i < 0 then ''-'' else []) @ group3 (nat_str (nat \<bar>i\<bar>))"

text \<open>\<open>Math.round\<close>: halves go up.\<close>

definition math_round :: "rat \<Rightarrow> int" where
  "math_round x = \<lfloor>x + 1 / 2\<rfloor>"

definition pad_left :: "nat \<Rightarrow> char \<Rightarrow> string \<Rightarrow> string" where
  "pad_left w c s = replicate (w - length s) c @ s"

text \<open>
  A non-negative amount scaled to \<open>d\<close> places and rounded half up, as both \<open>toFixed\<close> and
  \<open>toLocaleString\<close> with equal minimum and maximum fraction digits do on the absolute value.
\<close>

definition scaled :: "nat \<Rightarrow> rat \<Rightarrow> nat" where
  "scaled d x = nat (math_round (\<bar>x\<bar> * 10 ^ d))"

definition fixed_with :: "(string \<Rightarrow> string) \<Rightarrow> nat \<Rightarrow> rat \<Rightarrow> string" where
  "fixed_with g d x =
     (let n = scaled d x;
          body = g (nat_str (n div 10 ^ d)) @
                 (if d = 0 then [] else CHR ''.'' # pad_left d (CHR ''0'') (nat_str (n mod 10 ^ d)))
      in (if x < 0 then ''-'' else []) @ body)"

text \<open>\<open>x.toFixed(d)\<close>, for \<open>|x| < 10^21\<close>.\<close>

definition to_fixed :: "nat \<Rightarrow> rat \<Rightarrow> string" where
  "to_fixed d x = fixed_with (\<lambda>s. s) d x"

text \<open>\<open>x.toLocaleString('en-US', {minimumFractionDigits: d, maximumFractionDigits: d})\<close>.\<close>

definition locale_fixed :: "nat \<Rightarrow> rat \<Rightarrow> string" where
  "locale_fixed d x = fixed_with group3 d x"

lemma group3_rev_nonempty: "ds \<noteq> [] \<Longrightarrow> group3_rev ds \<noteq> []"
  by (induction ds rule: group3_rev.induct) auto

lemma set_group3_rev: "set (group3_rev ds) \<subseteq> insert (CHR '','') (set ds)"
  by (induction ds rule: group3_rev.induct) auto

lemma group3_rev_filter: "filter (\<lambda>c. c \<noteq> CHR '','') (group3_rev ds) = filter (\<lambda>c. c \<noteq> CHR '','') ds"
  by (induction ds rule: group3_rev.induct) auto

text \<open>Dropping the separators gives the digits back.\<close>

lemma group3_filter: "filter (\<lambda>c. c \<noteq> CHR '','') (group3 ds) = filter (\<lambda>c. c \<noteq> CHR '','') ds"
  by (simp add: group3_def group3_rev_filter rev_filter flip: rev_filter)

section \<open>Arrays\<close>

text \<open>\<open>xs.slice(a, b)\<close> for non-negative bounds, and \<open>xs.at(-1)\<close>.\<close>

definition slice :: "nat \<Rightarrow> nat \<Rightarrow> 'a list \<Rightarrow> 'a list" where
  "slice a b xs = take (b - a) (drop a xs)"

definition last_opt :: "'a list \<Rightarrow> 'a option" where
  "last_opt xs = (if xs = [] then None else Some (last xs))"

definition head_opt :: "'a list \<Rightarrow> 'a option" where
  "head_opt xs = (case xs of [] \<Rightarrow> None | x # _ \<Rightarrow> Some x)"

text \<open>\<open>v ?? x\<close>.\<close>

definition or_else :: "'a option \<Rightarrow> 'a \<Rightarrow> 'a" where
  "or_else v x = (case v of None \<Rightarrow> x | Some y \<Rightarrow> y)"

lemma or_else_simps [simp]: "or_else None x = x" "or_else (Some y) x = y"
  by (simp_all add: or_else_def)

text \<open>\<open>xs.slice(-n)\<close>.\<close>

definition take_last :: "nat \<Rightarrow> 'a list \<Rightarrow> 'a list" where
  "take_last n xs = drop (length xs - n) xs"

fun find_index :: "('a \<Rightarrow> bool) \<Rightarrow> 'a list \<Rightarrow> int" where
  "find_index p [] = -1"
| "find_index p (x # xs) = (if p x then 0 else (let i = find_index p xs in if i = -1 then -1 else i + 1))"

lemma find_index_range: "-1 \<le> find_index p xs \<and> find_index p xs < int (length xs)"
  by (induction xs) (auto simp: Let_def)

lemma find_index_found:
  "find_index p xs \<noteq> -1 \<Longrightarrow>
     0 \<le> find_index p xs \<and> nat (find_index p xs) < length xs \<and> p (xs ! nat (find_index p xs))"
proof (induction xs)
  case Nil
  then show ?case by simp
next
  case (Cons x xs)
  show ?case
  proof (cases "p x")
    case True
    then show ?thesis by simp
  next
    case False
    with Cons have "find_index p xs \<noteq> -1" by (auto simp: Let_def)
    with Cons.IH False show ?thesis by (auto simp: Let_def nat_add_distrib)
  qed
qed

lemma find_index_none: "find_index p xs = -1 \<longleftrightarrow> (\<forall>x \<in> set xs. \<not> p x)"
proof (induction xs)
  case (Cons x xs)
  have "-1 \<le> find_index p xs" using find_index_range by blast
  with Cons show ?case by (auto simp: Let_def)
qed simp

lemma distinct_map_filter: "distinct (map f xs) \<Longrightarrow> distinct (map f (filter p xs))"
  by (induction xs) auto

lemma distinct_map_take: "distinct (map f xs) \<Longrightarrow> distinct (map f (take n xs))"
  by (metis distinct_take take_map)

lemma distinct_map_new:
  "distinct (map f xs) \<Longrightarrow> distinct (map f ys) \<Longrightarrow>
     distinct (map f (xs @ filter (\<lambda>y. f y \<notin> f ` set xs) ys))"
  by (auto simp: distinct_map_filter) (metis imageI)

lemma set_slice: "set (slice a b xs) \<subseteq> set xs"
  by (auto simp: slice_def dest: in_set_takeD in_set_dropD)

lemma length_slice: "length (slice a b xs) = min (b - a) (length xs - a)"
  by (auto simp: slice_def)

section \<open>Array.prototype.sort\<close>

text \<open>
  The engine's sort is stable (ECMAScript 2019); any stable sort gives the same array when the
  comparator is a total preorder, so insertion from the right stands for it.
\<close>

fun insert_cmp :: "('a \<Rightarrow> 'a \<Rightarrow> int) \<Rightarrow> 'a \<Rightarrow> 'a list \<Rightarrow> 'a list" where
  "insert_cmp cmp x [] = [x]"
| "insert_cmp cmp x (y # ys) = (if cmp x y \<le> 0 then x # y # ys else y # insert_cmp cmp x ys)"

fun sort_cmp :: "('a \<Rightarrow> 'a \<Rightarrow> int) \<Rightarrow> 'a list \<Rightarrow> 'a list" where
  "sort_cmp cmp [] = []"
| "sort_cmp cmp (x # xs) = insert_cmp cmp x (sort_cmp cmp xs)"

lemma mset_insert_cmp [simp]: "mset (insert_cmp cmp x xs) = add_mset x (mset xs)"
  by (induction xs) auto

lemma mset_sort_cmp [simp]: "mset (sort_cmp cmp xs) = mset xs"
  by (induction xs) auto

lemma set_sort_cmp [simp]: "set (sort_cmp cmp xs) = set xs"
  by (metis mset_sort_cmp set_mset_mset)

lemma set_insert_cmp [simp]: "set (insert_cmp cmp x xs) = insert x (set xs)"
  by (metis list.set(2) mset.simps(2) mset_insert_cmp set_mset_mset)

lemma length_sort_cmp [simp]: "length (sort_cmp cmp xs) = length xs"
  by (metis mset_sort_cmp size_mset)

lemma distinct_map_sort_cmp [simp]: "distinct (map f (sort_cmp cmp xs)) = distinct (map f xs)"
  by (metis mset_map mset_sort_cmp mset_eq_imp_distinct_iff)

text \<open>What a comparator must promise for its sort to mean anything.\<close>

locale js_comparator =
  fixes cmp :: "'a \<Rightarrow> 'a \<Rightarrow> int"
  assumes cmp_total: "cmp x y \<le> 0 \<or> cmp y x \<le> 0"
    and cmp_trans: "cmp x y \<le> 0 \<Longrightarrow> cmp y z \<le> 0 \<Longrightarrow> cmp x z \<le> 0"
begin

lemma cmp_refl: "cmp x x \<le> 0"
  using cmp_total [of x x] by simp

lemma sorted_insert_cmp:
  "sorted_wrt (\<lambda>a b. cmp a b \<le> 0) xs \<Longrightarrow> sorted_wrt (\<lambda>a b. cmp a b \<le> 0) (insert_cmp cmp x xs)"
proof (induction xs)
  case (Cons y ys)
  then show ?case
    using cmp_total [of x y] by (auto intro: cmp_trans)
qed simp

lemma sorted_sort_cmp: "sorted_wrt (\<lambda>a b. cmp a b \<le> 0) (sort_cmp cmp xs)"
  by (induction xs) (auto intro: sorted_insert_cmp)

lemma insert_cmp_filter_eq:
  "cmp k x \<le> 0 \<Longrightarrow> cmp x k \<le> 0 \<Longrightarrow>
     filter (\<lambda>y. cmp k y \<le> 0 \<and> cmp y k \<le> 0) (insert_cmp cmp x ys) =
     x # filter (\<lambda>y. cmp k y \<le> 0 \<and> cmp y k \<le> 0) ys"
  by (induction ys) (auto intro: cmp_trans)

lemma insert_cmp_filter_neq:
  "\<not> (cmp k x \<le> 0 \<and> cmp x k \<le> 0) \<Longrightarrow>
     filter (\<lambda>y. cmp k y \<le> 0 \<and> cmp y k \<le> 0) (insert_cmp cmp x ys) =
     filter (\<lambda>y. cmp k y \<le> 0 \<and> cmp y k \<le> 0) ys"
  by (induction ys) auto

text \<open>Stability: elements that compare equal keep their order.\<close>

lemma sort_cmp_stable:
  "filter (\<lambda>y. cmp k y \<le> 0 \<and> cmp y k \<le> 0) (sort_cmp cmp xs) =
     filter (\<lambda>y. cmp k y \<le> 0 \<and> cmp y k \<le> 0) xs"
proof (induction xs)
  case (Cons x xs)
  show ?case
  proof (cases "cmp k x \<le> 0 \<and> cmp x k \<le> 0")
    case True
    with Cons show ?thesis by (simp add: insert_cmp_filter_eq)
  next
    case False
    with Cons insert_cmp_filter_neq [OF False] show ?thesis by (auto simp del: de_Morgan_conj)
  qed
qed simp

lemma sort_cmp_sorted_id: "sorted_wrt (\<lambda>a b. cmp a b \<le> 0) xs \<Longrightarrow> sort_cmp cmp xs = xs"
proof (induction xs)
  case (Cons x xs)
  then show ?case by (cases xs) auto
qed simp

end

text \<open>The comparators the code writes: \<open>(a, b) => b.f - a.f\<close> (descending) and ascending.\<close>

definition cmp_desc :: "('a \<Rightarrow> 'b::linorder) \<Rightarrow> 'a \<Rightarrow> 'a \<Rightarrow> int" where
  "cmp_desc f a b = (if f b < f a then -1 else if f b = f a then 0 else 1)"

definition cmp_asc :: "('a \<Rightarrow> 'b::linorder) \<Rightarrow> 'a \<Rightarrow> 'a \<Rightarrow> int" where
  "cmp_asc f a b = (if f a < f b then -1 else if f a = f b then 0 else 1)"

lemma cmp_desc_le [simp]: "cmp_desc f a b \<le> 0 \<longleftrightarrow> f b \<le> f a"
  by (auto simp: cmp_desc_def)

lemma cmp_asc_le [simp]: "cmp_asc f a b \<le> 0 \<longleftrightarrow> f a \<le> f b"
  by (auto simp: cmp_asc_def)

interpretation desc: js_comparator "cmp_desc f" for f :: "'a \<Rightarrow> 'b::linorder"
  by unfold_locales auto

interpretation asc: js_comparator "cmp_asc f" for f :: "'a \<Rightarrow> 'b::linorder"
  by unfold_locales auto

lemmas sort_desc_facts = desc.sorted_sort_cmp desc.sort_cmp_stable

end
