(* ===== verification/OrderedMap.thy ===== *)
theory OrderedMap
  imports Prelude
begin

text \<open>
  JavaScript's \<open>Map\<close> with string keys: an association list in insertion order with distinct keys.
  \<open>set\<close> on a present key keeps its place, \<open>delete\<close> then \<open>set\<close> moves it to the end.  The bounded
  cache interface is what the receipt stream promises to the receipt drawer.
\<close>

type_synonym 'v omap = "(string \<times> 'v) list"

definition om_get :: "'v omap \<Rightarrow> string \<Rightarrow> 'v option" where
  "om_get m k = map_of m k"

definition om_has :: "'v omap \<Rightarrow> string \<Rightarrow> bool" where
  "om_has m k \<longleftrightarrow> k \<in> set (map fst m)"

definition om_delete :: "string \<Rightarrow> 'v omap \<Rightarrow> 'v omap" where
  "om_delete k m = filter (\<lambda>p. fst p \<noteq> k) m"

fun om_set :: "string \<Rightarrow> 'v \<Rightarrow> 'v omap \<Rightarrow> 'v omap" where
  "om_set k v [] = [(k, v)]"
| "om_set k v (p # m) = (if fst p = k then (k, v) # m else p # om_set k v m)"

definition om_values :: "'v omap \<Rightarrow> 'v list" where
  "om_values m = map snd m"

text \<open>\<open>new Map(entries)\<close>.\<close>

definition om_of :: "(string \<times> 'v) list \<Rightarrow> 'v omap" where
  "om_of ps = fold (\<lambda>(k, v) m. om_set k v m) ps []"

definition om_wf :: "'v omap \<Rightarrow> bool" where
  "om_wf m \<longleftrightarrow> distinct (map fst m)"

lemma om_get_set [simp]: "om_get (om_set k v m) k' = (if k' = k then Some v else om_get m k')"
  by (induction m) (auto simp: om_get_def)

lemma om_get_delete [simp]: "om_get (om_delete k m) k' = (if k' = k then None else om_get m k')"
  by (induction m) (auto simp: om_get_def om_delete_def)

lemma om_get_Nil [simp]: "om_get [] k = None"
  by (simp add: om_get_def)

lemma om_get_None: "om_get m k = None \<longleftrightarrow> k \<notin> set (map fst m)"
  by (auto simp: om_get_def map_of_eq_None_iff)

lemma om_has_get: "om_has m k \<longleftrightarrow> om_get m k \<noteq> None"
  by (auto simp: om_has_def om_get_None)

lemma set_keys_om_set [simp]: "set (map fst (om_set k v m)) = insert k (set (map fst m))"
  by (induction m) auto

lemma set_keys_om_delete [simp]: "set (map fst (om_delete k m)) = set (map fst m) - {k}"
  by (auto simp: om_delete_def)

lemma om_wf_Nil [simp]: "om_wf []"
  by (simp add: om_wf_def)

lemma om_wf_set [simp]: "om_wf m \<Longrightarrow> om_wf (om_set k v m)"
proof (induction m)
  case (Cons p m)
  then show ?case
    using set_keys_om_set [of k v m] by (auto simp: om_wf_def)
qed (simp add: om_wf_def)

lemma om_wf_delete [simp]: "om_wf m \<Longrightarrow> om_wf (om_delete k m)"
  by (simp add: om_wf_def om_delete_def distinct_map_filter)

lemma om_wf_of: "om_wf (om_of ps)"
proof -
  have "om_wf m \<Longrightarrow> om_wf (fold (\<lambda>(k, v) m. om_set k v m) ps m)" for m :: "'a omap"
    by (induction ps arbitrary: m) auto
  then show ?thesis by (simp add: om_of_def)
qed

lemma om_of_has: "k \<in> fst ` set ps \<Longrightarrow> om_get (om_of ps) k \<noteq> None"
proof -
  assume "k \<in> fst ` set ps"
  moreover have "set (map fst (fold (\<lambda>(k, v) m. om_set k v m) ps m)) = fst ` set ps \<union> set (map fst m)" for m :: "'a omap"
  proof (induction ps arbitrary: m)
    case (Cons p ps)
    obtain k v where "p = (k, v)" by (cases p)
    with Cons show ?case by (simp del: set_map)
  qed simp
  ultimately show "om_get (om_of ps) k \<noteq> None" by (simp add: om_get_None om_of_def del: set_map)
qed

lemma om_set_absent: "om_get m k = None \<Longrightarrow> om_set k v m = m @ [(k, v)]"
  by (induction m) (auto simp: om_get_def split: if_splits)

lemma length_om_delete: "length (om_delete k m) \<le> length m"
  by (simp add: om_delete_def)

lemma length_om_set: "length (om_set k v m) = (if om_has m k then length m else Suc (length m))"
  by (induction m) (auto simp: om_has_def)

lemma set_om_set: "set (om_set k v m) \<subseteq> insert (k, v) (set m)"
  by (induction m) auto

lemma length_om_of: "length (om_of ps) \<le> length ps"
proof -
  have "length (fold (\<lambda>(k, v) m. om_set k v m) ps m) \<le> length m + length ps" for m :: "'a omap"
  proof (induction ps arbitrary: m)
    case (Cons p ps)
    show ?case
      using Cons [of "om_set (fst p) (snd p) m"] length_om_set [of "fst p" "snd p" m]
      by (auto simp: split_def split: if_splits)
  qed simp
  from this [of "[]"] show ?thesis by (simp add: om_of_def)
qed

lemma om_wf_tl: "om_wf m \<Longrightarrow> om_wf (tl m)"
  by (cases m) (auto simp: om_wf_def)

lemma om_get_tl: "om_wf m \<Longrightarrow> om_get (tl m) k = om_get m k \<or> om_get (tl m) k = None"
  by (cases m) (auto simp: om_get_def om_wf_def map_of_eq_None_iff)

section \<open>The bounded cache interface\<close>

locale bounded_cache =
  fixes remember :: "'v \<Rightarrow> 'm \<Rightarrow> 'm"
    and lookup :: "'m \<Rightarrow> string \<Rightarrow> 'v option"
    and key :: "'v \<Rightarrow> string"
    and size_of :: "'m \<Rightarrow> nat"
    and cap :: nat
    and wf :: "'m \<Rightarrow> bool"
  assumes wf_remember: "wf m \<Longrightarrow> wf (remember v m)"
    and lookup_key: "wf m \<Longrightarrow> lookup m k = Some v \<Longrightarrow> key v = k"
    and lookup_same: "wf m \<Longrightarrow> lookup (remember v m) (key v) = Some v"
    and lookup_other: "wf m \<Longrightarrow> k \<noteq> key v \<Longrightarrow>
        lookup (remember v m) k = lookup m k \<or> lookup (remember v m) k = None"
    and lookup_room: "wf m \<Longrightarrow> size_of m < cap \<Longrightarrow> k \<noteq> key v \<Longrightarrow> lookup (remember v m) k = lookup m k"
    and size_bound: "wf m \<Longrightarrow> size_of m \<le> cap"
    and size_step: "wf m \<Longrightarrow> size_of (remember v m) \<le> Suc (size_of m)"
begin

definition remember_all :: "'v list \<Rightarrow> 'm \<Rightarrow> 'm" where
  "remember_all vs m = fold remember vs m"

lemma wf_remember_all: "wf m \<Longrightarrow> wf (remember_all vs m)"
  by (induction vs arbitrary: m) (auto simp: remember_all_def wf_remember)

lemma lookup_remember_all_last: "wf m \<Longrightarrow> lookup (remember_all (vs @ [v]) m) (key v) = Some v"
  using wf_remember_all [of m vs] by (simp add: remember_all_def lookup_same)

text \<open>What is found is the newest of the batch, or what was there.\<close>

lemma lookup_remember_all:
  "wf m \<Longrightarrow> lookup (remember_all vs m) k = Some v \<Longrightarrow> v \<in> set vs \<or> lookup m k = Some v"
proof (induction vs arbitrary: m)
  case (Cons w ws)
  have w: "wf (remember w m)" using Cons.prems(1) by (rule wf_remember)
  have "lookup (remember_all ws (remember w m)) k = Some v"
    using Cons.prems(2) by (simp add: remember_all_def)
  then consider "v \<in> set ws" | "lookup (remember w m) k = Some v" using Cons.IH [OF w] by blast
  then show ?case
  proof cases
    case 2
    then show ?thesis
      using lookup_same [OF Cons.prems(1), of w] lookup_other [OF Cons.prems(1), of k w]
      by (cases "k = key w") auto
  qed simp
qed (simp add: remember_all_def)

lemma size_remember_all: "wf m \<Longrightarrow> size_of (remember_all vs m) \<le> cap"
  by (simp add: wf_remember_all size_bound)

lemma lookup_remember_all_room:
  "wf m \<Longrightarrow> size_of m + length vs \<le> cap \<Longrightarrow> k \<notin> key ` set vs \<Longrightarrow> lookup (remember_all vs m) k = lookup m k"
proof (induction vs arbitrary: m)
  case (Cons w ws)
  have "size_of (remember w m) + length ws \<le> cap"
    using Cons.prems(2) size_step [OF Cons.prems(1), of w] by simp
  then have "lookup (remember_all ws (remember w m)) k = lookup (remember w m) k"
    using Cons by (intro Cons.IH wf_remember) auto
  then show ?case
    using Cons.prems lookup_room [of m k w] by (simp add: remember_all_def)
qed (simp add: remember_all_def)

end

text \<open>
  A cache that never shrinks.  While it is not full nothing has been forgotten, so all that was ever remembered is found.
\<close>

locale growing_cache = bounded_cache +
  assumes size_grows: "wf m \<Longrightarrow> size_of m \<le> size_of (remember v m)"
begin

lemma size_grows_all: "wf m \<Longrightarrow> size_of m \<le> size_of (remember_all vs m)"
proof (induction vs arbitrary: m)
  case (Cons v vs)
  have "size_of (remember v m) \<le> size_of (remember_all vs (remember v m))"
    using Cons.IH wf_remember [OF Cons.prems] .
  with size_grows [OF Cons.prems, of v] show ?case by (simp add: remember_all_def)
qed (simp add: remember_all_def)

lemma found_remember:
  assumes "wf m" and "size_of (remember v m) < cap" and "k = key v \<or> lookup m k \<noteq> None"
  shows "lookup (remember v m) k \<noteq> None"
  using assms size_grows [OF assms(1), of v] lookup_same [OF assms(1), of v] lookup_room [OF assms(1), of k v]
  by (cases "k = key v") auto

lemma found_remember_all:
  "wf m \<Longrightarrow> size_of (remember_all vs m) < cap \<Longrightarrow> k \<in> key ` set vs \<or> lookup m k \<noteq> None \<Longrightarrow>
     lookup (remember_all vs m) k \<noteq> None"
proof (induction vs arbitrary: m)
  case (Cons v vs)
  have wf: "wf (remember v m)" using Cons.prems(1) by (rule wf_remember)
  have all: "remember_all (v # vs) m = remember_all vs (remember v m)" by (simp add: remember_all_def)
  have "size_of (remember v m) < cap" using size_grows_all [OF wf, of vs] Cons.prems(2) by (simp add: all)
  then have "k = key v \<or> lookup m k \<noteq> None \<Longrightarrow> lookup (remember v m) k \<noteq> None"
    using found_remember [OF Cons.prems(1)] by blast
  then have "k \<in> key ` set vs \<or> lookup (remember v m) k \<noteq> None" using Cons.prems(3) by auto
  with Cons.IH [OF wf] Cons.prems(2) show ?case by (simp add: all)
qed (simp add: remember_all_def)

end

section \<open>Grouping\<close>

text \<open>Adding up one reading of the values.\<close>

definition sum_of :: "('a \<Rightarrow> 'b::comm_monoid_add) \<Rightarrow> 'a omap \<Rightarrow> 'b" where
  "sum_of f m = sum_list (map f (om_values m))"

lemma sum_of_set:
  fixes f :: "'a \<Rightarrow> 'b::ab_group_add"
  shows "sum_of f (om_set k v m) = sum_of f m - (case om_get m k of None \<Rightarrow> 0 | Some w \<Rightarrow> f w) + f v"
  by (induction m) (auto simp: sum_of_def om_values_def om_get_def split: option.splits)

text \<open>
  The loop that several pages have: look the group of an element up, start one when there is none, add the element
  to it and store it.  \<open>val\<close> is one reading of a group, to which an element contributes its \<open>amount\<close>.
\<close>

locale grouping =
  fixes key :: "'c \<Rightarrow> string"
    and start_group :: "'c \<Rightarrow> 'g"
    and add_to :: "'c \<Rightarrow> 'g \<Rightarrow> 'g"
    and ident :: "'g \<Rightarrow> string"
    and val :: "'g \<Rightarrow> 'b::ab_group_add"
    and amount :: "'c \<Rightarrow> 'b"
  assumes ident_start: "ident (start_group c) = key c"
    and ident_add: "ident (add_to c g) = ident g"
    and val_start: "val (start_group c) = 0"
    and val_add: "val (add_to c g) = val g + amount c"
begin

definition group_step :: "'c \<Rightarrow> 'g omap \<Rightarrow> 'g omap" where
  "group_step c m = om_set (key c) (add_to c (or_else (om_get m (key c)) (start_group c))) m"

definition tagged :: "'g omap \<Rightarrow> bool" where
  "tagged m \<longleftrightarrow> om_wf m \<and> (\<forall>k g. om_get m k = Some g \<longrightarrow> ident g = k)"

definition reading :: "'g omap \<Rightarrow> string \<Rightarrow> 'b" where
  "reading m k = (case om_get m k of None \<Rightarrow> 0 | Some g \<Rightarrow> val g)"

lemma tagged_step: "tagged m \<Longrightarrow> tagged (group_step c m)"
  by (auto simp: tagged_def group_step_def ident_add ident_start or_else_def split: option.splits if_splits)

lemma tagged_fold: "tagged m \<Longrightarrow> tagged (fold group_step cs m)"
  by (induction cs arbitrary: m) (simp_all add: tagged_step)

lemma tagged_Nil: "tagged []"
  by (simp add: tagged_def)

lemma reading_step: "reading (group_step c m) k = reading m k + (if key c = k then amount c else 0)"
  by (simp add: reading_def group_step_def val_add val_start split: option.split)

lemma reading_fold: "reading (fold group_step cs m) k = reading m k + sum_list (map amount (filter (\<lambda>c. key c = k) cs))"
  by (induction cs arbitrary: m) (simp_all add: reading_step)

lemma total_step: "sum_of val (group_step c m) = sum_of val m + amount c"
  by (simp add: group_step_def sum_of_set val_add val_start split: option.split)

text \<open>Over all groups together nothing is lost, and each group holds what its elements contribute.\<close>

lemma total_fold: "sum_of val (fold group_step cs m) = sum_of val m + sum_list (map amount cs)"
  by (induction cs arbitrary: m) (simp_all add: total_step)

lemma keys_fold: "set (map fst (fold group_step cs m)) = set (map fst m) \<union> key ` set cs"
proof (induction cs arbitrary: m)
  case (Cons c cs)
  have "set (map fst (group_step c m)) = insert (key c) (set (map fst m))"
    unfolding group_step_def by (rule set_keys_om_set)
  then show ?case using Cons [of "group_step c m"] by simp
qed simp

lemma group_member:
  assumes "g \<in> set (om_values (fold group_step cs []))"
  shows "val g = sum_list (map amount (filter (\<lambda>c. key c = ident g) cs)) \<and> ident g \<in> key ` set cs"
proof -
  let ?m = "fold group_step cs []"
  have t: "tagged ?m" by (rule tagged_fold [OF tagged_Nil])
  from assms obtain k where k: "(k, g) \<in> set ?m" by (auto simp: om_values_def)
  with t have get: "om_get ?m k = Some g" by (simp add: tagged_def om_wf_def om_get_def map_of_is_SomeI)
  with t have i: "ident g = k" by (simp add: tagged_def)
  have "k \<in> set (map fst ?m)" using k by force
  then have "k \<in> key ` set cs" using keys_fold [of cs "[]"] by simp
  moreover have "val g = reading ?m k" using get by (simp add: reading_def)
  ultimately show ?thesis using i reading_fold [of cs "[]" k] by (simp add: reading_def)
qed

lemma idents_fold: "map ident (om_values (fold group_step cs [])) = map fst (fold group_step cs [])"
proof -
  let ?m = "fold group_step cs []"
  have t: "tagged ?m" by (rule tagged_fold [OF tagged_Nil])
  have "ident (snd p) = fst p" if "p \<in> set ?m" for p
    using t that by (cases p) (simp add: tagged_def om_wf_def om_get_def map_of_is_SomeI)
  then show ?thesis by (simp add: om_values_def)
qed

lemma groups_distinct: "distinct (map ident (om_values (fold group_step cs [])))"
  using tagged_fold [OF tagged_Nil, of cs] by (simp only: idents_fold tagged_def om_wf_def)

lemma groups_complete: "ident ` set (om_values (fold group_step cs [])) = key ` set cs"
  using arg_cong [OF idents_fold [of cs], of set] keys_fold [of cs "[]"] by simp

end

end
