(* ===== verification/Browser.thy ===== *)
theory Browser
  imports Prelude
begin

text \<open>
  The browser's own state as the two front ends see it: \<open>localStorage\<close> (whose calls may throw),
  \<open>URLSearchParams\<close> (an ordered multimap, with its serialisation), \<open>encodeURIComponent\<close>, and the
  element tree a React component returns.  Storage and parameters are interfaces (locales); the
  components' lemmas about persisted values and deep links are proved against them.
\<close>

section \<open>localStorage\<close>

text \<open>Reading and writing can fail independently (private browsing, disabled cookies, quota).\<close>

record storage =
  st_data :: "string \<rightharpoonup> string"
  st_read_ok :: bool
  st_write_ok :: bool

datatype storage_error = StorageUnavailable

definition get_item :: "storage \<Rightarrow> string \<Rightarrow> storage_error + string option" where
  "get_item s k = (if st_read_ok s then Inr (st_data s k) else Inl StorageUnavailable)"

definition set_item :: "storage \<Rightarrow> string \<Rightarrow> string \<Rightarrow> storage_error + storage" where
  "set_item s k v =
     (if st_write_ok s then Inr (s\<lparr>st_data := (st_data s)(k \<mapsto> v)\<rparr>) else Inl StorageUnavailable)"

locale kv_storage =
  fixes get :: "'s \<Rightarrow> string \<Rightarrow> 'e + string option"
    and set :: "'s \<Rightarrow> string \<Rightarrow> string \<Rightarrow> 'e + 's"
    and readable :: "'s \<Rightarrow> bool"
  assumes get_readable: "readable s \<longleftrightarrow> (\<exists>v. get s k = Inr v)"
    and get_set_same: "set s k v = Inr s' \<Longrightarrow> readable s \<Longrightarrow> get s' k = Inr (Some v)"
    and get_set_other: "set s k v = Inr s' \<Longrightarrow> k' \<noteq> k \<Longrightarrow> get s' k' = get s k'"
begin

text \<open>A value read with a default on every failure, as every reader in the code does.\<close>

definition read_or :: "(string \<Rightarrow> bool) \<Rightarrow> string \<Rightarrow> 's \<Rightarrow> string \<Rightarrow> string" where
  "read_or ok dflt s k = (case get s k of Inr (Some v) \<Rightarrow> if ok v then v else dflt | _ \<Rightarrow> dflt)"

lemma read_or_valid: "ok dflt \<Longrightarrow> ok (read_or ok dflt s k)"
  by (auto simp: read_or_def split: sum.splits option.splits)

lemma read_or_set: "set s k v = Inr s' \<Longrightarrow> readable s \<Longrightarrow> ok v \<Longrightarrow> read_or ok dflt s' k = v"
  by (simp add: read_or_def get_set_same)

lemma read_or_set_other:
  "set s k v = Inr s' \<Longrightarrow> k' \<noteq> k \<Longrightarrow> read_or ok dflt s' k' = read_or ok dflt s k'"
  by (simp add: read_or_def get_set_other)

lemma read_or_unreadable: "\<not> readable s \<Longrightarrow> read_or ok dflt s k = dflt"
  using get_readable [of s k] by (auto simp: read_or_def split: sum.splits option.splits)

end

interpretation ls: kv_storage get_item set_item st_read_ok
  by unfold_locales (auto simp: get_item_def set_item_def split: if_splits)

section \<open>URLSearchParams\<close>

type_synonym params = "(string \<times> string) list"

definition p_get :: "params \<Rightarrow> string \<Rightarrow> string option" where
  "p_get ps k = map_of ps k"

definition p_get_all :: "params \<Rightarrow> string \<Rightarrow> string list" where
  "p_get_all ps k = map snd (filter (\<lambda>p. fst p = k) ps)"

definition p_delete :: "params \<Rightarrow> string \<Rightarrow> params" where
  "p_delete ps k = filter (\<lambda>p. fst p \<noteq> k) ps"

definition p_append :: "params \<Rightarrow> string \<Rightarrow> string \<Rightarrow> params" where
  "p_append ps k v = ps @ [(k, v)]"

text \<open>\<open>set\<close> changes the first entry of the key in place and drops the others, or appends.\<close>

fun p_set :: "params \<Rightarrow> string \<Rightarrow> string \<Rightarrow> params" where
  "p_set [] k v = [(k, v)]"
| "p_set (p # ps) k v = (if fst p = k then (k, v) # p_delete ps k else p # p_set ps k v)"

lemma p_get_all_set: "p_get_all (p_set ps k v) k = [v]"
  by (induction ps) (auto simp: p_get_all_def p_delete_def filter_empty_conv)

lemma p_get_all_set_other: "k' \<noteq> k \<Longrightarrow> p_get_all (p_set ps k v) k' = p_get_all ps k'"
proof (induction ps)
  case (Cons p ps)
  then show ?case
    by (auto simp: p_get_all_def p_delete_def intro!: arg_cong [where f = "map snd"] filter_cong)
qed (simp add: p_get_all_def)

lemma p_get_first: "p_get ps k = head_opt (p_get_all ps k)"
  by (induction ps) (auto simp: p_get_def p_get_all_def head_opt_def)

locale search_params =
  fixes get_all :: "'p \<Rightarrow> string \<Rightarrow> string list"
    and setp :: "'p \<Rightarrow> string \<Rightarrow> string \<Rightarrow> 'p"
    and del :: "'p \<Rightarrow> string \<Rightarrow> 'p"
    and app :: "'p \<Rightarrow> string \<Rightarrow> string \<Rightarrow> 'p"
  assumes get_all_set: "get_all (setp p k v) k = [v]"
    and get_all_set_other: "k' \<noteq> k \<Longrightarrow> get_all (setp p k v) k' = get_all p k'"
    and get_all_del: "get_all (del p k) k = []"
    and get_all_del_other: "k' \<noteq> k \<Longrightarrow> get_all (del p k) k' = get_all p k'"
    and get_all_app: "get_all (app p k v) k = get_all p k @ [v]"
    and get_all_app_other: "k' \<noteq> k \<Longrightarrow> get_all (app p k v) k' = get_all p k'"
begin

text \<open>Replacing a key's values: delete it, then append each, as the filter bar does.\<close>

definition replace :: "'p \<Rightarrow> string \<Rightarrow> string list \<Rightarrow> 'p" where
  "replace p k vs = fold (\<lambda>v q. app q k v) vs (del p k)"

lemma get_all_fold_app: "get_all (fold (\<lambda>v q. app q k v) vs p) k = get_all p k @ vs"
  by (induction vs arbitrary: p) (simp_all add: get_all_app)

lemma get_all_fold_app_other:
  "k' \<noteq> k \<Longrightarrow> get_all (fold (\<lambda>v q. app q k v) vs p) k' = get_all p k'"
  by (induction vs arbitrary: p) (simp_all add: get_all_app_other)

lemma get_all_replace: "get_all (replace p k vs) k = vs"
  by (simp add: replace_def get_all_fold_app get_all_del)

lemma get_all_replace_other: "k' \<noteq> k \<Longrightarrow> get_all (replace p k vs) k' = get_all p k'"
  by (simp add: replace_def get_all_fold_app_other get_all_del_other)

lemma set_then_delete: "get_all (del (setp p k v) k) k' = get_all (del p k) k'"
  by (cases "k' = k") (simp_all add: get_all_del get_all_del_other get_all_set_other)

end

interpretation sp: search_params p_get_all p_set p_delete p_append
proof
  show "p_get_all (p_set p k v) k = [v]" for p k v by (rule p_get_all_set)
  show "k' \<noteq> k \<Longrightarrow> p_get_all (p_set p k v) k' = p_get_all p k'" for k' k p v
    by (rule p_get_all_set_other)
  show "p_get_all (p_delete p k) k = []" for p k
    by (simp add: p_get_all_def p_delete_def filter_empty_conv)
  show "k' \<noteq> k \<Longrightarrow> p_get_all (p_delete p k) k' = p_get_all p k'" for k' k p
    by (auto simp: p_get_all_def p_delete_def intro!: arg_cong [where f = "map snd"] filter_cong)
qed (simp_all add: p_get_all_def p_append_def)

section \<open>Percent encoding\<close>

definition hex_char :: "nat \<Rightarrow> char" where
  "hex_char n = (if n < 10 then char_of (48 + n) else char_of (55 + n))"

definition unhex :: "char \<Rightarrow> nat" where
  "unhex c = (let n = of_char c in if n < 58 then n - 48 else n - 55)"

definition pct :: "char \<Rightarrow> string" where
  "pct c = (let n = of_char c in [CHR ''%'', hex_char (n div 16), hex_char (n mod 16)])"

definition is_alnum :: "char \<Rightarrow> bool" where
  "is_alnum c \<longleftrightarrow> (let n = of_char c :: nat in
     48 \<le> n \<and> n \<le> 57 \<or> 65 \<le> n \<and> n \<le> 90 \<or> 97 \<le> n \<and> n \<le> 122)"

text \<open>What \<open>encodeURIComponent\<close> leaves as it is: letters, digits and \<open>- _ . ! ~ * ' ( )\<close>.\<close>

definition uri_kept :: "char \<Rightarrow> bool" where
  "uri_kept c \<longleftrightarrow> is_alnum c \<or> c \<in> set ''-_.!~*()'' \<or> c = char_apos"

definition encode_uri_component :: "string \<Rightarrow> string" where
  "encode_uri_component s = concat (map (\<lambda>c. if uri_kept c then [c] else pct c) s)"

fun pct_decode :: "string \<Rightarrow> string" where
  "pct_decode (c # a # b # r) =
     (if c = CHR ''%'' then char_of (16 * unhex a + unhex b) # pct_decode r
      else c # pct_decode (a # b # r))"
| "pct_decode (c # r) = c # pct_decode r"
| "pct_decode [] = []"

lemma unhex_hex_char [simp]: "n < 16 \<Longrightarrow> unhex (hex_char n) = n"
  by (auto simp: unhex_def hex_char_def Let_def)

lemma of_char_bound: "(of_char c :: nat) < 256"
  by simp

lemma pct_decode_pct: "pct_decode (pct c @ r) = c # pct_decode r"
proof -
  have "(of_char c :: nat) div 16 < 16" using of_char_bound [of c] by linarith
  then show ?thesis by (simp add: pct_def Let_def)
qed

lemma pct_decode_other: "c \<noteq> CHR ''%'' \<Longrightarrow> pct_decode (c # r) = c # pct_decode r"
  by (cases "(c # r)" rule: pct_decode.cases) auto

lemma not_kept_pct: "uri_kept c \<Longrightarrow> c \<noteq> CHR ''%''"
  by (auto simp: uri_kept_def is_alnum_def char_apos_eq)

lemma pct_decode_encode_append: "pct_decode (encode_uri_component s @ r) = s @ pct_decode r"
  by (induction s) (auto simp: encode_uri_component_def pct_decode_pct pct_decode_other not_kept_pct)

lemma pct_decode_encode [simp]: "pct_decode (encode_uri_component s) = s"
  using pct_decode_encode_append [of s "[]"] by simp

lemma hex_char_alnum: "n < 16 \<Longrightarrow> is_alnum (hex_char n)"
  by (auto simp: hex_char_def is_alnum_def Let_def)

lemma alnum_neq: "is_alnum c \<Longrightarrow> c \<noteq> CHR ''/'' \<and> c \<noteq> CHR ''&'' \<and> c \<noteq> CHR ''=''
    \<and> c \<noteq> CHR ''?'' \<and> c \<noteq> CHR ''#'' \<and> c \<noteq> CHR ''+'' \<and> c \<noteq> CHR ''%''"
  by (auto simp: is_alnum_def)

lemmas hex_char_neq = hex_char_alnum [THEN alnum_neq]

lemma pct_chars: "d \<in> set (pct c) \<Longrightarrow> d = CHR ''%'' \<or> is_alnum d"
proof -
  have "(of_char c :: nat) div 16 < 16" using of_char_bound [of c] by linarith
  then show "d \<in> set (pct c) \<Longrightarrow> ?thesis"
    by (auto simp: pct_def Let_def hex_char_alnum)
qed

lemma pct_set: "set (pct c) \<inter> {CHR ''/'', CHR ''&'', CHR ''='', CHR ''?'', CHR ''#'', CHR ''+''} = {}"
  by (auto dest!: pct_chars simp: is_alnum_def)

lemma encode_uri_no_delim:
  "set (encode_uri_component s) \<inter> {CHR ''/'', CHR ''&'', CHR ''='', CHR ''?'', CHR ''#''} = {}"
proof -
  have kept: "uri_kept c \<Longrightarrow> c \<notin> {CHR ''/'', CHR ''&'', CHR ''='', CHR ''?'', CHR ''#''}" for c
    by (auto simp: uri_kept_def is_alnum_def char_apos_eq)
  show ?thesis
    using kept pct_set by (fastforce simp: encode_uri_component_def)
qed

text \<open>\<open>URLSearchParams.toString\<close>: form encoding keeps letters, digits and \<open>* - . _\<close>, and a space is a plus.\<close>

definition form_kept :: "char \<Rightarrow> bool" where
  "form_kept c \<longleftrightarrow> is_alnum c \<or> c \<in> set ''*-._''"

definition form_encode :: "string \<Rightarrow> string" where
  "form_encode s =
     concat (map (\<lambda>c. if form_kept c then [c] else if c = CHR '' '' then ''+'' else pct c) s)"

definition plus_to_space :: "string \<Rightarrow> string" where
  "plus_to_space s = map (\<lambda>c. if c = CHR ''+'' then CHR '' '' else c) s"

definition form_decode :: "string \<Rightarrow> string" where
  "form_decode s = pct_decode (plus_to_space s)"

definition p_string :: "params \<Rightarrow> string" where
  "p_string ps = join_str ''&'' (map (\<lambda>(k, v). form_encode k @ ''='' @ form_encode v) ps)"

definition split_eq :: "string \<Rightarrow> string \<times> string" where
  "split_eq s = (let k = takeWhile (\<lambda>c. c \<noteq> CHR ''='') s in (k, drop (length k + 1) s))"

text \<open>\<open>new URLSearchParams(text)\<close>: empty pieces are skipped, a piece without \<open>=\<close> has an empty value.\<close>

definition p_parse :: "string \<Rightarrow> params" where
  "p_parse s = map (\<lambda>w. case split_eq w of (k, v) \<Rightarrow> (form_decode k, form_decode v))
     (filter (\<lambda>w. w \<noteq> []) (split_chars (\<lambda>c. c = CHR ''&'') s))"

lemma form_kept_neq: "form_kept c \<Longrightarrow>
    c \<noteq> CHR ''%'' \<and> c \<noteq> CHR ''+'' \<and> c \<noteq> CHR ''&'' \<and> c \<noteq> CHR ''=''"
  by (auto simp: form_kept_def is_alnum_def)

lemma form_encode_plain: "list_all form_kept s \<Longrightarrow> form_encode s = s"
  by (induction s) (simp_all add: form_encode_def)

lemma plus_pct: "plus_to_space (pct c) = pct c"
  unfolding plus_to_space_def by (rule map_idI) (use pct_set [of c] in auto)

lemma form_decode_append: "form_decode (form_encode s @ r) = s @ form_decode r"
proof (induction s)
  case (Cons c s)
  have app: "plus_to_space (x @ y) = plus_to_space x @ plus_to_space y" for x y
    by (simp add: plus_to_space_def)
  have "pct_decode (plus_to_space ((if form_kept c then [c] else if c = CHR '' '' then ''+'' else pct c) @ t))
      = c # pct_decode (plus_to_space t)" for t
  proof (cases "form_kept c")
    case True
    with form_kept_neq [OF True] show ?thesis
      by (simp add: plus_to_space_def pct_decode_other)
  next
    case False
    then show ?thesis
      by (simp add: app plus_pct pct_decode_pct) (simp add: plus_to_space_def pct_decode_other)
  qed
  with Cons show ?case by (simp add: form_encode_def form_decode_def)
qed (simp add: form_encode_def form_decode_def)

lemma form_decode_encode [simp]: "form_decode (form_encode s) = s"
  using form_decode_append [of s "[]"] by (simp add: form_decode_def plus_to_space_def)

lemma form_encode_no_delim: "CHR ''&'' \<notin> set (form_encode s) \<and> CHR ''='' \<notin> set (form_encode s)"
proof -
  have "CHR ''&'' \<notin> set (pct c) \<and> CHR ''='' \<notin> set (pct c)" for c using pct_set [of c] by auto
  then show ?thesis
    using form_kept_neq by (auto simp: form_encode_def split: if_splits)
qed

lemma split_chars_noop: "\<forall>c \<in> set s. \<not> p c \<Longrightarrow> split_chars p s = [s]"
  by (induction s) auto

lemma split_chars_append: "\<forall>c \<in> set s. \<not> p c \<Longrightarrow> p d \<Longrightarrow> split_chars p (s @ d # t) = s # split_chars p t"
  by (induction s) auto

lemma split_chars_join:
  "xs \<noteq> [] \<Longrightarrow> \<forall>x \<in> set xs. d \<notin> set x \<Longrightarrow> split_chars (\<lambda>c. c = d) (join_str [d] xs) = xs"
proof (induction "[d]" xs rule: join_str.induct)
  case (2 x)
  then show ?case by (auto intro!: split_chars_noop)
next
  case (3 x y xs)
  then show ?case by (simp, subst split_chars_append) auto
qed simp

lemma split_eq_pair: "CHR ''='' \<notin> set k \<Longrightarrow> split_eq (k @ CHR ''='' # v) = (k, v)"
proof -
  assume "CHR ''='' \<notin> set k"
  then have "takeWhile (\<lambda>c. c \<noteq> CHR ''='') (k @ CHR ''='' # v) = k"
    by (subst takeWhile_append2) auto
  then show ?thesis by (simp add: split_eq_def Let_def)
qed

text \<open>The serialised query determines the parameters, so it can stand for them as an identity.\<close>

lemma p_parse_string: "p_parse (p_string ps) = ps"
proof (cases "ps = []")
  case True
  then show ?thesis by (simp add: p_string_def p_parse_def)
next
  case False
  let ?piece = "\<lambda>(k, v). form_encode k @ ''='' @ form_encode v"
  have "split_chars (\<lambda>c. c = CHR ''&'') (p_string ps) = map ?piece ps"
    unfolding p_string_def using False form_encode_no_delim
    by (intro split_chars_join) auto
  moreover have "filter (\<lambda>w. w \<noteq> []) (map ?piece ps) = map ?piece ps"
    by (rule filter_True) auto
  ultimately show ?thesis
    using form_encode_no_delim by (simp add: p_parse_def o_def split_def split_eq_pair)
qed

lemma p_string_inj: "p_string ps = p_string qs \<Longrightarrow> ps = qs"
  by (metis p_parse_string)

section \<open>The element tree\<close>

text \<open>
  What a component returns: text, or an element or child component by name with its attributes
  (class names and other styling left out), its event handlers as actions of the component, and
  its children.
\<close>

datatype 'e ui = Txt string | El string "(string \<times> string) list" "(string \<times> 'e) list" "'e ui list"

fun ui_text :: "'e ui \<Rightarrow> string" where
  "ui_text (Txt s) = s"
| "ui_text (El n a h cs) = concat (map ui_text cs)"

fun ui_nodes :: "'e ui \<Rightarrow> 'e ui list" where
  "ui_nodes (Txt s) = [Txt s]"
| "ui_nodes (El n a h cs) = El n a h cs # concat (map ui_nodes cs)"

definition ui_name :: "'e ui \<Rightarrow> string" where
  "ui_name u = (case u of Txt s \<Rightarrow> [] | El n a h cs \<Rightarrow> n)"

definition ui_attr :: "'e ui \<Rightarrow> string \<Rightarrow> string option" where
  "ui_attr u k = (case u of Txt s \<Rightarrow> None | El n a h cs \<Rightarrow> map_of a k)"

definition ui_handler :: "'e ui \<Rightarrow> string \<Rightarrow> 'e option" where
  "ui_handler u k = (case u of Txt s \<Rightarrow> None | El n a h cs \<Rightarrow> map_of h k)"

definition ui_kids :: "'e ui \<Rightarrow> 'e ui list" where
  "ui_kids u = (case u of Txt s \<Rightarrow> [] | El n a h cs \<Rightarrow> cs)"

text \<open>All nodes of a tree with a given name.\<close>

definition ui_find :: "string \<Rightarrow> 'e ui \<Rightarrow> 'e ui list" where
  "ui_find n u = filter (\<lambda>x. ui_name x = n) (ui_nodes u)"

text \<open>\<open>{cond && <X/>}\<close> and an attribute that is left out when undefined.\<close>

definition only_if :: "bool \<Rightarrow> 'a \<Rightarrow> 'a list" where
  "only_if b x = (if b then [x] else [])"

definition opt_attr :: "string \<Rightarrow> string option \<Rightarrow> (string \<times> string) list" where
  "opt_attr k v = (case v of None \<Rightarrow> [] | Some x \<Rightarrow> [(k, x)])"

definition bool_str :: "bool \<Rightarrow> string" where
  "bool_str b = (if b then ''true'' else ''false'')"

lemma only_if_simps [simp]: "only_if True x = [x]" "only_if False x = []"
  by (simp_all add: only_if_def)

lemma opt_attr_simps [simp]: "opt_attr k None = []" "opt_attr k (Some v) = [(k, v)]"
  by (simp_all add: opt_attr_def)

type_synonym attrs = "(string \<times> string) list"

text \<open>\<open><X a={1} {...props}>\<close>: the caller's attributes win.\<close>

definition spread :: "attrs \<Rightarrow> attrs \<Rightarrow> attrs" where
  "spread base props = filter (\<lambda>p. map_of props (fst p) = None) base @ props"

lemma spread_get: "map_of (spread base props) k = (case map_of props k of Some v \<Rightarrow> Some v | None \<Rightarrow> map_of base k)"
proof -
  have "map_of (filter (\<lambda>p. map_of props (fst p) = None) base) k = (if map_of props k = None then map_of base k else None)"
    by (induction base) auto
  then show ?thesis by (auto simp: spread_def map_add_def split: option.split)
qed

lemma ui_name_simps [simp]: "ui_name (Txt s) = []" "ui_name (El n a h cs) = n"
  by (simp_all add: ui_name_def)

text \<open>An icon, and an element that only groups its children.\<close>

definition icon :: "string \<Rightarrow> 'e ui" where
  "icon n = El n [] [] []"

definition elem :: "string \<Rightarrow> 'e ui list \<Rightarrow> 'e ui" where
  "elem n cs = El n [] [] cs"

definition tag :: "string \<Rightarrow> string \<Rightarrow> 'e ui" where
  "tag n s = El n [] [] [Txt s]"

lemma ui_text_helpers [simp]:
  "ui_text (icon n) = []" "ui_text (elem n cs) = concat (map ui_text cs)" "ui_text (tag n s) = s"
  by (simp_all add: icon_def elem_def tag_def)

lemma ui_nodes_helpers [simp]:
  "ui_nodes (icon n) = [El n [] [] []]" "ui_nodes (elem n cs) = El n [] [] cs # concat (map ui_nodes cs)"
  "ui_nodes (tag n s) = [El n [] [] [Txt s], Txt s]"
  by (simp_all add: icon_def elem_def tag_def)

text \<open>All handlers in a tree, with the attributes of their element.\<close>

fun ui_actions :: "'e ui \<Rightarrow> 'e list" where
  "ui_actions (Txt s) = []"
| "ui_actions (El n a h cs) = map snd h @ concat (map ui_actions cs)"

lemma ui_actions_helpers [simp]:
  "ui_actions (icon n) = []" "ui_actions (elem n cs) = concat (map ui_actions cs)" "ui_actions (tag n s) = []"
  by (simp_all add: icon_def elem_def tag_def)

lemmas ui_simps = ui_name_def ui_attr_def ui_handler_def ui_kids_def ui_find_def only_if_def

text \<open>Glyphs outside ASCII, as UTF-8 bytes.\<close>

definition bytes :: "nat list \<Rightarrow> string" where
  "bytes ns = map char_of ns"

definition glyph_ellipsis :: string where "glyph_ellipsis = bytes [226, 128, 166]"
definition glyph_em_dash :: string where "glyph_em_dash = bytes [226, 128, 148]"
definition glyph_middot :: string where "glyph_middot = bytes [194, 183]"
definition glyph_up :: string where "glyph_up = bytes [226, 150, 178]"
definition glyph_down :: string where "glyph_down = bytes [226, 150, 188]"
definition glyph_left_arrow :: string where "glyph_left_arrow = bytes [226, 134, 144]"
definition glyph_right_arrow :: string where "glyph_right_arrow = bytes [226, 134, 146]"
definition glyph_up_arrow :: string where "glyph_up_arrow = bytes [226, 134, 145]"
definition glyph_down_arrow :: string where "glyph_down_arrow = bytes [226, 134, 147]"
definition glyph_times :: string where "glyph_times = bytes [195, 151]"
definition glyph_rsquo :: string where "glyph_rsquo = bytes [226, 128, 153]"
definition glyph_ldquo :: string where "glyph_ldquo = bytes [226, 128, 156]"
definition glyph_rdquo :: string where "glyph_rdquo = bytes [226, 128, 157]"
definition glyph_dots :: string where "glyph_dots = bytes [226, 139, 175]"
definition glyph_cmd :: string where "glyph_cmd = bytes [226, 140, 152]"

end
