(* ===== verification/Format.thy ===== *)
theory Format
  imports Browser
begin

text \<open>
  Formatting in both front ends: \<open>lib/format.ts\<close> and the number components of
  \<open>components/gw/numbers.tsx\<close> of the usage console, \<open>lib/format.ts\<close> of the key manager.  The
  lemmas read a formatted amount back: its digits are the amount, scaled and rounded half up.
\<close>

section \<open>Reading digits back\<close>

definition digit_step :: "nat \<Rightarrow> char \<Rightarrow> nat" where
  "digit_step a c = (if is_digit_char c then 10 * a + (of_char c - 48) else a)"

definition num_val :: "string \<Rightarrow> nat" where
  "num_val s = foldl digit_step 0 s"

definition digit_count :: "string \<Rightarrow> nat" where
  "digit_count s = length (filter is_digit_char s)"

lemma foldl_digit_step: "foldl digit_step a s = a * 10 ^ digit_count s + num_val s"
  unfolding num_val_def
proof (induction s arbitrary: a)
  case (Cons c s)
  show ?case
    using Cons [of "digit_step a c"] Cons [of "digit_step 0 c"]
    by (auto simp: digit_step_def digit_count_def algebra_simps)
qed (simp add: digit_count_def)

lemma num_val_append: "num_val (s @ t) = num_val s * 10 ^ digit_count t + num_val t"
  using foldl_digit_step [of "num_val s" t] by (simp add: num_val_def)

lemma num_val_Cons: "num_val (c # t) = digit_step 0 c * 10 ^ digit_count t + num_val t"
  using num_val_append [of "[c]" t] by (simp add: num_val_def)

lemma is_digit_digit_char [simp]: "d < 10 \<Longrightarrow> is_digit_char (digit_char d)"
  by (simp add: is_digit_char_def)

lemma num_val_nat_str [simp]: "num_val (nat_str n) = n"
proof (induction n rule: nat_str.induct)
  case (1 n)
  have "n mod 10 < 10" by simp
  with 1 show ?case
    by (subst nat_str.simps)
      (auto simp: num_val_append num_val_def digit_step_def digit_count_def)
qed

lemma digit_count_nat_str [simp]: "digit_count (nat_str n) = length (nat_str n)"
  by (simp add: digit_count_def nat_str_digits)

lemma length_nat_str_le: "0 < d \<Longrightarrow> n < 10 ^ d \<Longrightarrow> length (nat_str n) \<le> d"
proof (induction n arbitrary: d rule: nat_str.induct)
  case (1 n)
  show ?case
  proof (cases "n < 10")
    case True
    with 1 show ?thesis by (simp add: nat_str.simps [of n])
  next
    case False
    with 1(3) have "d \<noteq> 1" by auto
    with 1(2) obtain e where d: "d = Suc e" and "0 < e" by (cases d) auto
    from 1(3) d have "n div 10 < 10 ^ e" by (simp add: less_mult_imp_div_less mult.commute)
    with 1(1) [OF False \<open>0 < e\<close>] False d show ?thesis by (simp add: nat_str.simps [of n])
  qed
qed

lemma num_val_zeros: "num_val (replicate k (CHR ''0'') @ s) = num_val s"
  by (induction k) (simp_all add: num_val_Cons digit_step_def)

lemma num_val_pad [simp]: "num_val (pad_left w (CHR ''0'') s) = num_val s"
  by (simp add: pad_left_def num_val_zeros)

lemma digit_count_pad: "n < 10 ^ d \<Longrightarrow> 0 < d \<Longrightarrow> digit_count (pad_left d (CHR ''0'') (nat_str n)) = d"
proof -
  assume "n < 10 ^ d" and "0 < d"
  then have "length (nat_str n) \<le> d" by (intro length_nat_str_le)
  moreover have "filter is_digit_char (nat_str n) = nat_str n"
    by (simp add: nat_str_digits)
  ultimately show ?thesis
    by (simp add: pad_left_def digit_count_def is_digit_char_def)
qed

lemma num_val_drop_nondigit:
  "filter (\<lambda>c. c \<noteq> k) s = filter (\<lambda>c. c \<noteq> k) t \<Longrightarrow> \<not> is_digit_char k \<Longrightarrow> num_val s = num_val t"
proof -
  assume eq: "filter (\<lambda>c. c \<noteq> k) s = filter (\<lambda>c. c \<noteq> k) t" and k: "\<not> is_digit_char k"
  have "foldl digit_step a s = foldl digit_step a (filter (\<lambda>c. c \<noteq> k) s)" for a s
    using k by (induction s arbitrary: a) (auto simp: digit_step_def)
  with eq show ?thesis by (metis num_val_def)
qed

lemma num_val_group3 [simp]: "num_val (group3 s) = num_val s"
  by (rule num_val_drop_nondigit [OF group3_filter]) (simp add: is_digit_char_def)

text \<open>The digits of \<open>toFixed\<close> and of the grouped form are the scaled amount.\<close>

lemma num_val_fixed_with:
  assumes "\<And>s. num_val (g s) = num_val s"
  shows "num_val (fixed_with g d x) = scaled d x"
proof -
  let ?n = "scaled d x"
  let ?frac = "pad_left d (CHR ''0'') (nat_str (?n mod 10 ^ d))"
  have frac: "0 < d \<Longrightarrow> digit_count ?frac = d" by (intro digit_count_pad) auto
  have "num_val (g (nat_str (?n div 10 ^ d)) @ (if d = 0 then [] else CHR ''.'' # ?frac)) = ?n"
  proof (cases "d = 0")
    case False
    have dot: "digit_count (CHR ''.'' # ?frac) = d" "num_val (CHR ''.'' # ?frac) = ?n mod 10 ^ d"
      using frac False by (simp_all add: digit_count_def num_val_Cons digit_step_def is_digit_char_def)
    show ?thesis
      using False dot assms by (simp add: num_val_append div_mult_mod_eq del: digit_count_nat_str)
  qed (use assms in simp)
  moreover have "num_val (CHR ''-'' # s) = num_val s" for s
    by (simp add: num_val_Cons digit_step_def is_digit_char_def)
  ultimately show ?thesis
    by (auto simp: fixed_with_def Let_def)
qed

lemma num_val_to_fixed [simp]: "num_val (to_fixed d x) = scaled d x"
  by (simp add: to_fixed_def num_val_fixed_with)

lemma num_val_locale_fixed [simp]: "num_val (locale_fixed d x) = scaled d x"
  by (simp add: locale_fixed_def num_val_fixed_with)

lemma math_round_error: "\<bar>of_int (math_round x) - x\<bar> \<le> 1 / 2"
  unfolding math_round_def by linarith

lemma math_round_mono: "x \<le> y \<Longrightarrow> math_round x \<le> math_round y"
  unfolding math_round_def by (intro floor_mono) simp

lemma math_round_of_int [simp]: "math_round (of_int i) = i"
  unfolding math_round_def by linarith

lemma scaled_error: "\<bar>of_nat (scaled d x) - \<bar>x\<bar> * 10 ^ d\<bar> \<le> 1 / 2"
proof -
  have "0 \<le> math_round (\<bar>x\<bar> * 10 ^ d)"
    using math_round_mono [of 0 "\<bar>x\<bar> * 10 ^ d"] by (simp add: math_round_def)
  then show ?thesis
    using math_round_error [of "\<bar>x\<bar> * 10 ^ d"] by (simp add: scaled_def)
qed

section \<open>usage-console lib/format.ts\<close>

text \<open>\<open>money(usd, digits)\<close>: an amount under a cent shows four places.\<close>

definition money :: "rat \<Rightarrow> nat \<Rightarrow> string" where
  "money usd digits =
     (let a = \<bar>usd\<bar> in
      if digits = 2 \<and> 0 < a \<and> a < 1 / 100 then
        (if a < 1 / 10000 then ''<$0.0001''
         else (if usd < 0 then ''-$'' else ''$'') @ to_fixed 4 a)
      else ''$'' @ locale_fixed digits usd)"

definition microMoney :: "rat \<Rightarrow> string" where
  "microMoney usd = (if usd = 0 then ''$0.0000'' else ''$'' @ to_fixed 4 usd)"

definition unpricedNote :: "int \<Rightarrow> string \<Rightarrow> string" where
  "unpricedNote n what =
     locale_int n @ '' request'' @ (if n = 1 then '' has'' else ''s have'') @ '' no price and '' @
     (if n = 1 then ''isn'' @ [char_apos] @ ''t'' else ''aren'' @ [char_apos] @ ''t'') @ '' in '' @ what"

definition tokens :: "int \<Rightarrow> string" where
  "tokens n =
     (if n \<ge> 1000000 then to_fixed 1 (of_int n / 1000000) @ ''M''
      else if n \<ge> 10000 then int_str (math_round (of_int n / 1000)) @ ''k''
      else if n \<ge> 1000 then to_fixed 1 (of_int n / 1000) @ ''k''
      else int_str n)"

text \<open>The export \<open>int\<close> of the source.\<close>

definition int_fmt :: "int \<Rightarrow> string" where
  "int_fmt n = locale_int n"

text \<open>Local wall-clock time; \<open>tz\<close> is the viewer's offset from UTC in ms at an instant.\<close>

definition clock :: "(int \<Rightarrow> int) \<Rightarrow> int \<Rightarrow> string" where
  "clock tz ts =
     (let s = ((ts + tz ts) div 1000) mod 86400;
          two = (\<lambda>n. pad_left 2 (CHR ''0'') (nat_str (nat n)))
      in two (s div 3600) @ '':'' @ two (s div 60 mod 60) @ '':'' @ two (s mod 60))"

definition ago :: "int \<Rightarrow> int \<Rightarrow> string" where
  "ago ts now =
     (let s = math_round (of_int (now - ts) / 1000) in
      if s < 60 then int_str s @ ''s ago''
      else if s < 3600 then int_str (math_round (of_int s / 60)) @ ''m ago''
      else if s < 86400 then int_str (math_round (of_int s / 3600)) @ ''h ago''
      else int_str (math_round (of_int s / 86400)) @ ''d ago'')"

section \<open>Number components\<close>

datatype precision = Cents | Micro | Whole

definition unknown_view :: "string \<Rightarrow> 'e ui" where
  "unknown_view label = El ''span'' [(''aria-label'', label)] [] [Txt ''-'']"

definition no_price_title :: string where
  "no_price_title = ''No price for this model on this backend yet. It'' @ [char_apos] @
     ''s costed once someone sets one.''"

definition Money :: "rat option \<Rightarrow> precision \<Rightarrow> bool \<Rightarrow> 'e ui" where
  "Money value precision unknown =
     (if unknown then unknown_view ''cost pending''
      else case value of
        None \<Rightarrow> El ''span'' [(''title'', no_price_title)] [] [Txt ''No price'']
      | Some v \<Rightarrow> El ''span'' [] []
          [Txt (case precision of Micro \<Rightarrow> microMoney v | Whole \<Rightarrow> money v 0 | Cents \<Rightarrow> money v 2)])"

definition TokenCount :: "int \<Rightarrow> bool \<Rightarrow> bool \<Rightarrow> 'e ui" where
  "TokenCount value unknown exact =
     (if unknown then unknown_view ''tokens pending''
      else El ''span'' [(''title'', locale_int value @ '' tokens'')] []
             [Txt (if exact then locale_int value else tokens value)])"

definition Duration :: "rat \<Rightarrow> bool \<Rightarrow> 'e ui" where
  "Duration ms unknown =
     (if unknown then unknown_view ''duration pending''
      else El ''span'' [] []
        [Txt (if ms \<ge> 10000 then to_fixed 1 (ms / 1000) @ ''s''
              else locale_int (math_round ms) @ ''ms'')])"

datatype good_when = Up | Down

definition Delta :: "rat \<Rightarrow> good_when \<Rightarrow> 'e ui" where
  "Delta percent goodWhen =
     (let up = percent \<ge> 0; good = (if goodWhen = Up then up else \<not> up)
      in El ''span'' [(''tone'', if good then ''allowed'' else ''blocked'')] []
           [Txt ((if up then glyph_up else glyph_down) @ '' '' @ to_fixed 1 \<bar>percent\<bar> @ ''%'')])"

section \<open>Key manager lib/format.ts\<close>

text \<open>
  \<open>parse_date\<close> is the engine's date parser (None for NaN) and \<open>date_text\<close> the viewer's locale.
\<close>

definition formatDate :: "(string \<Rightarrow> int option) \<Rightarrow> (int \<Rightarrow> string) \<Rightarrow> string \<Rightarrow> string" where
  "formatDate parse_date date_text stamp =
     (case parse_date stamp of None \<Rightarrow> glyph_em_dash | Some t \<Rightarrow> date_text t)"

definition words :: "string \<Rightarrow> string list" where
  "words s = filter (\<lambda>w. w \<noteq> []) (split_chars is_space s)"

fun email_initials :: "string option \<Rightarrow> string" where
  "email_initials (Some (c # cs)) = to_upper (take 2 (c # cs))"
| "email_initials _ = ''U''"

definition userInitials :: "string option \<Rightarrow> string option \<Rightarrow> string" where
  "userInitials name email =
     (case name of
        Some n \<Rightarrow> (case words (js_trim n) of
            a # b # ws \<Rightarrow> to_upper (take 1 a @ take 1 b)
          | [a] \<Rightarrow> to_upper (take 2 a)
          | [] \<Rightarrow> email_initials email)
      | None \<Rightarrow> email_initials email)"

section \<open>Lemmas\<close>

lemma num_val_money_cents:
  "num_val (money usd 2) =
     (if 0 < \<bar>usd\<bar> \<and> \<bar>usd\<bar> < 1 / 100 then (if \<bar>usd\<bar> < 1 / 10000 then 1 else scaled 4 \<bar>usd\<bar>)
      else scaled 2 usd)"
proof -
  have d: "num_val (CHR ''$'' # s) = num_val s" "num_val (CHR ''-'' # s) = num_val s" for s
    by (simp_all add: num_val_Cons digit_step_def is_digit_char_def)
  have t: "num_val ''<$0.0001'' = 1"
    by (simp add: num_val_def digit_step_def is_digit_char_def)
  show ?thesis by (simp add: money_def Let_def d t)
qed

lemma scaled_pos: "1 / 10 ^ d \<le> \<bar>x\<bar> \<Longrightarrow> 0 < scaled d x"
proof -
  assume "1 / 10 ^ d \<le> \<bar>x\<bar>"
  then have "1 \<le> \<bar>x\<bar> * 10 ^ d" by (simp add: field_simps)
  then have "1 \<le> math_round (\<bar>x\<bar> * 10 ^ d)" unfolding math_round_def by linarith
  then show ?thesis by (simp add: scaled_def)
qed

lemma money_digits_zero_iff: "num_val (money usd 2) = 0 \<longleftrightarrow> usd = 0"
proof -
  have z: "scaled 2 0 = 0" by (simp add: scaled_def math_round_def)
  have c: "1 / 100 \<le> \<bar>usd\<bar> \<Longrightarrow> 0 < scaled 2 usd" using scaled_pos [of 2 usd] by simp
  have m: "1 / 10000 \<le> \<bar>usd\<bar> \<Longrightarrow> 0 < scaled 4 \<bar>usd\<bar>" using scaled_pos [of 4 "\<bar>usd\<bar>"] by simp
  show ?thesis
    using c m z by (cases "usd = 0") (auto simp: num_val_money_cents not_less)
qed

lemma words_nonempty: "w \<in> set (words s) \<Longrightarrow> w \<noteq> []"
  by (simp add: words_def)

lemma email_initials_length: "1 \<le> length (email_initials e) \<and> length (email_initials e) \<le> 2"
  by (cases e rule: email_initials.cases) (auto simp: to_upper_def)

lemma userInitials_length: "1 \<le> length (userInitials n e) \<and> length (userInitials n e) \<le> 2"
proof (cases n)
  case (Some s)
  have ne: "w \<in> set (words (js_trim s)) \<Longrightarrow> 1 \<le> length w" for w
    by (cases w) (use words_nonempty in auto)
  then show ?thesis
    using email_initials_length Some
    by (auto simp: userInitials_def to_upper_def split: list.splits)
qed (use email_initials_length in \<open>simp add: userInitials_def\<close>)

end
