(* ===== verification/Catalog.thy ===== *)
theory Catalog
  imports Format
begin

text \<open>
  The usage console's data: the wire types of \<open>data/mock.ts\<close> and the data source of
  \<open>data/catalog.ts\<close> (API reads with their error messages, the key conversion, indexes, hydration,
  sign-out).  Optional fields are \<open>option\<close>s; an absent boolean is False.
\<close>

section \<open>Types\<close>

datatype verdict = Allowed | Blocked | Truncated | Throttled

record team =
  tm_id :: string
  tm_name :: string
  tm_costCenter :: string

record project =
  pj_id :: string
  pj_team :: string
  pj_name :: string

record api_key =
  ak_id :: string
  ak_name :: string
  ak_prefix :: string
  ak_team :: string
  ak_project :: string
  ak_projectId :: string
  ak_lastUsed :: string
  ak_requests24h :: int
  ak_hourly24h :: "int list"
  ak_spend24hUsd :: "rat option"
  ak_unpriced24h :: "int option"
  ak_owner :: string

record model =
  md_id :: string
  md_provider :: string

record mock_model = model +
  mm_inPerM :: rat
  mm_outPerM :: rat
  mm_cachedPerM :: rat
  mm_reasoningPerM :: rat

record receipt =
  rc_id :: string
  rc_traceId :: string
  rc_sessionId :: "string option"
  rc_ts :: int
  rc_durationMs :: int
  rc_keyId :: string
  rc_keyName :: string
  rc_team :: string
  rc_project :: string
  rc_projectId :: "string option"
  rc_actor :: "string option"
  rc_requestedModel :: string
  rc_resolvedModel :: string
  rc_backend :: string
  rc_inputTokens :: int
  rc_cachedInputTokens :: int
  rc_outputTokens :: int
  rc_reasoningTokens :: int
  rc_cacheWriteTokens :: "int option"
  rc_costUsd :: "rat option"
  rc_verdict :: verdict
  rc_status :: int
  rc_errorCode :: "string option"
  rc_errorDetail :: "string option"
  rc_inFlight :: bool

record series_point =
  sr_t :: int
  sr_allowed :: int
  sr_blocked :: int
  sr_truncated :: int
  sr_throttled :: int

type_synonym amounts = "(string \<times> rat) list"

record spend_point =
  sp_day :: string
  sp_byTeam :: amounts

datatype spend_dim = DTeam | DPerson | DProject | DKey | DModel | DProvider

record spend_row =
  sw_id :: string
  sw_label :: string
  sw_sub :: "string option"
  sw_spendUsd :: rat
  sw_prevSpendUsd :: rat
  sw_requests :: int
  sw_tokens :: int
  sw_unpriced :: "int option"
  sw_p50Ms :: "rat option"
  sw_noDrill :: bool

record trend_point =
  tp_t :: int
  tp_values :: amounts

record trend_view =
  tr_bucketMs :: int
  tr_points :: "trend_point list"
  tr_order :: "string list"
  tr_labels :: "(string \<times> string) list"
  tr_unpriced :: "int option"

record period_view =
  pv_periodStart :: int
  pv_periodEnd :: int
  pv_monthToDateUsd :: rat
  pv_trailingDailyUsd :: rat
  pv_trailingDays :: int
  pv_remainingDays :: rat
  pv_projectedUsd :: rat
  pv_unpriced :: "int option"

record spend_view =
  sv_range :: string
  sv_by :: spend_dim
  sv_from :: rat
  sv_to :: int
  sv_prevFrom :: rat
  sv_rows :: "spend_row list"
  sv_unpriced :: "int option"
  sv_trend :: trend_view
  sv_period :: period_view

datatype auth_mode = AuthDev | AuthOidc

record actor =
  ac_email :: string
  ac_name :: "string option"
  ac_roles :: "string list"

record session =
  ss_tenantId :: string
  ss_tenantName :: string
  ss_environment :: string
  ss_actor :: actor
  ss_authMode :: auth_mode
  ss_signOutUrl :: "string option"
  ss_controlPlane :: string

record window_totals =
  wt_requests :: int
  wt_spendUsd :: rat
  wt_unpriced :: "int option"

record summary =
  sm_range :: string
  sm_from :: int
  sm_to :: int
  sm_current :: window_totals
  sm_previous :: window_totals
  sm_topTeamIncrease :: "(string \<times> rat) option"

datatype data_mode = Api | Mock

section \<open>Reading the control plane\<close>

definition API_BASE :: string where
  "API_BASE = ''/api/v1/demo''"

text \<open>
  An HTTP answer: its status, its status text, the \<open>error.message\<close> of its body when the body is JSON
  and has one, and the payload the caller decodes.
\<close>

record 'a response =
  rs_status :: int
  rs_statusText :: string
  rs_errorMessage :: "string option"
  rs_continueBefore :: "string option"
  rs_payload :: 'a

definition resp_ok :: "'a response \<Rightarrow> bool" where
  "resp_ok r \<longleftrightarrow> 200 \<le> rs_status r \<and> rs_status r < 300"

text \<open>\<open>get\<close>: a fetch that rejects passes its own message on.\<close>

definition get_path :: "(string \<Rightarrow> string + 'a response) \<Rightarrow> string \<Rightarrow> string + 'a response" where
  "get_path fetch path =
     (case fetch (API_BASE @ path) of
        Inl e \<Rightarrow> Inl e
      | Inr r \<Rightarrow>
          (if resp_ok r then Inr r
           else Inl (case rs_errorMessage r of
                       Some m \<Rightarrow> m
                     | None \<Rightarrow> int_str (rs_status r) @ '' '' @ rs_statusText r)))"

definition api_read :: "(string \<Rightarrow> string + 'a response) \<Rightarrow> string \<Rightarrow> string + 'a" where
  "api_read fetch path = map_sum (\<lambda>e. e) rs_payload (get_path fetch path)"

text \<open>\<open>Number(text)\<close> for decimal integers, None for NaN; an empty text is 0.\<close>

definition js_number :: "string \<Rightarrow> int option" where
  "js_number s =
     (let t = js_trim s;
          neg = starts_with ''-'' t;
          d = (if neg then drop 1 t else t)
      in if t = [] then Some 0
         else if d \<noteq> [] \<and> list_all is_digit_char d
         then Some (if neg then - int (num_val d) else int (num_val d))
         else None)"

definition apiReceipts :: "(string \<Rightarrow> string + 'a response) \<Rightarrow> string \<Rightarrow> string + ('a \<times> int option)" where
  "apiReceipts fetch path =
     (case get_path fetch path of
        Inl e \<Rightarrow> Inl e
      | Inr r \<Rightarrow> Inr (rs_payload r,
          case rs_continueBefore r of
            None \<Rightarrow> None
          | Some h \<Rightarrow> (if h = [] then None else js_number h)))"

section \<open>Keys on the wire, and indexes\<close>

record wire_key = api_key +
  wk_lastUsedAt :: "int option"

definition fromWire :: "int \<Rightarrow> wire_key \<Rightarrow> api_key" where
  "fromWire now k =
     (api_key.truncate k)
       \<lparr>ak_lastUsed := (case wk_lastUsedAt k of
            Some t \<Rightarrow> (if t \<noteq> 0 then ago t now else ''never'')
          | None \<Rightarrow> ''never'')\<rparr>"

text \<open>\<open>Object.fromEntries\<close>: a later element with the same id wins.\<close>

definition index_by :: "('a \<Rightarrow> string) \<Rightarrow> 'a list \<Rightarrow> (string \<rightharpoonup> 'a)" where
  "index_by f xs = map_of (rev (map (\<lambda>x. (f x, x)) xs))"

section \<open>The catalog and its hydration\<close>

record catalog =
  ct_teams :: "team list"
  ct_models :: "model list"
  ct_keys :: "api_key list"
  ct_projects :: "project list"
  ct_seedReceipts :: "receipt list"
  ct_trafficSeries :: "series_point list"
  ct_spendSeries :: "spend_point list"
  ct_session :: session
  ct_now :: int

text \<open>What the control plane answers to each of hydrate's reads.\<close>

record control_plane =
  cp_session :: "string + session"
  cp_teams :: "string + team list"
  cp_projects :: "string + project list"
  cp_models :: "string + model list"
  cp_keys :: "string + wire_key list"
  cp_receipts :: "string + receipt list"
  cp_traffic :: "string + series_point list"
  cp_spend :: "string + spend_point list"

text \<open>
  The session is stored as soon as it arrives.  The other seven reads are awaited together: with
  any failure nothing else is stored.  When several fail the message is the first in list order
  here; in the browser it is the first to arrive.
\<close>

definition hydrate :: "data_mode \<Rightarrow> control_plane \<Rightarrow> int \<Rightarrow> catalog \<Rightarrow> catalog \<times> (string + unit)" where
  "hydrate mode cp loadedAt c =
     (if mode \<noteq> Api then (c, Inr ())
      else case cp_session cp of
        Inl e \<Rightarrow> (c, Inl e)
      | Inr s \<Rightarrow>
         (let c1 = c\<lparr>ct_session := s\<rparr> in
          case (cp_teams cp, cp_projects cp, cp_models cp, cp_keys cp, cp_receipts cp, cp_traffic cp, cp_spend cp) of
            (Inr t, Inr pr, Inr m, Inr k, Inr rc, Inr ts, Inr sps) \<Rightarrow>
              (c1\<lparr>ct_teams := t, ct_projects := pr, ct_models := m,
                  ct_keys := map (fromWire loadedAt) k, ct_seedReceipts := rc,
                  ct_trafficSeries := ts, ct_spendSeries := sps, ct_now := loadedAt\<rparr>, Inr ())
          | (Inl e, _) \<Rightarrow> (c1, Inl e)
          | (_, Inl e, _) \<Rightarrow> (c1, Inl e)
          | (_, _, Inl e, _) \<Rightarrow> (c1, Inl e)
          | (_, _, _, Inl e, _) \<Rightarrow> (c1, Inl e)
          | (_, _, _, _, Inl e, _) \<Rightarrow> (c1, Inl e)
          | (_, _, _, _, _, Inl e, _) \<Rightarrow> (c1, Inl e)
          | (_, _, _, _, _, _, Inl e) \<Rightarrow> (c1, Inl e)))"

text \<open>\<open>signOut\<close>: where the page navigates, if anywhere.\<close>

definition signOut_target :: "session \<Rightarrow> string option" where
  "signOut_target s =
     (case ss_signOutUrl s of None \<Rightarrow> None | Some u \<Rightarrow> if u = [] then None else Some u)"

definition modelById :: "catalog \<Rightarrow> string \<rightharpoonup> model" where
  "modelById c = index_by md_id (ct_models c)"

definition keyById :: "catalog \<Rightarrow> string \<rightharpoonup> api_key" where
  "keyById c = index_by ak_id (ct_keys c)"

section \<open>Lemmas\<close>

lemma get_path_error:
  "fetch (API_BASE @ path) = Inr r \<Longrightarrow> \<not> resp_ok r \<Longrightarrow> \<exists>m. get_path fetch path = Inl m"
  by (auto simp: get_path_def)

lemma get_path_ok: "get_path fetch path = Inr r \<Longrightarrow> resp_ok r \<and> fetch (API_BASE @ path) = Inr r"
  by (auto simp: get_path_def split: sum.splits if_splits)

lemma index_by_Some: "index_by f xs k = Some x \<Longrightarrow> x \<in> set xs \<and> f x = k"
  by (auto simp: index_by_def dest!: map_of_SomeD)

lemma index_by_distinct: "distinct (map f xs) \<Longrightarrow> x \<in> set xs \<Longrightarrow> index_by f xs (f x) = Some x"
proof -
  assume d: "distinct (map f xs)" and x: "x \<in> set xs"
  let ?ps = "rev (map (\<lambda>x. (f x, x)) xs)"
  have "distinct (map fst ?ps)" using d by (simp add: o_def flip: rev_map)
  moreover have "(f x, x) \<in> set ?ps" using x by auto
  ultimately show ?thesis unfolding index_by_def by (rule map_of_is_SomeI)
qed

lemma index_by_None: "index_by f xs k = None \<longleftrightarrow> k \<notin> f ` set xs"
  by (auto simp: index_by_def map_of_eq_None_iff image_image)

lemma fromWire_id [simp]: "ak_id (fromWire now k) = ak_id k"
  by (simp add: fromWire_def api_key.truncate_def)

text \<open>Hydration stores everything or, past the session, nothing.\<close>

lemma hydrate_atomic:
  "hydrate Api cp t c = (c', Inl e) \<Longrightarrow>
     c' = c \<or> (\<exists>s. cp_session cp = Inr s \<and> c' = c\<lparr>ct_session := s\<rparr>)"
  by (auto simp: hydrate_def Let_def split: sum.splits)

lemma hydrate_loaded:
  "hydrate Api cp t c = (c', Inr ()) \<Longrightarrow>
     cp_session cp = Inr (ct_session c') \<and> cp_teams cp = Inr (ct_teams c') \<and> cp_projects cp = Inr (ct_projects c') \<and>
     cp_models cp = Inr (ct_models c') \<and> (\<exists>k. cp_keys cp = Inr k \<and> ct_keys c' = map (fromWire t) k) \<and>
     cp_receipts cp = Inr (ct_seedReceipts c') \<and> cp_traffic cp = Inr (ct_trafficSeries c') \<and>
     cp_spend cp = Inr (ct_spendSeries c') \<and> ct_now c' = t"
  by (auto simp: hydrate_def Let_def split: sum.splits)

end
