(* ===== verification/ReceiptStream.thy ===== *)
theory ReceiptStream
  imports OrderedMap Catalog
begin

text \<open>
  \<open>class ReceiptStream\<close> of \<open>state/app-state.tsx\<close>: the live rows, the receipt cache, the one
  \<open>EventSource\<close> of the tab, batching, narrowing by \<open>tail\<close> and widening in a microtask.  The state
  record has one field per private field of the class; the last fields record what happened
  (connections opened, batches delivered, calls of \<open>emit\<close> and of the sampling listeners).  An inductive step relation lists the events, and the
  invariants are proved over every interleaving of them.
\<close>

section \<open>State\<close>

record sampling =
  sg_oneIn :: int
  sg_ratePerSec :: rat
  sg_thresholdPerSec :: int

text \<open>
  A queued receipt carries the query of the connection it came on.  A tailer is identified by a
  number (object identity); \<open>st_tailQuery\<close> is what it asked for.
\<close>

record stream =
  st_rows :: "receipt list"
  st_byId :: "receipt omap"
  st_started :: bool
  st_sampling :: "sampling option"
  st_query :: string
  st_tailer :: "nat option"
  st_queue :: "(string \<times> receipt) list"
  st_timer :: bool
  st_es :: "string option"
  st_microtasks :: nat
  st_tailQuery :: string
  st_opened :: "string list"
  st_delivered :: "(nat \<times> string \<times> (string \<times> receipt) list) list"
  st_drops :: "(nat \<times> int) list"
  st_emits :: nat
  st_samplingEmits :: nat

definition ROWS_CAP :: nat where "ROWS_CAP = 600"
definition BYID_CAP :: nat where "BYID_CAP = 20000"

section \<open>Operations\<close>

text \<open>\<open>remember\<close>: re-inserted at the end; over the cap the first key (the oldest) goes.\<close>

definition remember :: "receipt \<Rightarrow> receipt omap \<Rightarrow> receipt omap" where
  "remember r m =
     (let m1 = om_set (rc_id r) r (om_delete (rc_id r) m)
      in if length m1 > BYID_CAP then tl m1 else m1)"

text \<open>The loop of \<open>upsertMany\<close>: \<open>settled\<close>, \<open>fresh\<close> and the cache.\<close>

definition upsert_step ::
  "string set \<Rightarrow> receipt \<Rightarrow> receipt omap \<times> receipt list \<times> receipt omap
     \<Rightarrow> receipt omap \<times> receipt list \<times> receipt omap" where
  "upsert_step known r acc = (case acc of (settled, fresh, byId) \<Rightarrow>
     if rc_id r \<in> known \<or> om_has settled (rc_id r)
     then (om_set (rc_id r) r settled, fresh, remember r byId)
     else (settled, fresh @ [r], remember r byId))"

definition upsertMany :: "receipt list \<Rightarrow> stream \<Rightarrow> stream" where
  "upsertMany batch s =
     (let known = rc_id ` set (st_rows s);
          (settled, fresh, byId) = fold (upsert_step known) batch ([], [], st_byId s);
          newRows = rev (map (\<lambda>r. or_else (om_get settled (rc_id r)) r) fresh);
          settled' = fold (\<lambda>r m. om_delete (rc_id r) m) newRows settled;
          rows = (if settled' \<noteq> [] then map (\<lambda>x. or_else (om_get settled' (rc_id x)) x) (st_rows s)
                  else st_rows s)
      in s\<lparr>st_byId := byId,
           st_rows := (if newRows \<noteq> [] then take ROWS_CAP (newRows @ rows) else rows),
           st_emits := Suc (st_emits s)\<rparr>)"

definition deliver :: "(string \<times> receipt) list \<Rightarrow> stream \<Rightarrow> stream" where
  "deliver batch s =
     (case st_tailer s of
        None \<Rightarrow> s
      | Some t \<Rightarrow> s\<lparr>st_delivered := st_delivered s @ [(t, st_tailQuery s, batch)]\<rparr>)"

definition flush :: "stream \<Rightarrow> stream" where
  "flush s =
     (let s1 = s\<lparr>st_timer := False\<rparr> in
      if st_queue s1 = [] then s1
      else (let batch = st_queue s1
            in deliver batch (upsertMany (map snd batch) (s1\<lparr>st_queue := []\<rparr>))))"

definition setSampling :: "sampling option \<Rightarrow> stream \<Rightarrow> stream" where
  "setSampling n s =
     (if map_option sg_oneIn n = map_option sg_oneIn (st_sampling s)
         \<and> map_option sg_ratePerSec n = map_option sg_ratePerSec (st_sampling s)
      then s else s\<lparr>st_sampling := n, st_samplingEmits := Suc (st_samplingEmits s)\<rparr>)"

definition connect :: "stream \<Rightarrow> stream" where
  "connect s =
     (let s1 = flush (s\<lparr>st_es := None\<rparr>)
      in setSampling None
           (s1\<lparr>st_es := Some (st_query s1), st_opened := st_opened s1 @ [st_query s1]\<rparr>))"

text \<open>In mock mode \<open>start\<close> begins the simulation, which only calls \<open>upsert\<close> from timers.\<close>

definition start :: "data_mode \<Rightarrow> stream \<Rightarrow> stream" where
  "start mode s =
     (if st_started s then s
      else (let s1 = s\<lparr>st_started := True\<rparr> in if mode = Api then connect s1 else s1))"

definition tail :: "data_mode \<Rightarrow> string \<Rightarrow> nat \<Rightarrow> stream \<Rightarrow> stream" where
  "tail mode q t s =
     (if mode \<noteq> Api then s
      else (let s1 = flush s;
                reconnect = (st_started s1 \<and> q \<noteq> st_query s1);
                s2 = s1\<lparr>st_tailer := Some t, st_tailQuery := q, st_query := q\<rparr>
            in if reconnect then connect s2 else start mode s2))"

text \<open>The function \<open>tail\<close> returns, and the microtask it queues.\<close>

definition untail :: "nat \<Rightarrow> stream \<Rightarrow> stream" where
  "untail t s =
     (if st_tailer s \<noteq> Some t then s
      else (let s1 = flush s
            in s1\<lparr>st_tailer := None, st_microtasks := Suc (st_microtasks s1)\<rparr>))"

definition microtask :: "stream \<Rightarrow> stream" where
  "microtask s =
     (let s1 = s\<lparr>st_microtasks := st_microtasks s - 1\<rparr> in
      if st_tailer s1 \<noteq> None \<or> st_query s1 = [] then s1
      else connect (s1\<lparr>st_query := []\<rparr>))"

text \<open>The three listeners of the connection.\<close>

definition on_receipt :: "receipt \<Rightarrow> stream \<Rightarrow> stream" where
  "on_receipt r s =
     (case st_es s of
        None \<Rightarrow> s
      | Some q \<Rightarrow> s\<lparr>st_queue := st_queue s @ [(q, r)], st_timer := True\<rparr>)"

definition on_dropped :: "int \<Rightarrow> stream \<Rightarrow> stream" where
  "on_dropped n s =
     (case st_tailer s of None \<Rightarrow> s | Some t \<Rightarrow> s\<lparr>st_drops := st_drops s @ [(t, n)]\<rparr>)"

definition on_sampling :: "sampling \<Rightarrow> stream \<Rightarrow> stream" where
  "on_sampling n s = setSampling (if sg_oneIn n > 1 then Some n else None) s"

text \<open>The simulator's two timers: a new receipt, and settling one that was streaming.\<close>

definition sim_tick :: "receipt \<Rightarrow> stream \<Rightarrow> stream" where
  "sim_tick r s = upsertMany [r] s"

definition sim_settle :: "string \<Rightarrow> stream \<Rightarrow> stream" where
  "sim_settle i s =
     (case om_get (st_byId s) i of
        None \<Rightarrow> s
      | Some cur \<Rightarrow> upsertMany [cur\<lparr>rc_inFlight := False\<rparr>] s)"

definition init_stream :: "receipt list \<Rightarrow> stream" where
  "init_stream seed =
     \<lparr>st_rows = seed, st_byId = om_of (map (\<lambda>r. (rc_id r, r)) seed), st_started = False,
      st_sampling = None, st_query = [], st_tailer = None, st_queue = [], st_timer = False,
      st_es = None, st_microtasks = 0, st_tailQuery = [], st_opened = [], st_delivered = [],
      st_drops = [], st_emits = 0, st_samplingEmits = 0\<rparr>"

section \<open>Steps\<close>

inductive stream_step :: "data_mode \<Rightarrow> stream \<Rightarrow> stream \<Rightarrow> bool" for mode where
  Subscribe: "stream_step mode s (start mode s)"
| Tail: "stream_step mode s (tail mode q t s)"
| Untail: "stream_step mode s (untail t s)"
| Microtask: "0 < st_microtasks s \<Longrightarrow> stream_step mode s (microtask s)"
| Receipt: "st_es s \<noteq> None \<Longrightarrow> stream_step mode s (on_receipt r s)"
| Dropped: "st_es s \<noteq> None \<Longrightarrow> stream_step mode s (on_dropped n s)"
| Sampling: "st_es s \<noteq> None \<Longrightarrow> stream_step mode s (on_sampling n s)"
| Timer: "st_timer s \<Longrightarrow> stream_step mode s (flush s)"
| Remember: "stream_step mode s (s\<lparr>st_byId := remember r (st_byId s)\<rparr>)"
| SimTick: "mode = Mock \<Longrightarrow> stream_step mode s (sim_tick r s)"
| SimSettle: "mode = Mock \<Longrightarrow> stream_step mode s (sim_settle i s)"

inductive stream_run :: "data_mode \<Rightarrow> receipt list \<Rightarrow> stream \<Rightarrow> bool" for mode seed where
  Start: "stream_run mode seed (init_stream seed)"
| Step: "stream_run mode seed s \<Longrightarrow> stream_step mode s s' \<Longrightarrow> stream_run mode seed s'"

inductive_cases stream_stepE: "stream_step mode s s'"

section \<open>The cache\<close>

definition cache_wf :: "receipt omap \<Rightarrow> bool" where
  "cache_wf m \<longleftrightarrow> om_wf m \<and> (\<forall>p \<in> set m. fst p = rc_id (snd p)) \<and> length m \<le> BYID_CAP"

lemma remember_eq:
  "remember r m = (let m1 = om_delete (rc_id r) m @ [(rc_id r, r)]
                   in if length m1 > BYID_CAP then tl m1 else m1)"
proof -
  have "om_get (om_delete (rc_id r) m) (rc_id r) = None" by simp
  then show ?thesis by (simp add: remember_def om_set_absent)
qed

lemma cache_wf_remember: "cache_wf m \<Longrightarrow> cache_wf (remember r m)"
proof -
  assume wf: "cache_wf m"
  let ?m1 = "om_set (rc_id r) r (om_delete (rc_id r) m)"
  have eq: "?m1 = om_delete (rc_id r) m @ [(rc_id r, r)]" by (rule om_set_absent) simp
  have len: "length ?m1 \<le> Suc BYID_CAP"
    using wf length_om_delete [of "rc_id r" m] by (simp add: eq cache_wf_def)
  have "om_wf ?m1" using wf by (simp add: cache_wf_def)
  moreover have "\<forall>p \<in> set ?m1. fst p = rc_id (snd p)"
    unfolding eq using wf by (auto simp: cache_wf_def om_delete_def)
  moreover have "set (tl xs) \<subseteq> set xs" for xs :: "receipt omap" by (cases xs) auto
  ultimately show ?thesis
    using len by (auto simp: remember_def Let_def cache_wf_def om_wf_tl)
qed

lemma remember_get:
  assumes wf: "cache_wf m"
  shows "om_get (remember r m) (rc_id r) = Some r"
    and "k \<noteq> rc_id r \<Longrightarrow> om_get (remember r m) k = om_get m k \<or> om_get (remember r m) k = None"
    and "length m < BYID_CAP \<Longrightarrow> k \<noteq> rc_id r \<Longrightarrow> om_get (remember r m) k = om_get m k"
proof -
  let ?m1 = "om_set (rc_id r) r (om_delete (rc_id r) m)"
  have w1: "om_wf ?m1" using wf by (simp add: cache_wf_def)
  have eq: "?m1 = om_delete (rc_id r) m @ [(rc_id r, r)]" by (rule om_set_absent) simp
  have big: "length ?m1 > BYID_CAP \<Longrightarrow> \<exists>p q. ?m1 = p # q @ [(rc_id r, r)]"
    unfolding eq by (cases "om_delete (rc_id r) m") (auto simp: BYID_CAP_def)
  show "om_get (remember r m) (rc_id r) = Some r"
  proof (cases "length ?m1 > BYID_CAP")
    case True
    then obtain p q where pq: "?m1 = p # q @ [(rc_id r, r)]" using big by blast
    with w1 have "rc_id r \<notin> set (map fst q)" by (auto simp: om_wf_def)
    then have "om_get (tl ?m1) (rc_id r) = Some r"
      by (auto simp: pq om_get_def map_add_def map_of_eq_None_iff split: option.splits
          dest: map_of_SomeD intro: rev_image_eqI)
    with True show ?thesis by (simp add: remember_def)
  qed (simp add: remember_def Let_def)
  show "k \<noteq> rc_id r \<Longrightarrow> om_get (remember r m) k = om_get m k \<or> om_get (remember r m) k = None"
    using om_get_tl [OF w1, of k] by (auto simp: remember_def Let_def)
  show "length m < BYID_CAP \<Longrightarrow> k \<noteq> rc_id r \<Longrightarrow> om_get (remember r m) k = om_get m k"
    using length_om_delete [of "rc_id r" m] by (simp add: remember_def Let_def eq [symmetric]) (simp add: eq)
qed

lemma length_remember: "length (remember r m) \<le> Suc (length m)"
  using length_om_delete [of "rc_id r" m] by (auto simp: remember_eq Let_def)

interpretation rc: bounded_cache remember om_get rc_id length BYID_CAP cache_wf
proof
  show "cache_wf m \<Longrightarrow> cache_wf (remember v m)" for m v by (rule cache_wf_remember)
  show "cache_wf m \<Longrightarrow> om_get m k = Some v \<Longrightarrow> rc_id v = k" for m k v
    by (auto simp: cache_wf_def om_get_def dest!: map_of_SomeD)
  show "cache_wf m \<Longrightarrow> om_get (remember v m) (rc_id v) = Some v" for m v by (rule remember_get(1))
  show "cache_wf m \<Longrightarrow> k \<noteq> rc_id v \<Longrightarrow>
      om_get (remember v m) k = om_get m k \<or> om_get (remember v m) k = None" for m k v
    by (rule remember_get(2))
  show "cache_wf m \<Longrightarrow> length m < BYID_CAP \<Longrightarrow> k \<noteq> rc_id v \<Longrightarrow>
      om_get (remember v m) k = om_get m k" for m k v
    by (rule remember_get(3))
  show "cache_wf m \<Longrightarrow> length m \<le> BYID_CAP" for m by (simp add: cache_wf_def)
  show "cache_wf m \<Longrightarrow> length (remember v m) \<le> Suc (length m)" for m v by (rule length_remember)
qed

lemma length_delete_in: "om_wf m \<Longrightarrow> length m \<le> Suc (length (om_delete k m))"
proof (induction m)
  case (Cons p m)
  then have "fst p = k \<Longrightarrow> k \<notin> set (map fst m)" by (auto simp: om_wf_def)
  then have "fst p = k \<Longrightarrow> om_delete k m = m"
    unfolding om_delete_def by (intro filter_True) (metis image_eqI set_map)
  with Cons show ?case by (auto simp: om_wf_def om_delete_def)
qed simp

interpretation rg: growing_cache remember om_get rc_id length BYID_CAP cache_wf
proof
  fix m and v :: receipt
  assume "cache_wf m"
  then show "length m \<le> length (remember v m)"
    using length_delete_in [of m "rc_id v"] length_om_delete [of "rc_id v" m]
    by (auto simp: cache_wf_def remember_eq Let_def)
qed

section \<open>upsertMany against its specification\<close>

text \<open>
  The loop in closed form: every known row in its newest form, in place, and on top what was unknown before the batch,
  newest arrival first.  What the comments of the code ask for is \<open>settled_rows\<close>: a receipt that is new is one row, in its
  settled form.  The two agree when no new receipt comes twice in a batch.
\<close>

definition newest :: "receipt list \<Rightarrow> receipt \<Rightarrow> receipt" where
  "newest batch x = or_else (index_by rc_id batch (rc_id x)) x"

definition unknown_of :: "receipt list \<Rightarrow> receipt list \<Rightarrow> receipt list" where
  "unknown_of rows batch = filter (\<lambda>r. rc_id r \<notin> rc_id ` set rows) batch"

definition rows_spec :: "receipt list \<Rightarrow> receipt list \<Rightarrow> receipt list" where
  "rows_spec batch rows =
     (let new = rev (unknown_of rows batch); old = map (newest batch) rows
      in if new \<noteq> [] then take ROWS_CAP (new @ old) else old)"

definition first_arrivals :: "receipt list \<Rightarrow> receipt list" where
  "first_arrivals rs = fold (\<lambda>r acc. if rc_id r \<in> rc_id ` set acc then acc else acc @ [r]) rs []"

definition settled_rows :: "receipt list \<Rightarrow> receipt list \<Rightarrow> receipt list" where
  "settled_rows batch rows =
     (let new = rev (map (newest batch) (first_arrivals (unknown_of rows batch))); old = map (newest batch) rows
      in if new \<noteq> [] then take ROWS_CAP (new @ old) else old)"

lemma index_by_Nil [simp]: "index_by f [] k = None"
  by (simp add: index_by_def)

lemma index_by_Cons: "index_by f (x # xs) k =
    (case index_by f xs k of Some y \<Rightarrow> Some y | None \<Rightarrow> if f x = k then Some x else None)"
  by (auto simp: index_by_def map_add_def split: option.splits)

lemma upsert_step_known:
  "rc_id r \<in> known \<Longrightarrow>
    upsert_step known r (S, F, b) = (om_set (rc_id r) r S, F, remember r b)"
  by (simp add: upsert_step_def)

lemma upsert_step_new:
  "rc_id r \<notin> known \<Longrightarrow> \<not> om_has S (rc_id r) \<Longrightarrow>
    upsert_step known r (S, F, b) = (S, F @ [r], remember r b)"
  by (simp add: upsert_step_def)

lemma upsert_loop:
  assumes "set (map fst S) \<subseteq> known"
  shows "\<exists>S'. fold (upsert_step known) batch (S, F, b)
               = (S', F @ filter (\<lambda>r. rc_id r \<notin> known) batch, rc.remember_all batch b)
           \<and> set (map fst S') \<subseteq> known
           \<and> (\<forall>k \<in> known. om_get S' k = (case index_by rc_id batch k of Some r \<Rightarrow> Some r | None \<Rightarrow> om_get S k))"
  using assms
proof (induction batch arbitrary: S F b)
  case (Cons r batch)
  show ?case
  proof (cases "rc_id r \<in> known")
    case True
    with Cons.prems have S: "set (map fst (om_set (rc_id r) r S)) \<subseteq> known"
      by (simp del: set_map)
    from Cons.IH [OF S, of F "remember r b"] obtain S' where
      "fold (upsert_step known) batch (om_set (rc_id r) r S, F, remember r b)
         = (S', F @ filter (\<lambda>r. rc_id r \<notin> known) batch, rc.remember_all batch (remember r b))"
      "set (map fst S') \<subseteq> known"
      "\<forall>k \<in> known. om_get S' k = (case index_by rc_id batch k of Some r \<Rightarrow> Some r
          | None \<Rightarrow> om_get (om_set (rc_id r) r S) k)" by blast
    with True show ?thesis
      by (intro exI [of _ S'])
        (auto simp: upsert_step_known rc.remember_all_def index_by_Cons split: option.split)
  next
    case False
    with Cons.prems have "\<not> om_has S (rc_id r)" by (auto simp: om_has_def)
    moreover from Cons.IH [OF Cons.prems, of "F @ [r]" "remember r b"] obtain S' where
      "fold (upsert_step known) batch (S, F @ [r], remember r b)
         = (S', (F @ [r]) @ filter (\<lambda>r. rc_id r \<notin> known) batch, rc.remember_all batch (remember r b))"
      "set (map fst S') \<subseteq> known"
      "\<forall>k \<in> known. om_get S' k = (case index_by rc_id batch k of Some r \<Rightarrow> Some r | None \<Rightarrow> om_get S k)"
      by blast
    ultimately show ?thesis using False
      by (intro exI [of _ S'])
        (auto simp: upsert_step_new rc.remember_all_def index_by_Cons split: option.split)
  qed
qed (simp add: rc.remember_all_def)

lemma om_delete_absent: "k \<notin> set (map fst m) \<Longrightarrow> om_delete k m = m"
  by (auto simp: om_delete_def intro!: filter_True)

lemma fold_delete_absent:
  "\<forall>r \<in> set rs. rc_id r \<notin> set (map fst m) \<Longrightarrow> fold (\<lambda>r m. om_delete (rc_id r) m) rs m = m"
  by (induction rs) (simp_all add: om_delete_absent)

lemma upsertMany_eq:
  "upsertMany batch s =
     s\<lparr>st_byId := rc.remember_all batch (st_byId s), st_rows := rows_spec batch (st_rows s), st_emits := Suc (st_emits s)\<rparr>"
proof -
  let ?known = "rc_id ` set (st_rows s)"
  obtain S where S: "fold (upsert_step ?known) batch ([], [], st_byId s)
      = (S, unknown_of (st_rows s) batch, rc.remember_all batch (st_byId s))"
    and keys: "set (map fst S) \<subseteq> ?known"
    and get': "\<forall>k \<in> ?known. om_get S k = (case index_by rc_id batch k of Some r \<Rightarrow> Some r | None \<Rightarrow> None)"
    using upsert_loop [of "[]" ?known batch "[]" "st_byId s"] unfolding unknown_of_def om_get_Nil
    by auto
  have get: "om_get S k = index_by rc_id batch k" if "k \<in> ?known" for k
    using bspec [OF get' that] by (cases "index_by rc_id batch k") simp_all
  have out: "rc_id r \<notin> set (map fst S)" if "r \<in> set (unknown_of (st_rows s) batch)" for r
    using that keys by (auto simp: unknown_of_def)
  have new: "map (\<lambda>r. or_else (om_get S (rc_id r)) r) (unknown_of (st_rows s) batch)
      = unknown_of (st_rows s) batch"
  proof (rule map_idI)
    fix r assume "r \<in> set (unknown_of (st_rows s) batch)"
    then have "om_get S (rc_id r) = None" using out by (simp only: om_get_None) blast
    then show "or_else (om_get S (rc_id r)) r = r" by simp
  qed
  have del: "fold (\<lambda>r m. om_delete (rc_id r) m) (rev (unknown_of (st_rows s) batch)) S = S"
    using out by (intro fold_delete_absent) auto
  have old: "(if S \<noteq> [] then map (\<lambda>x. or_else (om_get S (rc_id x)) x) (st_rows s) else st_rows s)
      = map (newest batch) (st_rows s)"
  proof -
    have "map (\<lambda>x. or_else (om_get S (rc_id x)) x) (st_rows s) = map (newest batch) (st_rows s)"
      by (rule map_cong) (simp_all add: newest_def get)
    moreover have "map (\<lambda>x. or_else (om_get [] (rc_id x)) x) (st_rows s) = st_rows s"
      by (simp add: map_idI)
    ultimately show ?thesis by metis
  qed
  have "map (\<lambda>r. or_else (om_get S (rc_id r)) r) (unknown_of (st_rows s) batch) =
      unknown_of (st_rows s) batch" by (rule new)
  then show ?thesis
    unfolding upsertMany_def Let_def S prod.case new del old rows_spec_def by simp
qed

lemma newest_id [simp]: "rc_id (newest batch x) = rc_id x"
  by (cases "index_by rc_id batch (rc_id x)") (auto simp: newest_def dest: index_by_Some)

lemma newest_ids [simp]: "rc_id \<circ> newest batch = rc_id"
  by auto

lemma rows_spec_distinct:
  assumes "distinct (map rc_id rows)" "distinct (map rc_id batch)"
  shows "distinct (map rc_id (rows_spec batch rows))"
proof -
  have "distinct (map rc_id (rev (unknown_of rows batch) @ map (newest batch) rows))"
    using assms by (auto simp: unknown_of_def distinct_map_filter simp flip: rev_map)
  from distinct_map_take [OF this, of ROWS_CAP] show ?thesis
    unfolding rows_spec_def Let_def
    using assms by (cases "rev (unknown_of rows batch) = []") (simp_all del: take_append)
qed

lemma first_arrivals_distinct: "distinct (map rc_id rs) \<Longrightarrow> first_arrivals rs = rs"
proof -
  have "distinct (map rc_id (acc @ rs)) \<Longrightarrow>
      fold (\<lambda>r acc. if rc_id r \<in> rc_id ` set acc then acc else acc @ [r]) rs acc = acc @ rs" for acc
    by (induction rs arbitrary: acc) auto
  from this [of "[]"] show "distinct (map rc_id rs) \<Longrightarrow> first_arrivals rs = rs" by (simp add: first_arrivals_def)
qed

lemma rows_spec_settled:
  assumes "distinct (map rc_id (unknown_of rows batch))"
  shows "rows_spec batch rows = settled_rows batch rows"
proof -
  have "newest batch r = r" if r: "r \<in> set (unknown_of rows batch)" for r
  proof (cases "index_by rc_id batch (rc_id r)")
    case (Some y)
    from index_by_Some [OF Some] r have "y \<in> set (unknown_of rows batch)" "rc_id y = rc_id r" by (auto simp: unknown_of_def)
    with assms r have "y = r" by (auto simp: distinct_map inj_on_def)
    with Some show ?thesis by (simp add: newest_def)
  qed (simp add: newest_def)
  then have "map (newest batch) (unknown_of rows batch) = unknown_of rows batch" by (intro map_idI)
  then show ?thesis by (simp add: rows_spec_def settled_rows_def first_arrivals_distinct [OF assms])
qed

lemma rows_spec_length: "length rows \<le> ROWS_CAP \<Longrightarrow> length (rows_spec batch rows) \<le> ROWS_CAP"
  by (auto simp: rows_spec_def Let_def)

section \<open>Frames\<close>

lemma upsertMany_frame [simp]:
  "st_started (upsertMany b s) = st_started s" "st_sampling (upsertMany b s) = st_sampling s"
  "st_query (upsertMany b s) = st_query s" "st_tailer (upsertMany b s) = st_tailer s"
  "st_queue (upsertMany b s) = st_queue s" "st_timer (upsertMany b s) = st_timer s"
  "st_es (upsertMany b s) = st_es s" "st_microtasks (upsertMany b s) = st_microtasks s"
  "st_tailQuery (upsertMany b s) = st_tailQuery s" "st_opened (upsertMany b s) = st_opened s"
  "st_delivered (upsertMany b s) = st_delivered s" "st_drops (upsertMany b s) = st_drops s"
  "st_emits (upsertMany b s) = Suc (st_emits s)" "st_samplingEmits (upsertMany b s) = st_samplingEmits s"
  "st_rows (upsertMany b s) = rows_spec b (st_rows s)"
  "st_byId (upsertMany b s) = rc.remember_all b (st_byId s)"
  by (simp_all add: upsertMany_eq)

lemma deliver_frame [simp]:
  "st_started (deliver b s) = st_started s" "st_query (deliver b s) = st_query s"
  "st_tailer (deliver b s) = st_tailer s" "st_queue (deliver b s) = st_queue s"
  "st_timer (deliver b s) = st_timer s" "st_es (deliver b s) = st_es s"
  "st_microtasks (deliver b s) = st_microtasks s" "st_tailQuery (deliver b s) = st_tailQuery s"
  "st_opened (deliver b s) = st_opened s" "st_rows (deliver b s) = st_rows s"
  "st_byId (deliver b s) = st_byId s" "st_emits (deliver b s) = st_emits s"
  "st_sampling (deliver b s) = st_sampling s" "st_samplingEmits (deliver b s) = st_samplingEmits s"
  by (simp_all add: deliver_def split: option.splits)

lemma rows_spec_Nil [simp]: "rows_spec [] rows = rows"
  by (simp add: rows_spec_def unknown_of_def newest_def [abs_def])

lemma flush_frame [simp]:
  "st_started (flush s) = st_started s" "st_query (flush s) = st_query s"
  "st_tailer (flush s) = st_tailer s" "st_queue (flush s) = []" "st_timer (flush s) = False"
  "st_es (flush s) = st_es s" "st_microtasks (flush s) = st_microtasks s"
  "st_tailQuery (flush s) = st_tailQuery s" "st_opened (flush s) = st_opened s"
  "st_rows (flush s) = rows_spec (map snd (st_queue s)) (st_rows s)"
  "st_byId (flush s) = rc.remember_all (map snd (st_queue s)) (st_byId s)"
  "st_emits (flush s) = st_emits s + (if st_queue s = [] then 0 else 1)"
  "st_sampling (flush s) = st_sampling s" "st_samplingEmits (flush s) = st_samplingEmits s"
  by (simp_all add: flush_def Let_def rc.remember_all_def)

lemma flush_delivered:
  "st_delivered (flush s) = st_delivered s @
     (case st_tailer s of None \<Rightarrow> []
      | Some t \<Rightarrow> if st_queue s = [] then [] else [(t, st_tailQuery s, st_queue s)])"
  by (simp add: flush_def deliver_def Let_def split: option.splits)

lemma setSampling_frame [simp]:
  "st_started (setSampling n s) = st_started s" "st_query (setSampling n s) = st_query s"
  "st_tailer (setSampling n s) = st_tailer s" "st_queue (setSampling n s) = st_queue s"
  "st_timer (setSampling n s) = st_timer s" "st_es (setSampling n s) = st_es s"
  "st_microtasks (setSampling n s) = st_microtasks s" "st_tailQuery (setSampling n s) = st_tailQuery s"
  "st_opened (setSampling n s) = st_opened s" "st_rows (setSampling n s) = st_rows s"
  "st_byId (setSampling n s) = st_byId s" "st_delivered (setSampling n s) = st_delivered s"
  "st_emits (setSampling n s) = st_emits s"
  by (simp_all add: setSampling_def)

lemma connect_frame [simp]:
  "st_started (connect s) = st_started s" "st_query (connect s) = st_query s"
  "st_tailer (connect s) = st_tailer s" "st_queue (connect s) = []" "st_timer (connect s) = False"
  "st_es (connect s) = Some (st_query s)" "st_microtasks (connect s) = st_microtasks s"
  "st_tailQuery (connect s) = st_tailQuery s" "st_opened (connect s) = st_opened s @ [st_query s]"
  "st_rows (connect s) = rows_spec (map snd (st_queue s)) (st_rows s)"
  "st_byId (connect s) = rc.remember_all (map snd (st_queue s)) (st_byId s)"
  "st_emits (connect s) = st_emits s + (if st_queue s = [] then 0 else 1)"
  by (simp_all add: connect_def Let_def)

lemma connect_delivered:
  "st_delivered (connect s) = st_delivered s @
     (case st_tailer s of None \<Rightarrow> []
      | Some t \<Rightarrow> if st_queue s = [] then [] else [(t, st_tailQuery s, st_queue s)])"
  by (simp add: connect_def Let_def flush_delivered split: option.split)

text \<open>A new connection starts unsampled.\<close>

lemma connect_sampling: "st_sampling (connect s) = None"
  by (simp add: connect_def Let_def setSampling_def)

section \<open>The invariant\<close>

definition data_inv :: "stream \<Rightarrow> bool" where
  "data_inv s \<longleftrightarrow> length (st_rows s) \<le> ROWS_CAP \<and> cache_wf (st_byId s)"

definition flow_inv :: "data_mode \<Rightarrow> stream \<Rightarrow> bool" where
  "flow_inv mode s \<longleftrightarrow>
     (st_queue s \<noteq> [] \<longrightarrow> st_timer s \<and> st_started s) \<and>
     (st_started s \<and> mode = Api \<longrightarrow> st_es s = Some (st_query s)) \<and>
     (\<not> st_started s \<longrightarrow> st_es s = None \<and> st_tailer s = None \<and> st_query s = [] \<and> st_microtasks s = 0) \<and>
     (mode = Mock \<longrightarrow> st_tailer s = None \<and> st_es s = None \<and> st_query s = [] \<and> st_microtasks s = 0) \<and>
     (st_query s \<noteq> [] \<longrightarrow> st_tailer s \<noteq> None \<or> 0 < st_microtasks s) \<and>
     (st_tailer s \<noteq> None \<longrightarrow> st_tailQuery s = st_query s \<and> (\<forall>p \<in> set (st_queue s). fst p = st_query s)) \<and>
     (\<forall>(t, q, b) \<in> set (st_delivered s). \<forall>p \<in> set b. fst p = q)"

lemma data_inv_step: "stream_step mode s s' \<Longrightarrow> data_inv s \<Longrightarrow> data_inv s'"
  by (cases rule: stream_step.cases, assumption)
    (auto simp: data_inv_def start_def tail_def untail_def microtask_def on_receipt_def on_dropped_def
      on_sampling_def sim_tick_def sim_settle_def Let_def rows_spec_length rc.wf_remember_all
      rc.wf_remember split: option.splits)

lemma flow_start: "flow_inv mode s \<Longrightarrow> flow_inv mode (start mode s)"
  by (auto simp: flow_inv_def start_def Let_def connect_delivered split: option.splits)

lemma flow_tail: "flow_inv mode s \<Longrightarrow> flow_inv mode (tail mode q t s)"
  by (cases "st_tailer s"; cases mode)
    (auto simp: flow_inv_def tail_def start_def Let_def connect_delivered flush_delivered)

lemma flow_untail: "flow_inv mode s \<Longrightarrow> flow_inv mode (untail t s)"
  by (auto simp: flow_inv_def untail_def Let_def flush_delivered)

lemma flow_microtask: "flow_inv mode s \<Longrightarrow> 0 < st_microtasks s \<Longrightarrow> flow_inv mode (microtask s)"
  by (cases mode; cases "st_started s")
    (auto simp: flow_inv_def microtask_def Let_def connect_delivered)

lemma flow_flush: "flow_inv mode s \<Longrightarrow> flow_inv mode (flush s)"
  by (auto simp: flow_inv_def flush_delivered split: option.splits)

lemma flow_inv_step: "stream_step mode s s' \<Longrightarrow> flow_inv mode s \<Longrightarrow> flow_inv mode s'"
proof (induction rule: stream_step.induct)
  case (Receipt s r)
  then have "st_started s" "mode = Api" by (cases mode; auto simp: flow_inv_def)+
  with Receipt have "st_es s = Some (st_query s)" by (simp add: flow_inv_def)
  then have "on_receipt r s = s\<lparr>st_queue := st_queue s @ [(st_query s, r)], st_timer := True\<rparr>"
    by (simp add: on_receipt_def)
  with Receipt.prems \<open>st_started s\<close> \<open>mode = Api\<close> show ?case by (simp add: flow_inv_def)
next
  case (Dropped s n)
  then show ?case by (cases "st_tailer s") (simp_all add: flow_inv_def on_dropped_def)
next
  case (Sampling s n)
  then show ?case by (auto simp: flow_inv_def on_sampling_def)
next
  case (Remember s r)
  then show ?case by (auto simp: flow_inv_def)
next
  case (SimTick s r)
  then show ?case by (auto simp: flow_inv_def sim_tick_def)
next
  case (SimSettle s i)
  then show ?case by (auto simp: flow_inv_def sim_settle_def split: option.splits)
qed (simp_all add: flow_start flow_tail flow_untail flow_microtask flow_flush)

lemma data_inv_init: "length seed \<le> ROWS_CAP \<Longrightarrow> data_inv (init_stream seed)"
proof -
  assume len: "length seed \<le> ROWS_CAP"
  have keys: "\<forall>p \<in> set m. fst p = rc_id (snd p) \<Longrightarrow>
      \<forall>p \<in> set (fold (\<lambda>(k, v) m. om_set k v m) (map (\<lambda>r. (rc_id r, r)) rs) m). fst p = rc_id (snd p)"
    for rs and m :: "receipt omap"
  proof (induction rs arbitrary: m)
    case (Cons r rs)
    have "\<forall>p \<in> set (om_set (rc_id r) r m). fst p = rc_id (snd p)"
      using set_om_set [of "rc_id r" r m] Cons.prems by fastforce
    then show ?case using Cons.IH by simp
  qed simp
  have "length (om_of (map (\<lambda>r. (rc_id r, r)) seed)) \<le> BYID_CAP"
    using length_om_of [of "map (\<lambda>r. (rc_id r, r)) seed"] len by (simp add: ROWS_CAP_def BYID_CAP_def)
  with len keys [of "[]" seed] show ?thesis
    by (simp add: data_inv_def init_stream_def cache_wf_def om_wf_of) (simp add: om_of_def)
qed

lemma flow_inv_init: "flow_inv mode (init_stream seed)"
  by (simp add: flow_inv_def init_stream_def)

lemma stream_run_inv:
  "stream_run mode seed s \<Longrightarrow> length seed \<le> ROWS_CAP \<Longrightarrow> data_inv s \<and> flow_inv mode s"
  by (induction rule: stream_run.induct)
    (auto intro: data_inv_init flow_inv_init data_inv_step flow_inv_step)

section \<open>Settling\<close>

text \<open>
  The work the stream gives itself: the batch timer and the queued microtasks.  With no receipt coming in and no page
  acting, it ends, because neither step makes more work, with nothing pending.
\<close>

inductive settle_step :: "stream \<Rightarrow> stream \<Rightarrow> bool" where
  SettleTimer: "st_timer s \<Longrightarrow> settle_step s (flush s)"
| SettleMicrotask: "0 < st_microtasks s \<Longrightarrow> settle_step s (microtask s)"

inductive_cases settle_stepE: "settle_step s s'"

definition pending_work :: "stream \<Rightarrow> nat" where
  "pending_work s = st_microtasks s + (if st_timer s then 1 else 0)"

lemma microtask_pending: "st_microtasks (microtask s) = st_microtasks s - 1" "st_timer (microtask s) \<Longrightarrow> st_timer s"
  by (auto simp: microtask_def Let_def split: if_splits)

lemma settle_step_less: "settle_step s s' \<Longrightarrow> pending_work s' < pending_work s"
  by (cases rule: settle_step.cases, assumption) (auto simp: pending_work_def microtask_pending dest: microtask_pending(2))

lemma settle_terminates: "wfp (\<lambda>s' s. settle_step s s')"
  by (rule wfp_if_convertible_to_nat [of _ pending_work]) (rule settle_step_less)

lemma settle_is_step: "settle_step s s' \<Longrightarrow> stream_step mode s s'"
  by (auto elim!: settle_stepE intro: stream_step.intros)

lemma settle_run:
  "settle_step\<^sup>*\<^sup>* s s' \<Longrightarrow> stream_run mode seed s \<Longrightarrow> stream_run mode seed s'"
  by (induction rule: rtranclp_induct) (auto intro: stream_run.Step settle_is_step)

text \<open>Nothing pending, and narrow only while a page tails it.\<close>

definition at_rest :: "data_mode \<Rightarrow> stream \<Rightarrow> bool" where
  "at_rest mode s \<longleftrightarrow> st_queue s = [] \<and> \<not> st_timer s \<and> st_microtasks s = 0 \<and> (st_tailer s = None \<longrightarrow> st_query s = [])
     \<and> (st_started s \<and> mode = Api \<longrightarrow> st_es s = Some (st_query s))"

lemma settled_at_rest:
  assumes "stream_run mode seed s" and "length seed \<le> ROWS_CAP" and "\<nexists>s'. settle_step s s'"
  shows "at_rest mode s"
proof -
  have "flow_inv mode s" using stream_run_inv [OF assms(1,2)] by simp
  moreover have "\<not> st_timer s" "st_microtasks s = 0" using assms(3) by (auto intro: settle_step.intros)
  ultimately show ?thesis by (auto simp: at_rest_def flow_inv_def)
qed

lemma settles:
  assumes "stream_run mode seed s" and "length seed \<le> ROWS_CAP"
  shows "\<exists>s'. settle_step\<^sup>*\<^sup>* s s' \<and> at_rest mode s'"
  using assms(1)
proof (induction "pending_work s" arbitrary: s rule: less_induct)
  case less
  show ?case
  proof (cases "\<exists>s'. settle_step s s'")
    case True
    then obtain s' where s': "settle_step s s'" by blast
    from less(1) [OF settle_step_less [OF s'] stream_run.Step [OF less(2) settle_is_step [OF s']]]
    show ?thesis using s' by (meson converse_rtranclp_into_rtranclp)
  next
    case False
    with settled_at_rest [OF less(2) assms(2)] show ?thesis by blast
  qed
qed

end
