(* ===== verification/TrafficFeed.thy ===== *)
theory TrafficFeed
  imports ReceiptStream
begin

text \<open>
  \<open>state/traffic-feed.ts\<close>: the Traffic list.  The first part is its pure functions (client filter,
  query string, merging a page, applying a live batch).  The second is \<open>useApiFeed\<close> as a step
  relation: the state of the hook, the requests in flight, and one rule per event (render with new
  filters, a reply, a live batch, a click).  Replies may arrive in any order.
\<close>

section \<open>Filters and the query\<close>

text \<open>\<open>Filters\<close> in the order the Traffic page builds the object, which \<open>Object.entries\<close> keeps.\<close>

datatype dim = DimKey | DimTeam | DimProject | DimModel | DimVerdict

definition dim_str :: "dim \<Rightarrow> string" where
  "dim_str d = (case d of DimKey \<Rightarrow> ''key'' | DimTeam \<Rightarrow> ''team'' | DimProject \<Rightarrow> ''project''
     | DimModel \<Rightarrow> ''model'' | DimVerdict \<Rightarrow> ''verdict'')"

type_synonym filters = "(dim \<times> string list) list"

record traffic_window =
  tw_since :: int
  tw_before :: "int option"

definition verdict_str :: "verdict \<Rightarrow> string" where
  "verdict_str v = (case v of Allowed \<Rightarrow> ''allowed'' | Blocked \<Rightarrow> ''blocked''
     | Truncated \<Rightarrow> ''truncated'' | Throttled \<Rightarrow> ''throttled'')"

definition fget :: "filters \<Rightarrow> dim \<Rightarrow> string list" where
  "fget f d = (case map_of f d of None \<Rightarrow> [] | Some vs \<Rightarrow> vs)"

definition PAGE :: nat where "PAGE = 200"
definition MAX_ROWS :: nat where "MAX_ROWS = 10000"

definition in_window :: "traffic_window \<Rightarrow> receipt \<Rightarrow> bool" where
  "in_window w r \<longleftrightarrow> tw_since w \<le> rc_ts r
     \<and> (case tw_before w of None \<Rightarrow> True | Some b \<Rightarrow> rc_ts r < b)"

definition matches :: "receipt \<Rightarrow> filters \<Rightarrow> traffic_window \<Rightarrow> bool" where
  "matches r f w =
     (if rc_ts r < tw_since w then False
      else if (case tw_before w of None \<Rightarrow> False | Some b \<Rightarrow> rc_ts r \<ge> b) then False
      else if fget f DimProject \<noteq> [] \<and> or_else (rc_projectId r) [] \<notin> set (fget f DimProject) then False
      else if fget f DimKey \<noteq> [] \<and> rc_keyName r \<notin> set (fget f DimKey) then False
      else if fget f DimTeam \<noteq> [] \<and> rc_team r \<notin> set (fget f DimTeam) then False
      else if fget f DimModel \<noteq> [] \<and> rc_resolvedModel r \<notin> set (fget f DimModel)
          \<and> rc_requestedModel r \<notin> set (fget f DimModel) then False
      else if fget f DimVerdict \<noteq> [] \<and> verdict_str (rc_verdict r) \<notin> set (fget f DimVerdict) then False
      else True)"

text \<open>A key filter names a key; the query carries its id when the catalog has one.\<close>

definition key_value :: "api_key list \<Rightarrow> dim \<Rightarrow> string \<Rightarrow> string" where
  "key_value ks d v =
     (if d = DimKey then (case find (\<lambda>k. ak_name k = v) ks of None \<Rightarrow> v | Some k \<Rightarrow> ak_id k) else v)"

definition window_params :: "traffic_window option \<Rightarrow> params" where
  "window_params w = (case w of None \<Rightarrow> []
     | Some w \<Rightarrow> (let q = p_set [] ''since'' (int_str (tw_since w)) in
         case tw_before w of None \<Rightarrow> q | Some b \<Rightarrow> p_set q ''before'' (int_str b)))"

definition queryString :: "api_key list \<Rightarrow> filters \<Rightarrow> traffic_window option \<Rightarrow> params" where
  "queryString ks f w =
     fold (\<lambda>(d, vals) q. fold (\<lambda>v q. p_append q (dim_str d) (key_value ks d v)) vals q) f (window_params w)"

definition feed_key :: "api_key list \<Rightarrow> filters \<Rightarrow> traffic_window \<Rightarrow> string" where
  "feed_key ks f w = p_string (queryString ks f (Some w))"

definition tail_query :: "api_key list \<Rightarrow> filters \<Rightarrow> string" where
  "tail_query ks f = p_string (queryString ks f None)"

section \<open>Merging\<close>

definition mergeNewer :: "receipt list \<Rightarrow> receipt list \<Rightarrow> receipt list" where
  "mergeNewer had page =
     (if had = [] then page
      else (let seen = rc_id ` set had
            in sort_cmp (cmp_desc rc_ts) (had @ filter (\<lambda>r. rc_id r \<notin> seen) page)))"

definition live_step :: "receipt \<Rightarrow> receipt omap \<times> receipt list \<Rightarrow> receipt omap \<times> receipt list" where
  "live_step r acc = (case acc of (updates, next) \<Rightarrow>
     (case om_get updates (rc_id r) of
        None \<Rightarrow> (updates, next @ [r])
      | Some u \<Rightarrow> (om_delete (rc_id r) updates, next @ [u])))"

definition applyLive :: "receipt list \<Rightarrow> receipt list \<Rightarrow> receipt list" where
  "applyLive rows batch =
     (if batch = [] then rows
      else (let (updates, next) = fold live_step rows (om_of (map (\<lambda>r. (rc_id r, r)) batch), []);
                fresh = sort_cmp (cmp_desc rc_ts) (om_values updates);
                next' = (if fresh \<noteq> [] then fresh @ next else next)
            in if length next' > MAX_ROWS then take MAX_ROWS next' else next'))"

section \<open>The mock feed\<close>

definition mock_feed_rows :: "filters option \<Rightarrow> traffic_window \<Rightarrow> receipt list \<Rightarrow> receipt list" where
  "mock_feed_rows f w all =
     (case f of None \<Rightarrow> [] | Some f \<Rightarrow> filter (\<lambda>r. matches r f w) all)"

section \<open>The API feed\<close>

record feed_state =
  fs_key :: "string option"
  fs_rows :: "receipt list"
  fs_loaded :: bool
  fs_reachedEnd :: bool
  fs_continueBefore :: "int option"

text \<open>
  The hook's state, its current arguments (as the last render saw them), the number of the effect
  that is live, and what is in flight: first pages by effect, older pages by the key they were
  asked for.  \<open>fd_tail\<close> is the effect whose tailer the stream holds, with its window and query.
\<close>

record first_request =
  fq_effect :: nat
  fq_key :: string
  fq_path :: string

record older_request =
  oq_key :: string
  oq_path :: string
  oq_window :: traffic_window

record feed =
  fd_state :: feed_state
  fd_loadingOlder :: bool
  fd_dropped :: int
  fd_nonce :: nat
  fd_sampledFor :: "string option"
  fd_filters :: filters
  fd_window :: traffic_window
  fd_effect :: nat
  fd_first :: "first_request list"
  fd_older :: "older_request list"
  fd_tail :: "(nat \<times> string \<times> traffic_window \<times> string) option"

definition empty_state :: "string option \<Rightarrow> feed_state" where
  "empty_state k = \<lparr>fs_key = k, fs_rows = [], fs_loaded = False, fs_reachedEnd = False,
                    fs_continueBefore = None\<rparr>"

definition receipts_path :: "string \<Rightarrow> string" where
  "receipts_path q = ''/receipts?limit='' @ nat_str PAGE @ ''&'' @ q"

text \<open>The effect of \<open>[key, nonce]\<close>, its cleanup included; \<open>now\<close> is \<open>Date.now()\<close>.\<close>

definition run_effect :: "api_key list \<Rightarrow> int \<Rightarrow> feed \<Rightarrow> feed" where
  "run_effect ks now s =
     (let k = feed_key ks (fd_filters s) (fd_window s);
          e = Suc (fd_effect s);
          past = (case tw_before (fd_window s) of None \<Rightarrow> False | Some b \<Rightarrow> b \<le> now)
      in s\<lparr>fd_effect := e,
           fd_dropped := 0,
           fd_state := empty_state (Some k),
           fd_first := fd_first s @ [\<lparr>fq_effect = e, fq_key = k, fq_path = receipts_path k\<rparr>],
           fd_tail := (if past then None
                       else Some (e, k, fd_window s, tail_query ks (fd_filters s)))\<rparr>)"

definition current :: "api_key list \<Rightarrow> feed \<Rightarrow> feed_state" where
  "current ks s =
     (if fs_key (fd_state s) = Some (feed_key ks (fd_filters s) (fd_window s)) then fd_state s
      else empty_state None)"

text \<open>Rendering with new arguments; the effect runs when the key differs from the last one.\<close>

definition render :: "api_key list \<Rightarrow> int \<Rightarrow> filters \<Rightarrow> traffic_window \<Rightarrow> feed \<Rightarrow> feed" where
  "render ks now f w s =
     (let s1 = s\<lparr>fd_filters := f, fd_window := w\<rparr> in
      if feed_key ks f w = feed_key ks (fd_filters s) (fd_window s) then s1 else run_effect ks now s1)"

definition reload :: "api_key list \<Rightarrow> int \<Rightarrow> feed \<Rightarrow> feed" where
  "reload ks now s = run_effect ks now (s\<lparr>fd_nonce := Suc (fd_nonce s)\<rparr>)"

definition update_if :: "string \<Rightarrow> (feed_state \<Rightarrow> feed_state) \<Rightarrow> feed_state \<Rightarrow> feed_state" where
  "update_if k g st = (if fs_key st = Some k then g st else st)"

definition first_reply :: "first_request \<Rightarrow> (string + receipt list \<times> int option) \<Rightarrow> feed \<Rightarrow> feed" where
  "first_reply q reply s =
     (let s1 = s\<lparr>fd_first := remove1 q (fd_first s)\<rparr> in
      if fq_effect q \<noteq> fd_effect s then s1
      else s1\<lparr>fd_state := update_if (fq_key q) (\<lambda>st.
        case reply of
          Inl e \<Rightarrow> st\<lparr>fs_loaded := True\<rparr>
        | Inr (rows, cb) \<Rightarrow>
            st\<lparr>fs_rows := mergeNewer (fs_rows st) rows, fs_loaded := True,
               fs_reachedEnd := (length rows < PAGE \<and> cb = None), fs_continueBefore := cb\<rparr>) (fd_state s1)\<rparr>)"

definition on_receipts :: "receipt list \<Rightarrow> feed \<Rightarrow> feed" where
  "on_receipts batch s =
     (case fd_tail s of
        None \<Rightarrow> s
      | Some (e, k, w, q) \<Rightarrow>
          (let inWindow = filter (in_window w) batch in
           if e \<noteq> fd_effect s \<or> inWindow = [] then s
           else s\<lparr>fd_state := update_if k (\<lambda>st.
             (let rows = applyLive (fs_rows st) inWindow
              in st\<lparr>fs_rows := rows, fs_reachedEnd := (fs_reachedEnd st \<and> length rows < MAX_ROWS)\<rparr>))
             (fd_state s)\<rparr>))"

definition on_drop :: "int \<Rightarrow> feed \<Rightarrow> feed" where
  "on_drop n s =
     (case fd_tail s of
        None \<Rightarrow> s
      | Some (e, k, w, q) \<Rightarrow> if e = fd_effect s then s\<lparr>fd_dropped := fd_dropped s + n\<rparr> else s)"

definition older_before :: "feed_state \<Rightarrow> int option" where
  "older_before st =
     (case fs_continueBefore st of
        Some b \<Rightarrow> Some b
      | None \<Rightarrow> map_option (\<lambda>r. rc_ts r + 1) (last_opt (fs_rows st)))"

definition loadOlder :: "api_key list \<Rightarrow> feed \<Rightarrow> feed" where
  "loadOlder ks s =
     (let cur = current ks s in
      if fd_loadingOlder s \<or> fs_reachedEnd cur \<or> \<not> fs_loaded cur then s
      else case older_before cur of
        None \<Rightarrow> s
      | Some b \<Rightarrow>
          (let w = \<lparr>tw_since = tw_since (fd_window s), tw_before = Some b\<rparr>
           in s\<lparr>fd_loadingOlder := True,
                fd_older := fd_older s @
                  [\<lparr>oq_key = feed_key ks (fd_filters s) (fd_window s),
                    oq_path = receipts_path (p_string (queryString ks (fd_filters s) (Some w))),
                    oq_window = w\<rparr>]\<rparr>))"

text \<open>The state update of an older page: the rows that are not known yet go below.\<close>

definition append_older :: "receipt list \<Rightarrow> int option \<Rightarrow> feed_state \<Rightarrow> feed_state" where
  "append_older rows cb st =
     (let seen = rc_id ` set (fs_rows st); older = filter (\<lambda>r. rc_id r \<notin> seen) rows;
          ended = (cb = None \<and> (length rows < PAGE \<or> older = []))
      in st\<lparr>fs_rows := fs_rows st @ older, fs_reachedEnd := ended, fs_continueBefore := cb\<rparr>)"

definition older_reply ::
  "api_key list \<Rightarrow> older_request \<Rightarrow> (string + receipt list \<times> int option) \<Rightarrow> feed \<Rightarrow> feed" where
  "older_reply ks q reply s =
     (let s1 = s\<lparr>fd_older := remove1 q (fd_older s)\<rparr>;
          s2 = (case reply of
            Inl e \<Rightarrow> s1
          | Inr (rows, cb) \<Rightarrow> s1\<lparr>fd_state := update_if (oq_key q) (append_older rows cb) (fd_state s1)\<rparr>)
      in if feed_key ks (fd_filters s2) (fd_window s2) = oq_key q then s2\<lparr>fd_loadingOlder := False\<rparr> else s2)"

text \<open>Sampling: noted for the list it happened on, cleared by a reload or a new query.\<close>

definition load_key :: "api_key list \<Rightarrow> feed \<Rightarrow> string" where
  "load_key ks s = feed_key ks (fd_filters s) (fd_window s) @ ''#'' @ nat_str (fd_nonce s)"

definition note_sampling :: "api_key list \<Rightarrow> sampling option \<Rightarrow> feed \<Rightarrow> feed" where
  "note_sampling ks n s =
     (case n of None \<Rightarrow> s | Some x \<Rightarrow> s\<lparr>fd_sampledFor := Some (load_key ks s)\<rparr>)"

definition was_sampled :: "api_key list \<Rightarrow> sampling option \<Rightarrow> feed \<Rightarrow> bool" where
  "was_sampled ks n s \<longleftrightarrow> n \<noteq> None \<or> fd_sampledFor s = Some (load_key ks s)"

definition count_path :: "api_key list \<Rightarrow> feed \<Rightarrow> string" where
  "count_path ks s = ''/receipts/count?'' @ feed_key ks (fd_filters s) (fd_window s)"

definition mount :: "api_key list \<Rightarrow> int \<Rightarrow> filters \<Rightarrow> traffic_window \<Rightarrow> feed" where
  "mount ks now f w = run_effect ks now
     \<lparr>fd_state = empty_state None, fd_loadingOlder = False, fd_dropped = 0, fd_nonce = 0,
      fd_sampledFor = None, fd_filters = f, fd_window = w, fd_effect = 0, fd_first = [],
      fd_older = [], fd_tail = None\<rparr>"

section \<open>Steps\<close>

text \<open>
  What the server promises, as a parameter: \<open>sat q r\<close> says that receipt \<open>r\<close> answers the filter
  query \<open>q\<close>.  A page is distinct, answers its query, lies in the window it was asked for, and its
  continuation does not pass the window; a live batch answers the tail query.
\<close>

definition page_ok :: "(string \<Rightarrow> receipt \<Rightarrow> bool) \<Rightarrow> string \<Rightarrow> traffic_window \<Rightarrow>
    (string + receipt list \<times> int option) \<Rightarrow> bool" where
  "page_ok sat q w reply =
     (case reply of Inl e \<Rightarrow> True
      | Inr (rows, cb) \<Rightarrow> distinct (map rc_id rows) \<and> list_all (\<lambda>r. sat q r \<and> in_window w r) rows
          \<and> (case (cb, tw_before w) of (Some c, Some b) \<Rightarrow> c \<le> b | _ \<Rightarrow> True))"

inductive feed_step :: "api_key list \<Rightarrow> (string \<Rightarrow> receipt \<Rightarrow> bool) \<Rightarrow> feed \<Rightarrow> feed \<Rightarrow> bool"
  for ks sat where
  Render: "feed_step ks sat s (render ks now f w s)"
| Reload: "feed_step ks sat s (reload ks now s)"
| FirstReply: "q \<in> set (fd_first s) \<Longrightarrow>
    fq_key q = feed_key ks f w \<Longrightarrow> page_ok sat (tail_query ks f) w reply \<Longrightarrow>
    feed_step ks sat s (first_reply q reply s)"
| LiveBatch: "fd_tail s = Some (e, k, w, q) \<Longrightarrow> list_all (sat q) batch \<Longrightarrow>
    feed_step ks sat s (on_receipts batch s)"
| Drop: "feed_step ks sat s (on_drop n s)"
| LoadOlder: "feed_step ks sat s (loadOlder ks s)"
| OlderReply: "q \<in> set (fd_older s) \<Longrightarrow>
    oq_key q = feed_key ks f w \<Longrightarrow> page_ok sat (tail_query ks f) (oq_window q) reply \<Longrightarrow>
    feed_step ks sat s (older_reply ks q reply s)"
| Sampled: "feed_step ks sat s (note_sampling ks n s)"

inductive feed_run :: "api_key list \<Rightarrow> (string \<Rightarrow> receipt \<Rightarrow> bool) \<Rightarrow> feed \<Rightarrow> bool" for ks sat where
  Mount: "feed_run ks sat (mount ks now f w)"
| Step: "feed_run ks sat s \<Longrightarrow> feed_step ks sat s s' \<Longrightarrow> feed_run ks sat s'"

section \<open>Merging, against the specification\<close>

lemma mergeNewer_distinct:
  "distinct (map rc_id had) \<Longrightarrow> distinct (map rc_id page) \<Longrightarrow> distinct (map rc_id (mergeNewer had page))"
  using distinct_map_new [of rc_id had page] by (simp add: mergeNewer_def Let_def del: map_append)

lemma mergeNewer_set:
  "set (mergeNewer had page) = set had \<union> {r \<in> set page. rc_id r \<notin> rc_id ` set had}"
  by (auto simp: mergeNewer_def Let_def)

lemma mergeNewer_sorted:
  "sorted_wrt (\<lambda>a b. rc_ts b \<le> rc_ts a) page \<Longrightarrow>
     sorted_wrt (\<lambda>a b. rc_ts b \<le> rc_ts a) (mergeNewer had page)"
  using desc.sorted_sort_cmp [of "rc_ts :: receipt \<Rightarrow> int"] by (simp add: mergeNewer_def Let_def)

definition updates_of :: "receipt list \<Rightarrow> receipt omap" where
  "updates_of batch = om_of (map (\<lambda>r. (rc_id r, r)) batch)"

lemma om_get_fold_set:
  "om_get (fold (\<lambda>(k, v) m. om_set k v m) (map (\<lambda>r. (rc_id r, r)) batch) m) k =
     (case index_by rc_id batch k of Some r \<Rightarrow> Some r | None \<Rightarrow> om_get m k)"
  by (induction batch arbitrary: m) (auto simp: index_by_Cons split: option.splits)

lemma updates_of_get: "om_get (updates_of batch) k = index_by rc_id batch k"
  by (simp add: updates_of_def om_of_def om_get_fold_set split: option.split)

lemma updates_of_wf: "om_wf (updates_of batch)"
  by (simp add: updates_of_def om_wf_of)

lemma fold_live_step:
  assumes "distinct (map rc_id rows)"
  shows "fold live_step rows (U, next) =
     (filter (\<lambda>p. fst p \<notin> rc_id ` set rows) U, next @ map (\<lambda>r. or_else (om_get U (rc_id r)) r) rows)"
  using assms
proof (induction rows arbitrary: U "next")
  case (Cons r rows)
  have other: "map (\<lambda>x. or_else (om_get (om_delete (rc_id r) U) (rc_id x)) x) rows
      = map (\<lambda>x. or_else (om_get U (rc_id x)) x) rows"
    using Cons.prems by (intro map_cong) (auto intro: rev_image_eqI)
  have del: "om_get U (rc_id r) = None \<Longrightarrow> om_delete (rc_id r) U = U"
    by (simp add: om_delete_absent om_get_None)
  have filt: "filter (\<lambda>p. fst p \<notin> rc_id ` set rows) (om_delete (rc_id r) U)
      = filter (\<lambda>p. fst p \<notin> rc_id ` set (r # rows)) U"
    by (auto simp: om_delete_def intro: filter_cong)
  show ?case
  proof (cases "om_get U (rc_id r)")
    case None
    with Cons.IH [of U] Cons.prems filt del show ?thesis by (simp add: live_step_def)
  next
    case (Some u)
    with Cons.IH [of "om_delete (rc_id r) U"] Cons.prems filt other show ?thesis
      by (simp add: live_step_def)
  qed
qed simp

text \<open>
  The specification of a live batch: known rows in their newest form, in place; each other id of the
  batch once, newest first, on top; at most \<open>MAX_ROWS\<close>.
\<close>

definition live_new :: "receipt list \<Rightarrow> receipt list \<Rightarrow> receipt list" where
  "live_new rows batch =
     sort_cmp (cmp_desc rc_ts) (om_values (filter (\<lambda>p. fst p \<notin> rc_id ` set rows) (updates_of batch)))"

lemma applyLive_eq:
  assumes "distinct (map rc_id rows)"
  shows "applyLive rows batch =
    (if batch = [] then rows else take MAX_ROWS (live_new rows batch @ map (newest batch) rows))"
proof (cases "batch = []")
  case False
  let ?old = "map (newest batch) rows"
  have U: "om_of (map (\<lambda>r. (rc_id r, r)) batch) = updates_of batch" by (simp add: updates_of_def)
  have "applyLive rows batch =
      (let n = (if live_new rows batch \<noteq> [] then live_new rows batch @ ?old else ?old)
       in if length n > MAX_ROWS then take MAX_ROWS n else n)"
    using False
    unfolding applyLive_def U fold_live_step [OF assms] updates_of_get Let_def prod.case live_new_def
    by (simp add: newest_def [abs_def])
  then have "applyLive rows batch =
      (let n = live_new rows batch @ ?old in if length n > MAX_ROWS then take MAX_ROWS n else n)"
    by (cases "live_new rows batch = []") (simp_all only: if_True if_False append_Nil not_True_eq_False
      not_False_eq_True simp_thms)
  with False show ?thesis by (simp only: Let_def if_False) (simp del: take_append)
qed (simp add: applyLive_def)

lemma index_by_updates: "(k, v) \<in> set (updates_of batch) \<longleftrightarrow> index_by rc_id batch k = Some v"
  using updates_of_wf [of batch] updates_of_get [of batch k]
  by (auto simp: om_wf_def om_get_def)

lemma set_live_new:
  "set (live_new rows batch) = {r. index_by rc_id batch (rc_id r) = Some r \<and> rc_id r \<notin> rc_id ` set rows}"
proof -
  have "r \<in> set (live_new rows batch) \<longleftrightarrow>
      (\<exists>k. (k, r) \<in> set (updates_of batch) \<and> k \<notin> rc_id ` set rows)" for r
    by (simp add: live_new_def om_values_def image_iff Bex_def)
  then show ?thesis by (auto simp: index_by_updates dest: index_by_Some)
qed

lemma live_new_subset: "set (live_new rows batch) \<subseteq> set batch"
  by (auto simp: set_live_new dest: index_by_Some)

lemma distinct_live_new: "distinct (map rc_id (live_new rows batch))"
proof -
  have "map rc_id (om_values (updates_of batch)) = map fst (updates_of batch)"
    by (auto simp: om_values_def index_by_updates dest!: index_by_Some)
  then have "distinct (map rc_id (om_values (updates_of batch)))"
    using updates_of_wf [of batch] by (simp add: om_wf_def)
  then have "distinct (map (rc_id \<circ> snd) (filter (\<lambda>p. fst p \<notin> rc_id ` set rows) (updates_of batch)))"
    by (intro distinct_map_filter) (simp add: om_values_def)
  then show ?thesis by (simp add: live_new_def om_values_def)
qed

lemma applyLive_distinct:
  "distinct (map rc_id rows) \<Longrightarrow> distinct (map rc_id (applyLive rows batch))"
proof -
  assume d: "distinct (map rc_id rows)"
  have "distinct (map rc_id (live_new rows batch @ map (newest batch) rows))"
    using d distinct_live_new [of rows batch] by (auto simp: set_live_new)
  from distinct_map_take [OF this] d show ?thesis
    unfolding applyLive_eq [OF d] by (cases "batch = []") (simp_all del: take_append)
qed

lemma newest_in: "newest batch x \<in> insert x (set batch)"
  by (cases "index_by rc_id batch (rc_id x)") (auto simp: newest_def dest: index_by_Some)

lemma applyLive_subset:
  "distinct (map rc_id rows) \<Longrightarrow> set (applyLive rows batch) \<subseteq> set rows \<union> set batch"
proof -
  assume d: "distinct (map rc_id rows)"
  have newest_sub: "newest batch x \<in> set rows \<union> set batch" if "x \<in> set rows" for x
    using newest_in [of batch x] that by auto
  have "set (live_new rows batch @ map (newest batch) rows) \<subseteq> set rows \<union> set batch"
    using live_new_subset [of rows batch] newest_sub by auto
  then show ?thesis
    using set_take_subset [of MAX_ROWS "live_new rows batch @ map (newest batch) rows"]
    unfolding applyLive_eq [OF d] by (cases "batch = []") (auto simp del: take_append)
qed

lemma applyLive_bound: "distinct (map rc_id rows) \<Longrightarrow> batch \<noteq> [] \<Longrightarrow> length (applyLive rows batch) \<le> MAX_ROWS"
  by (simp add: applyLive_eq)

section \<open>The query identifies filters and window\<close>

lemma fold_append:
  "fold (\<lambda>(d, vals) q. fold (\<lambda>v q. p_append q (dim_str d) (key_value ks d v)) vals q) f q0 =
     q0 @ concat (map (\<lambda>(d, vals). map (\<lambda>v. (dim_str d, key_value ks d v)) vals) f)"
proof (induction f arbitrary: q0)
  case (Cons p f)
  have "fold (\<lambda>v q. p_append q (dim_str d) (key_value ks d v)) vals q =
      q @ map (\<lambda>v. (dim_str d, key_value ks d v)) vals" for d vals q
    by (induction vals arbitrary: q) (simp_all add: p_append_def)
  with Cons show ?case by (cases p) simp
qed simp

definition filter_params :: "api_key list \<Rightarrow> filters \<Rightarrow> params" where
  "filter_params ks f = concat (map (\<lambda>(d, vals). map (\<lambda>v. (dim_str d, key_value ks d v)) vals) f)"

lemma queryString_eq: "queryString ks f w = window_params w @ filter_params ks f"
  by (simp only: queryString_def fold_append filter_params_def)

lemma dim_str_neq: "dim_str d \<noteq> ''since''" "dim_str d \<noteq> ''before''"
  by (cases d; simp add: dim_str_def)+

lemma filter_params_keys: "(k, v) \<in> set (filter_params ks f) \<Longrightarrow> k \<noteq> ''since'' \<and> k \<noteq> ''before''"
  by (auto simp: filter_params_def dim_str_neq)

text \<open>Two queries with the same text have the same window and the same filter parameters.\<close>

lemma feed_key_inj:
  assumes "feed_key ks f w = feed_key ks g u"
  shows "w = u \<and> tail_query ks f = tail_query ks g"
proof -
  have eq: "window_params (Some w) @ filter_params ks f = window_params (Some u) @ filter_params ks g"
    using assms p_string_inj by (simp add: feed_key_def queryString_eq)
  have no_before: "filter_params ks f \<noteq> (''before'', b) # r" for f b r
    using filter_params_keys [of "''before''" b ks f] by auto
  have no_since: "filter_params ks f \<noteq> (''since'', b) # r" for f b r
    using filter_params_keys [of "''since''" b ks f] by auto
  have "tw_since w = tw_since u \<and> tw_before w = tw_before u \<and> filter_params ks f = filter_params ks g"
    using eq no_before no_before [THEN not_sym]
    by (auto simp: window_params_def Let_def dest!: int_str_inj split: option.splits)
  then show ?thesis by (auto simp: tail_query_def queryString_eq window_params_def)
qed

section \<open>Invariants of the feed\<close>

definition rows_ok :: "(string \<Rightarrow> receipt \<Rightarrow> bool) \<Rightarrow> api_key list \<Rightarrow> filters \<Rightarrow> traffic_window \<Rightarrow> feed_state \<Rightarrow> bool" where
  "rows_ok sat ks f w st \<longleftrightarrow> distinct (map rc_id (fs_rows st)) \<and>
     (\<forall>r \<in> set (fs_rows st). sat (tail_query ks f) r \<and> in_window w r) \<and>
     (\<forall>b c. tw_before w = Some b \<and> fs_continueBefore st = Some c \<longrightarrow> c \<le> b)"

definition older_ok :: "api_key list \<Rightarrow> filters \<Rightarrow> traffic_window \<Rightarrow> older_request \<Rightarrow> bool" where
  "older_ok ks f w q \<longleftrightarrow>
     (\<exists>b. tw_before (oq_window q) = Some b \<and> (\<forall>c. tw_before w = Some c \<longrightarrow> b \<le> c)) \<and>
     tw_since (oq_window q) = tw_since w"

definition feed_inv :: "(string \<Rightarrow> receipt \<Rightarrow> bool) \<Rightarrow> api_key list \<Rightarrow> feed \<Rightarrow> bool" where
  "feed_inv sat ks s \<longleftrightarrow>
     fs_key (fd_state s) = Some (feed_key ks (fd_filters s) (fd_window s)) \<and>
     rows_ok sat ks (fd_filters s) (fd_window s) (fd_state s) \<and>
     (\<forall>q \<in> set (fd_first s). fq_effect q = fd_effect s \<longrightarrow>
        fq_key q = feed_key ks (fd_filters s) (fd_window s)) \<and>
     (\<forall>q \<in> set (fd_first s). fq_effect q \<le> fd_effect s) \<and>
     (\<forall>q \<in> set (fd_older s). \<exists>f w. oq_key q = feed_key ks f w \<and> older_ok ks f w q) \<and>
     (fd_tail s = None \<or> fd_tail s = Some (fd_effect s, feed_key ks (fd_filters s) (fd_window s),
        fd_window s, tail_query ks (fd_filters s)))"

lemma rows_ok_cong:
  "feed_key ks f w = feed_key ks g u \<Longrightarrow> rows_ok sat ks f w st = rows_ok sat ks g u st"
  using feed_key_inj [of ks f w g u] by (simp add: rows_ok_def)

lemma feed_inv_effect:
  assumes "\<forall>q \<in> set (fd_first s). fq_effect q \<le> fd_effect s"
    and "\<forall>q \<in> set (fd_older s). \<exists>f w. oq_key q = feed_key ks f w \<and> older_ok ks f w q"
  shows "feed_inv sat ks (run_effect ks now s)"
  using assms by (auto simp: feed_inv_def run_effect_def Let_def empty_state_def rows_ok_def)

lemma feed_inv_render: "feed_inv sat ks s \<Longrightarrow> feed_inv sat ks (render ks now f w s)"
proof -
  assume inv: "feed_inv sat ks s"
  show ?thesis
  proof (cases "feed_key ks f w = feed_key ks (fd_filters s) (fd_window s)")
    case True
    from feed_key_inj [OF True] have eqs: "w = fd_window s" "tail_query ks f = tail_query ks (fd_filters s)"
      by simp_all
    show ?thesis using inv rows_ok_cong [OF True] True eqs
      by (auto simp: render_def feed_inv_def)
  next
    case False
    have "feed_inv sat ks (run_effect ks now (s\<lparr>fd_filters := f, fd_window := w\<rparr>))"
      by (rule feed_inv_effect) (use inv in \<open>auto simp: feed_inv_def\<close>)
    with False show ?thesis by (simp add: render_def Let_def)
  qed
qed

lemma in_window_sub:
  "older_ok ks f w q \<Longrightarrow> in_window (oq_window q) r \<Longrightarrow> in_window w r"
  by (cases "tw_before w") (auto simp: older_ok_def in_window_def)

lemma page_ok_rows:
  "page_ok sat q w (Inr (rows, cb)) \<Longrightarrow>
     distinct (map rc_id rows) \<and> (\<forall>r \<in> set rows. sat q r \<and> in_window w r) \<and>
     (\<forall>b c. tw_before w = Some b \<and> cb = Some c \<longrightarrow> c \<le> b)"
  by (auto simp: page_ok_def list_all_iff)

text \<open>Changing the state of the list, and dropping a request that was answered.\<close>

lemma feed_inv_state:
  "feed_inv sat ks s \<Longrightarrow> fs_key st = fs_key (fd_state s) \<Longrightarrow>
     rows_ok sat ks (fd_filters s) (fd_window s) st \<Longrightarrow> feed_inv sat ks (s\<lparr>fd_state := st\<rparr>)"
  by (simp add: feed_inv_def)

lemma feed_inv_update:
  assumes "feed_inv sat ks s"
    and "fs_key (g (fd_state s)) = fs_key (fd_state s)"
    and "k = feed_key ks (fd_filters s) (fd_window s) \<Longrightarrow>
      rows_ok sat ks (fd_filters s) (fd_window s) (g (fd_state s))"
  shows "feed_inv sat ks (s\<lparr>fd_state := update_if k g (fd_state s)\<rparr>)"
proof (rule feed_inv_state)
  show "rows_ok sat ks (fd_filters s) (fd_window s) (update_if k g (fd_state s))"
    using assms by (simp add: update_if_def feed_inv_def)
qed (use assms in \<open>simp_all add: update_if_def\<close>)

lemma feed_inv_remove_first: "feed_inv sat ks s \<Longrightarrow> feed_inv sat ks (s\<lparr>fd_first := remove1 q (fd_first s)\<rparr>)"
  using set_remove1_subset [of q "fd_first s"] by (simp add: feed_inv_def subset_iff)

lemma feed_inv_remove_older: "feed_inv sat ks s \<Longrightarrow> feed_inv sat ks (s\<lparr>fd_older := remove1 q (fd_older s)\<rparr>)"
  using set_remove1_subset [of q "fd_older s"] by (simp add: feed_inv_def subset_iff)

lemma first_rows_ok:
  assumes ok: "page_ok sat (tail_query ks f) w reply" and rows: "rows_ok sat ks f w st"
  shows "rows_ok sat ks f w (case reply of Inl e \<Rightarrow> st\<lparr>fs_loaded := True\<rparr>
        | Inr (rows, cb) \<Rightarrow> st\<lparr>fs_rows := mergeNewer (fs_rows st) rows, fs_loaded := True,
            fs_reachedEnd := (length rows < PAGE \<and> cb = None), fs_continueBefore := cb\<rparr>)"
proof (cases reply)
  case (Inl e)
  with rows show ?thesis by (simp add: rows_ok_def)
next
  case (Inr p)
  obtain page cb where p: "p = (page, cb)" by (cases p)
  from page_ok_rows [OF ok [unfolded Inr p]] rows
  have "distinct (map rc_id (mergeNewer (fs_rows st) page))"
    "\<forall>r \<in> set (mergeNewer (fs_rows st) page). sat (tail_query ks f) r \<and> in_window w r"
    "\<forall>b c. tw_before w = Some b \<and> cb = Some c \<longrightarrow> c \<le> b"
    by (simp_all add: rows_ok_def mergeNewer_distinct mergeNewer_set) blast
  with Inr p show ?thesis by (simp add: rows_ok_def)
qed

lemma feed_inv_first:
  assumes inv: "feed_inv sat ks s" and k: "fq_key q = feed_key ks f w"
    and ok: "page_ok sat (tail_query ks f) w reply"
  shows "feed_inv sat ks (first_reply q reply s)"
proof -
  let ?s = "s\<lparr>fd_first := remove1 q (fd_first s)\<rparr>"
  let ?g = "\<lambda>st. case reply of Inl e \<Rightarrow> st\<lparr>fs_loaded := True\<rparr>
        | Inr (rows, cb) \<Rightarrow> st\<lparr>fs_rows := mergeNewer (fs_rows st) rows, fs_loaded := True,
            fs_reachedEnd := (length rows < PAGE \<and> cb = None), fs_continueBefore := cb\<rparr>"
  have st: "fd_state ?s = fd_state s" "fd_filters ?s = fd_filters s" "fd_window ?s = fd_window s"
    by simp_all
  have inv1: "feed_inv sat ks ?s" using inv by (rule feed_inv_remove_first)
  have "feed_inv sat ks (?s\<lparr>fd_state := update_if (fq_key q) ?g (fd_state ?s)\<rparr>)"
  proof (rule feed_inv_update [OF inv1])
    assume "fq_key q = feed_key ks (fd_filters ?s) (fd_window ?s)"
    with k have "feed_key ks f w = feed_key ks (fd_filters s) (fd_window s)" by simp
    from feed_key_inj [OF this] have "page_ok sat (tail_query ks (fd_filters s)) (fd_window s) reply" using ok by simp
    moreover have "rows_ok sat ks (fd_filters s) (fd_window s) (fd_state s)"
      using inv by (simp add: feed_inv_def)
    ultimately have "rows_ok sat ks (fd_filters s) (fd_window s) (?g (fd_state s))"
      by (rule first_rows_ok)
    then show "rows_ok sat ks (fd_filters ?s) (fd_window ?s) (?g (fd_state ?s))"
      unfolding st .
  qed (auto split: sum.split)
  with inv1 show ?thesis unfolding first_reply_def Let_def by (simp only: split: if_split) simp
qed

lemma feed_inv_live:
  assumes inv: "feed_inv sat ks s" and t: "fd_tail s = Some (e, k, w, q)" and b: "list_all (sat q) batch"
  shows "feed_inv sat ks (on_receipts batch s)"
proof -
  from inv t have k: "w = fd_window s" "q = tail_query ks (fd_filters s)" by (auto simp: feed_inv_def)
  let ?in = "filter (in_window w) batch"
  have sub: "set (applyLive (fs_rows (fd_state s)) ?in) \<subseteq> set (fs_rows (fd_state s)) \<union> set ?in"
    using inv by (intro applyLive_subset) (simp add: feed_inv_def rows_ok_def)
  have ok: "rows_ok sat ks (fd_filters s) (fd_window s)
      ((fd_state s)\<lparr>fs_rows := applyLive (fs_rows (fd_state s)) ?in, fs_reachedEnd := x\<rparr>)" for x
    using inv b k sub by (auto simp: rows_ok_def feed_inv_def applyLive_distinct list_all_iff)
  have "feed_inv sat ks (s\<lparr>fd_state := update_if k (\<lambda>st.
      (let rows = applyLive (fs_rows st) ?in
       in st\<lparr>fs_rows := rows, fs_reachedEnd := (fs_reachedEnd st \<and> length rows < MAX_ROWS)\<rparr>)) (fd_state s)\<rparr>)"
    by (rule feed_inv_update [OF inv]) (simp_all add: Let_def ok)
  with inv t show ?thesis by (simp add: on_receipts_def Let_def)
qed

lemma older_before_ok:
  assumes "rows_ok sat ks f w st" and "older_before st = Some b"
  shows "\<forall>c. tw_before w = Some c \<longrightarrow> b \<le> c"
proof (cases "fs_continueBefore st")
  case None
  with assms obtain r where r: "last_opt (fs_rows st) = Some r" "b = rc_ts r + 1"
    by (auto simp: older_before_def)
  then have "r \<in> set (fs_rows st)" by (auto simp: last_opt_def split: if_splits)
  with assms r show ?thesis by (auto simp: rows_ok_def in_window_def)
qed (use assms in \<open>auto simp: older_before_def rows_ok_def\<close>)

lemma feed_inv_loadOlder: "feed_inv sat ks s \<Longrightarrow> feed_inv sat ks (loadOlder ks s)"
proof -
  assume inv: "feed_inv sat ks s"
  then have cur: "current ks s = fd_state s" by (simp add: feed_inv_def current_def)
  show ?thesis
  proof (cases "loadOlder ks s = s")
    case False
    then obtain b where b: "older_before (fd_state s) = Some b"
      by (auto simp: loadOlder_def cur Let_def split: if_splits option.splits)
    have "older_ok ks (fd_filters s) (fd_window s) \<lparr>oq_key = k, oq_path = p,
        oq_window = \<lparr>tw_since = tw_since (fd_window s), tw_before = Some b\<rparr>\<rparr>" for k p
      using inv older_before_ok [OF _ b] by (auto simp: older_ok_def feed_inv_def)
    with inv b show ?thesis
      by (fastforce simp: loadOlder_def cur Let_def feed_inv_def)
  qed (use inv in simp)
qed

lemma rows_ok_append:
  assumes inv: "feed_inv sat ks s" and g: "older_ok ks g (fd_window s) q" "tail_query ks (fd_filters s) = tail_query ks g"
    and ok: "page_ok sat (tail_query ks g) (oq_window q) (Inr (rows, cb))"
  shows "rows_ok sat ks (fd_filters s) (fd_window s) (append_older rows cb (fd_state s))"
proof -
  note pg = page_ok_rows [OF ok]
  have cb: "c \<le> b" if "tw_before (fd_window s) = Some b" "cb = Some c" for b c
    using that g(1) pg by (auto simp: older_ok_def)
  have "distinct (map rc_id (fs_rows (fd_state s) @ filter (\<lambda>r. rc_id r \<notin> rc_id ` set (fs_rows (fd_state s))) rows))"
    using inv pg by (intro distinct_map_new) (auto simp: feed_inv_def rows_ok_def)
  with inv pg g(2) cb in_window_sub [OF g(1)] show ?thesis
    by (auto simp: append_older_def rows_ok_def feed_inv_def Let_def)
qed

lemma feed_inv_older:
  assumes inv: "feed_inv sat ks s" and q: "q \<in> set (fd_older s)" and k: "oq_key q = feed_key ks f w"
    and ok: "page_ok sat (tail_query ks f) (oq_window q) reply"
  shows "feed_inv sat ks (older_reply ks q reply s)"
proof -
  obtain g u where g: "oq_key q = feed_key ks g u" "older_ok ks g u q"
    using inv q by (auto simp: feed_inv_def)
  with k have u: "tail_query ks f = tail_query ks g" using feed_key_inj [of ks f w g u] by auto
  have flag: "feed_inv sat ks s' \<Longrightarrow> feed_inv sat ks (if c then s'\<lparr>fd_loadingOlder := False\<rparr> else s')"
    for s' c by (simp add: feed_inv_def)
  let ?s = "s\<lparr>fd_older := remove1 q (fd_older s)\<rparr>"
  have inv1: "feed_inv sat ks ?s" using inv by (rule feed_inv_remove_older)
  show ?thesis
  proof (cases reply)
    case (Inl e)
    with inv1 show ?thesis unfolding older_reply_def Let_def by (simp only: sum.case flag)
  next
    case (Inr p)
    obtain rows cb where p: "p = (rows, cb)" by (cases p)
    have "feed_inv sat ks (?s\<lparr>fd_state := update_if (oq_key q) (append_older rows cb) (fd_state ?s)\<rparr>)"
    proof (rule feed_inv_update [OF inv1])
      assume "oq_key q = feed_key ks (fd_filters ?s) (fd_window ?s)"
      with g have w: "fd_window s = u" "tail_query ks (fd_filters s) = tail_query ks g"
        using feed_key_inj [of ks "fd_filters s" "fd_window s" g u] by auto
      show "rows_ok sat ks (fd_filters ?s) (fd_window ?s) (append_older rows cb (fd_state ?s))"
        using rows_ok_append [OF inv1] g(2) w ok u Inr p by simp
    qed (simp add: append_older_def Let_def)
    then show ?thesis
      unfolding older_reply_def Let_def Inr p sum.case prod.case by (rule flag)
  qed
qed

lemma feed_inv_step: "feed_step ks sat s s' \<Longrightarrow> feed_inv sat ks s \<Longrightarrow> feed_inv sat ks s'"
proof (induction rule: feed_step.induct)
  case (Reload s now)
  then show ?case unfolding reload_def by (intro feed_inv_effect) (auto simp: feed_inv_def)
next
  case (Drop s n)
  then show ?case by (cases "fd_tail s") (auto simp: on_drop_def feed_inv_def)
next
  case (Sampled s n)
  then show ?case by (cases n) (auto simp: note_sampling_def feed_inv_def)
qed (blast intro: feed_inv_render feed_inv_first feed_inv_live feed_inv_loadOlder feed_inv_older)+

lemma feed_run_inv: "feed_run ks sat s \<Longrightarrow> feed_inv sat ks s"
proof (induction rule: feed_run.induct)
  case (Mount now f w)
  show ?case unfolding mount_def by (rule feed_inv_effect) simp_all
qed (blast intro: feed_inv_step)

section \<open>Paging that stays off\<close>

text \<open>
  \<open>setLoadingOlder(false)\<close> is skipped when the query has changed meanwhile, and \<open>loadOlder\<close> does
  nothing while the flag is up: with no older page in flight the flag then stays for good.
\<close>

lemma loading_older_stuck:
  "feed_step ks sat s s' \<Longrightarrow> fd_loadingOlder s \<Longrightarrow> fd_older s = [] \<Longrightarrow>
     fd_loadingOlder s' \<and> fd_older s' = []"
  by (induction rule: feed_step.induct)
    (auto simp: render_def reload_def run_effect_def first_reply_def on_receipts_def on_drop_def
      loadOlder_def note_sampling_def Let_def split: option.splits)

lemma stuck_forever:
  assumes "(feed_step ks sat)\<^sup>*\<^sup>* s s'" and "fd_loadingOlder s" and "fd_older s = []"
  shows "fd_loadingOlder s' \<and> fd_older s' = []"
  using assms(1) by (induction rule: rtranclp_induct) (use assms loading_older_stuck in blast)+

text \<open>At most one older page is in flight, and only while the flag is up.\<close>

definition one_older :: "feed \<Rightarrow> bool" where
  "one_older s \<longleftrightarrow> fd_older s = [] \<or> fd_loadingOlder s \<and> (\<exists>q. fd_older s = [q])"

lemma one_older_step: "feed_step ks sat s s' \<Longrightarrow> one_older s \<Longrightarrow> one_older s'"
  by (induction rule: feed_step.induct)
    (auto simp: one_older_def render_def reload_def run_effect_def first_reply_def on_receipts_def on_drop_def
      loadOlder_def older_reply_def note_sampling_def Let_def split: option.splits sum.splits)

lemma feed_run_older: "feed_run ks sat s \<Longrightarrow> one_older s"
proof (induction rule: feed_run.induct)
  case (Mount now f w)
  show ?case by (simp add: one_older_def mount_def run_effect_def Let_def)
qed (rule one_older_step)

text \<open>The answer to an older page lowers the flag if the query is the one it was asked for; otherwise nothing will.\<close>

lemma older_answered:
  assumes "feed_run ks sat s" and "q \<in> set (fd_older s)"
  shows "feed_key ks (fd_filters s) (fd_window s) = oq_key q \<Longrightarrow> \<not> fd_loadingOlder (older_reply ks q reply s)"
    and "feed_key ks (fd_filters s) (fd_window s) \<noteq> oq_key q \<Longrightarrow>
      fd_loadingOlder (older_reply ks q reply s) \<and> fd_older (older_reply ks q reply s) = []"
  using feed_run_older [OF assms(1)] assms(2)
  by (auto simp: one_older_def older_reply_def Let_def split: sum.splits)

lemma flag_up_idle: "fd_loadingOlder s \<Longrightarrow> loadOlder ks s = s"
  by (simp add: loadOlder_def Let_def)

end
