(* ===== verification/Parts.thy ===== *)
theory Parts
  imports TrafficFeed
begin

text \<open>
  Shared presentation of the usage console: page scaffolding (\<open>components/gw/page.tsx\<close>) and verdicts
  (\<open>components/gw/verdict.tsx\<close>).
\<close>

section \<open>Scaffolding\<close>

definition PageHeader :: "string \<Rightarrow> 'e ui list \<Rightarrow> 'e ui list \<Rightarrow> 'e ui list \<Rightarrow> 'e ui" where
  "PageHeader title description actions children =
     elem ''div''
       (elem ''div'' ([elem ''div'' (tag ''h1'' title # only_if (description \<noteq> []) (elem ''p'' description))]
          @ only_if (actions \<noteq> []) (elem ''div'' actions))
        # children)"

definition Section ::
  "string option \<Rightarrow> 'e ui list \<Rightarrow> 'e ui list \<Rightarrow> string option \<Rightarrow> 'e ui list \<Rightarrow> 'e ui" where
  "Section title description actions i children =
     (let hid = map_option (\<lambda>x. x @ ''-h'') i in
      El ''section'' (opt_attr ''id'' i @ opt_attr ''aria-labelledby'' hid) []
        (only_if (title \<noteq> None \<or> actions \<noteq> [])
           (elem ''div''
             ([elem ''div'' ((case title of None \<Rightarrow> [] | Some t \<Rightarrow> [El ''h2'' (opt_attr ''id'' hid) [] [Txt t]])
                @ only_if (description \<noteq> []) (elem ''p'' description))]
              @ only_if (actions \<noteq> []) (elem ''div'' actions)))
         @ children))"

definition EmptyState :: "string \<Rightarrow> 'e ui list \<Rightarrow> 'e ui" where
  "EmptyState title action = elem ''div'' (tag ''p'' title # action)"

definition Kbd :: "string \<Rightarrow> 'e ui" where
  "Kbd t = tag ''kbd'' t"

section \<open>Verdicts\<close>

datatype tone = ToneAllowed | ToneBlocked | ToneDegraded | ToneNeutral

record verdict_info =
  vi_label :: string
  vi_tone :: tone
  vi_icon :: string

definition verdictMeta :: "verdict \<Rightarrow> verdict_info" where
  "verdictMeta v =
     (case v of
        Allowed \<Rightarrow> \<lparr>vi_label = ''Allowed'', vi_tone = ToneAllowed, vi_icon = ''Check''\<rparr>
      | Blocked \<Rightarrow> \<lparr>vi_label = ''Blocked'', vi_tone = ToneBlocked, vi_icon = ''Ban''\<rparr>
      | Truncated \<Rightarrow> \<lparr>vi_label = ''Truncated'', vi_tone = ToneDegraded, vi_icon = ''Scissors''\<rparr>
      | Throttled \<Rightarrow> \<lparr>vi_label = ''Throttled'', vi_tone = ToneDegraded, vi_icon = ''Hourglass''\<rparr>)"

definition toneFill :: "tone \<Rightarrow> string" where
  "toneFill t = (case t of ToneAllowed \<Rightarrow> ''var(--v-allowed-bar)'' | ToneBlocked \<Rightarrow> ''var(--v-blocked-bar)''
     | ToneDegraded \<Rightarrow> ''var(--v-degraded-bar)'' | ToneNeutral \<Rightarrow> ''var(--border-strong)'')"

definition toneText :: "tone \<Rightarrow> string" where
  "toneText t = (case t of ToneAllowed \<Rightarrow> ''text-v-allowed-fg'' | ToneBlocked \<Rightarrow> ''text-v-blocked-fg''
     | ToneDegraded \<Rightarrow> ''text-v-degraded-fg'' | ToneNeutral \<Rightarrow> ''text-muted-foreground'')"

definition toneBar :: "tone \<Rightarrow> string" where
  "toneBar t = (case t of ToneAllowed \<Rightarrow> ''bg-v-allowed-bar'' | ToneBlocked \<Rightarrow> ''bg-v-blocked-bar''
     | ToneDegraded \<Rightarrow> ''bg-v-degraded-bar'' | ToneNeutral \<Rightarrow> ''bg-border-strong'')"

definition toneChip :: "tone \<Rightarrow> string" where
  "toneChip t = (case t of
     ToneAllowed \<Rightarrow> ''bg-v-allowed-bg text-v-allowed-fg border-v-allowed-border''
   | ToneBlocked \<Rightarrow> ''bg-v-blocked-bg text-v-blocked-fg border-v-blocked-border''
   | ToneDegraded \<Rightarrow> ''bg-v-degraded-bg text-v-degraded-fg border-v-degraded-border''
   | ToneNeutral \<Rightarrow> ''bg-muted text-muted-foreground-strong border-border'')"

definition failedAfterAllowed :: "receipt \<Rightarrow> bool" where
  "failedAfterAllowed r \<longleftrightarrow>
     \<not> rc_inFlight r \<and> rc_verdict r \<noteq> Blocked \<and> rc_verdict r \<noteq> Throttled \<and> rc_status r \<ge> 400"

definition VerdictBadge :: "verdict \<Rightarrow> bool \<Rightarrow> 'e ui" where
  "VerdictBadge v small =
     (let m = verdictMeta v in
      El ''span'' ([(''chip'', toneChip (vi_tone m))] @ (if small then [(''title'', vi_label m)] else [])) []
        [El (vi_icon m) [(''aria-hidden'', ''true'')] [] [],
         if small then El ''span'' [(''class'', ''sr-only'')] [] [Txt (vi_label m)] else Txt (vi_label m)])"

lemma VerdictBadge_text: "ui_text (VerdictBadge v small) = vi_label (verdictMeta v)"
  by (simp add: VerdictBadge_def Let_def)

lemma verdictMeta_inj:
  "vi_label (verdictMeta v) = vi_label (verdictMeta w) \<Longrightarrow> v = w"
  "vi_icon (verdictMeta v) = vi_icon (verdictMeta w) \<Longrightarrow> v = w"
  by (cases v; cases w; simp add: verdictMeta_def)+

text \<open>The badge tells any two verdicts apart, in both forms, by its glyph and by its text.\<close>

lemma VerdictBadge_inj: "(VerdictBadge v c :: 'e ui) = VerdictBadge w c \<Longrightarrow> v = w"
proof -
  assume "(VerdictBadge v c :: 'e ui) = VerdictBadge w c"
  then have "ui_text (VerdictBadge v c :: 'e ui) = ui_text (VerdictBadge w c :: 'e ui)" by (rule arg_cong)
  then show "v = w" unfolding VerdictBadge_text by (rule verdictMeta_inj)
qed

lemma failedAfterAllowed_verdict: "failedAfterAllowed r \<Longrightarrow> rc_verdict r \<in> {Allowed, Truncated}"
  by (cases "rc_verdict r") (auto simp: failedAfterAllowed_def)

end
