(* ===== verification/AppState.thy ===== *)
theory AppState
  imports TrafficFeed
begin

text \<open>
  \<open>state/live.ts\<close> (a polled read) and the rest of \<open>state/app-state.tsx\<close>: persisted choices, time
  ranges, the deep-linked range and receipt, the palette shortcut.
\<close>

section \<open>useLive\<close>

record 'a live_state =
  lv_path :: "string option"
  lv_data :: 'a
  lv_loaded :: bool

text \<open>
  The hook: its state, the path of the last render, the number of the live effect, the polls in
  flight (effect and path), and whether the effect has an interval running.
\<close>

record 'a live =
  lh_state :: "'a live_state"
  lh_path :: "string option"
  lh_nonce :: nat
  lh_effect :: nat
  lh_polls :: "(nat \<times> string) list"
  lh_interval :: bool

definition live_load :: "'a live \<Rightarrow> 'a live" where
  "live_load s = (case lh_path s of None \<Rightarrow> s
     | Some p \<Rightarrow> s\<lparr>lh_polls := lh_polls s @ [(lh_effect s, p)]\<rparr>)"

definition live_path_set :: "string option \<Rightarrow> bool" where
  "live_path_set p \<longleftrightarrow> (case p of None \<Rightarrow> False | Some q \<Rightarrow> q \<noteq> [])"

text \<open>The effect of \<open>[path, pollMs, nonce]\<close>, the old one's cleanup included.\<close>

definition live_effect :: "data_mode \<Rightarrow> 'a live \<Rightarrow> 'a live" where
  "live_effect mode s =
     (let s1 = s\<lparr>lh_effect := Suc (lh_effect s), lh_interval := False\<rparr> in
      if mode \<noteq> Api \<or> \<not> live_path_set (lh_path s) then s1
      else live_load (s1\<lparr>lh_interval := True\<rparr>))"

definition live_mount :: "data_mode \<Rightarrow> 'a \<Rightarrow> string option \<Rightarrow> 'a live" where
  "live_mount mode initial path = live_effect mode
     \<lparr>lh_state = \<lparr>lv_path = path, lv_data = initial, lv_loaded = (mode \<noteq> Api)\<rparr>,
      lh_path = path, lh_nonce = 0, lh_effect = 0, lh_polls = [], lh_interval = False\<rparr>"

definition live_render :: "data_mode \<Rightarrow> string option \<Rightarrow> 'a live \<Rightarrow> 'a live" where
  "live_render mode path s =
     (if path = lh_path s then s else live_effect mode (s\<lparr>lh_path := path\<rparr>))"

definition live_reload :: "data_mode \<Rightarrow> 'a live \<Rightarrow> 'a live" where
  "live_reload mode s = live_effect mode (s\<lparr>lh_nonce := Suc (lh_nonce s)\<rparr>)"

definition live_tick :: "'a live \<Rightarrow> 'a live" where
  "live_tick s = (if lh_interval s then live_load s else s)"

definition live_reply :: "nat \<times> string \<Rightarrow> string + 'a \<Rightarrow> 'a live \<Rightarrow> 'a live" where
  "live_reply q reply s =
     (let s1 = s\<lparr>lh_polls := remove1 q (lh_polls s)\<rparr> in
      case reply of
        Inl e \<Rightarrow> s1
      | Inr d \<Rightarrow> (if fst q = lh_effect s
          then s1\<lparr>lh_state := \<lparr>lv_path = Some (snd q), lv_data = d, lv_loaded = True\<rparr>\<rparr> else s1))"

definition live_view :: "data_mode \<Rightarrow> 'a \<Rightarrow> 'a live \<Rightarrow> 'a \<times> bool" where
  "live_view mode initial s =
     (if lv_path (lh_state s) \<noteq> lh_path s \<and> mode = Api then (initial, False)
      else (lv_data (lh_state s), lv_loaded (lh_state s)))"

inductive live_step :: "data_mode \<Rightarrow> (string \<Rightarrow> 'a \<Rightarrow> bool) \<Rightarrow> 'a live \<Rightarrow> 'a live \<Rightarrow> bool"
  for mode answers where
  Render: "live_step mode answers s (live_render mode p s)"
| Reload: "live_step mode answers s (live_reload mode s)"
| Tick: "live_step mode answers s (live_tick s)"
| Reply: "q \<in> set (lh_polls s) \<Longrightarrow> (case reply of Inl e \<Rightarrow> True | Inr d \<Rightarrow> answers (snd q) d) \<Longrightarrow>
    live_step mode answers s (live_reply q reply s)"

inductive live_run :: "data_mode \<Rightarrow> (string \<Rightarrow> 'a \<Rightarrow> bool) \<Rightarrow> 'a \<Rightarrow> 'a live \<Rightarrow> bool"
  for mode answers initial where
  Mount: "live_run mode answers initial (live_mount mode initial p)"
| Step: "live_run mode answers initial s \<Longrightarrow> live_step mode answers s s' \<Longrightarrow> live_run mode answers initial s'"

definition live_inv :: "data_mode \<Rightarrow> (string \<Rightarrow> 'a \<Rightarrow> bool) \<Rightarrow> 'a \<Rightarrow> 'a live \<Rightarrow> bool" where
  "live_inv mode answers initial s \<longleftrightarrow>
     (mode = Api \<longrightarrow>
        (if lv_loaded (lh_state s)
         then (\<exists>p. lv_path (lh_state s) = Some p \<and> answers p (lv_data (lh_state s)))
         else lv_data (lh_state s) = initial)) \<and>
     (mode = Mock \<longrightarrow> lv_data (lh_state s) = initial \<and> lv_loaded (lh_state s) \<and> lh_polls s = [] \<and>
        \<not> lh_interval s) \<and>
     (lh_interval s \<longrightarrow> live_path_set (lh_path s)) \<and>
     (\<forall>q \<in> set (lh_polls s). fst q \<le> lh_effect s \<and>
        (fst q = lh_effect s \<longrightarrow> lh_path s = Some (snd q)))"

lemma live_inv_effect:
  assumes "live_inv mode answers initial s"
  shows "live_inv mode answers initial (live_effect mode (s\<lparr>lh_path := p, lh_nonce := n\<rparr>))"
  using assms
  by (cases p; cases mode)
    (auto simp: live_inv_def live_effect_def live_load_def live_path_set_def Let_def)

lemma live_inv_poll:
  "live_inv mode answers initial s \<Longrightarrow> r \<in> set (lh_polls s) \<Longrightarrow> fst r = lh_effect s \<Longrightarrow>
     lh_path s = Some (snd r)"
  by (simp add: live_inv_def)

lemma live_inv_step:
  assumes "live_step mode answers s s'" and "live_inv mode answers initial s"
  shows "live_inv mode answers initial s'"
  using assms
proof (induction rule: live_step.induct)
  case (Render s p)
  have "s\<lparr>lh_path := p, lh_nonce := lh_nonce s\<rparr> = s\<lparr>lh_path := p\<rparr>" by simp
  with live_inv_effect [OF Render, where p = p and n = "lh_nonce s"] Render show ?case by (simp add: live_render_def)
next
  case (Reload s)
  have "s\<lparr>lh_path := lh_path s, lh_nonce := Suc (lh_nonce s)\<rparr> = s\<lparr>lh_nonce := Suc (lh_nonce s)\<rparr>" by simp
  with live_inv_effect [OF Reload, where p = "lh_path s" and n = "Suc (lh_nonce s)"] show ?case
    by (simp add: live_reload_def)
next
  case (Tick s)
  then show ?case
    by (cases "lh_path s"; cases mode) (auto simp: live_tick_def live_load_def live_inv_def)
next
  case (Reply q s reply)
  have sub: "set (remove1 q (lh_polls s)) \<subseteq> set (lh_polls s)" by (rule set_remove1_subset)
  have same: "snd q = b" if "fst q = lh_effect s" "(lh_effect s, b) \<in> set (remove1 q (lh_polls s))" for b
  proof -
    from that sub have "(lh_effect s, b) \<in> set (lh_polls s)" by blast
    from live_inv_poll [OF Reply.prems this] live_inv_poll [OF Reply.prems Reply.hyps(1)] that
    have "lh_path s = Some b" "lh_path s = Some (snd q)" by simp_all
    then show ?thesis by simp
  qed
  from Reply show ?case
    using sub same by (cases reply; cases mode) (auto simp: live_reply_def live_inv_def Let_def)
qed

lemma live_run_inv: "live_run mode answers initial s \<Longrightarrow> live_inv mode answers initial s"
proof (induction rule: live_run.induct)
  case (Mount p)
  show ?case
    by (cases p; cases mode)
      (auto simp: live_mount_def live_effect_def live_load_def live_path_set_def live_inv_def Let_def)
qed (rule live_inv_step)

section \<open>Time ranges\<close>

definition timeRanges :: "(string \<times> string) list" where
  "timeRanges =
     [(''15m'', ''Last 15 minutes''), (''1h'', ''Last 1 hour''), (''6h'', ''Last 6 hours''),
      (''24h'', ''Last 24 hours''), (''7d'', ''Last 7 days''), (''30d'', ''Last 30 days'')]"

definition rangeMinutes :: "(string \<times> int) list" where
  "rangeMinutes = [(''15m'', 15), (''1h'', 60), (''6h'', 360), (''24h'', 1440), (''7d'', 10080), (''30d'', 43200)]"

text \<open>None is \<open>undefined * 60000\<close>, that is NaN: a range outside the table.\<close>

definition rangeMs :: "string \<Rightarrow> int option" where
  "rangeMs r = map_option (\<lambda>m. m * 60000) (map_of rangeMinutes r)"

definition last_lower :: "string \<Rightarrow> string" where
  "last_lower l = (if starts_with ''Last '' l then ''last '' @ drop 5 l else l)"

definition rangeLabel :: "string \<Rightarrow> string" where
  "rangeLabel r = (case map_of timeRanges r of None \<Rightarrow> r | Some l \<Rightarrow> last_lower l)"

definition is_range :: "string \<Rightarrow> bool" where
  "is_range r \<longleftrightarrow> list_ex (\<lambda>p. fst p = r) timeRanges"

section \<open>Persisted choices\<close>

definition persisted_init :: "string \<Rightarrow> string \<Rightarrow> storage \<Rightarrow> string" where
  "persisted_init key initial st =
     (case get_item st key of Inr (Some v) \<Rightarrow> v | _ \<Rightarrow> initial)"

text \<open>The setter: the value is taken in any case, storing it may fail silently.\<close>

definition persisted_set :: "string \<Rightarrow> string \<Rightarrow> storage \<Rightarrow> storage" where
  "persisted_set key v st = (case set_item st key v of Inr st' \<Rightarrow> st' | Inl e \<Rightarrow> st)"

section \<open>The provider\<close>

record app =
  ap_range :: string
  ap_envChoice :: string
  ap_density :: string
  ap_params :: params
  ap_paletteOpen :: bool
  ap_storage :: storage

definition app_init :: "storage \<Rightarrow> params \<Rightarrow> app" where
  "app_init st ps =
     \<lparr>ap_range = persisted_init ''gw:range'' ''24h'' st,
      ap_envChoice = persisted_init ''gw:env'' ''production'' st,
      ap_density = persisted_init ''gw:density'' ''dense'' st,
      ap_params = ps, ap_paletteOpen = False, ap_storage = st\<rparr>"

definition app_env :: "data_mode \<Rightarrow> session \<Rightarrow> app \<Rightarrow> string" where
  "app_env mode ses a =
     (if mode = Api then (if ss_environment ses = ''production'' then ''production'' else ''staging'')
      else ap_envChoice a)"

definition setRange :: "string \<Rightarrow> app \<Rightarrow> app" where
  "setRange r a = a\<lparr>ap_range := r, ap_storage := persisted_set ''gw:range'' r (ap_storage a)\<rparr>"

definition setEnv :: "string \<Rightarrow> app \<Rightarrow> app" where
  "setEnv e a = a\<lparr>ap_envChoice := e, ap_storage := persisted_set ''gw:env'' e (ap_storage a)\<rparr>"

definition setDensity :: "string \<Rightarrow> app \<Rightarrow> app" where
  "setDensity d a = a\<lparr>ap_density := d, ap_storage := persisted_set ''gw:density'' d (ap_storage a)\<rparr>"

text \<open>The effect that takes \<open>?range=\<close> from a shared link.\<close>

definition take_url_range :: "app \<Rightarrow> app" where
  "take_url_range a =
     (case p_get (ap_params a) ''range'' of
        None \<Rightarrow> a
      | Some r \<Rightarrow>
          (if r = [] then a
           else (let a1 = (if is_range r then setRange r a else a)
                 in a1\<lparr>ap_params := p_delete (ap_params a1) ''range''\<rparr>)))"

definition receiptId :: "app \<Rightarrow> string option" where
  "receiptId a = p_get (ap_params a) ''receipt''"

definition openReceipt :: "string \<Rightarrow> app \<Rightarrow> app" where
  "openReceipt i a = a\<lparr>ap_params := p_set (ap_params a) ''receipt'' i\<rparr>"

definition closeReceipt :: "app \<Rightarrow> app" where
  "closeReceipt a = a\<lparr>ap_params := p_delete (ap_params a) ''receipt''\<rparr>"

definition on_key :: "bool \<Rightarrow> bool \<Rightarrow> string \<Rightarrow> app \<Rightarrow> app" where
  "on_key meta ctrl key a =
     (if (meta \<or> ctrl) \<and> to_lower key = ''k'' then a\<lparr>ap_paletteOpen := True\<rparr> else a)"

section \<open>Lemmas\<close>

lemma persisted_init_read: "persisted_init key initial st = ls.read_or (\<lambda>v. True) initial st key"
  by (simp add: persisted_init_def ls.read_or_def split: sum.split option.split)

lemma persisted_set_read:
  "st_read_ok st \<Longrightarrow> st_write_ok st \<Longrightarrow> persisted_init key initial (persisted_set key v st) = v"
  by (simp add: persisted_set_def persisted_init_def set_item_def get_item_def)

lemma is_range_ms: "is_range r \<longleftrightarrow> rangeMs r \<noteq> None"
  by (auto simp: is_range_def timeRanges_def rangeMs_def rangeMinutes_def)

lemma p_get_set: "p_get (p_set ps k v) k = Some v"
  by (simp add: p_get_first p_get_all_set head_opt_def)

lemma p_get_set_other: "k' \<noteq> k \<Longrightarrow> p_get (p_set ps k v) k' = p_get ps k'"
  by (simp add: p_get_first p_get_all_set_other)

lemma p_get_delete: "p_get (p_delete ps k) k = None"
  by (simp add: p_get_first sp.get_all_del head_opt_def)

lemma p_get_delete_other: "k' \<noteq> k \<Longrightarrow> p_get (p_delete ps k) k' = p_get ps k'"
  by (simp add: p_get_first sp.get_all_del_other)

lemma open_close_receipt:
  "receiptId (openReceipt i a) = Some i"
  "receiptId (closeReceipt a) = None"
  "k \<noteq> ''receipt'' \<Longrightarrow> p_get_all (ap_params (closeReceipt (openReceipt i a))) k = p_get_all (ap_params a) k"
  by (simp_all add: receiptId_def openReceipt_def closeReceipt_def p_get_set p_get_delete
      sp.get_all_del_other p_get_all_set_other)

text \<open>A valid stored range stays valid whatever link is opened and whatever is picked in the menu.\<close>

lemma take_url_range_valid: "is_range (ap_range a) \<Longrightarrow> is_range (ap_range (take_url_range a))"
  by (auto simp: take_url_range_def setRange_def Let_def split: option.split)

lemma take_url_range_gone:
  "p_get (ap_params (take_url_range a)) ''range'' \<in> {None, Some []}"
  by (auto simp: take_url_range_def setRange_def Let_def p_get_delete split: option.split)

lemma take_url_range_idem: "take_url_range (take_url_range a) = take_url_range a"
  using take_url_range_gone [of a] by (auto simp: take_url_range_def split: option.splits)

end
