(* ===== verification/ReceiptDrawer.thy ===== *)
theory ReceiptDrawer
  imports Parts AppState
begin

text \<open>
  \<open>components/gw/receipt-drawer.tsx\<close>: the drawer that shows one receipt over any page, with its usage
  lines, what stopped it, and the receipts related to it.
\<close>

datatype drawer_action =
    CloseReceipt
  | OpenReceipt string
  | CopyText string string
  | PrintPage
  | ExportJson string string

section \<open>What stopped the request\<close>

record failure_view =
  fl_title :: string
  fl_refused :: bool

definition failure :: "receipt \<Rightarrow> failure_view" where
  "failure r =
     \<lparr>fl_title = (if rc_verdict r = Blocked then ''This request was blocked.'' else ''This request failed.''),
      fl_refused = (rc_verdict r = Blocked)\<rparr>"

text \<open>The file that is downloaded: its name and its text, given what \<open>JSON.stringify\<close> makes of the receipt.\<close>

definition exportJson :: "(receipt \<Rightarrow> string) \<Rightarrow> receipt \<Rightarrow> drawer_action" where
  "exportJson to_json r = ExportJson (''receipt-'' @ rc_id r @ ''.json'') (to_json r @ [char_lf])"

section \<open>Usage lines\<close>

definition cache_writes :: "receipt \<Rightarrow> int" where
  "cache_writes r = or_else (rc_cacheWriteTokens r) 0"

definition input_billed :: "receipt \<Rightarrow> int" where
  "input_billed r = max (rc_inputTokens r - rc_cachedInputTokens r - cache_writes r) 0"

definition usage_lines :: "receipt \<Rightarrow> (string \<times> int) list" where
  "usage_lines r =
     [(''Input'', input_billed r), (''Cached input'', rc_cachedInputTokens r)]
     @ (if cache_writes r > 0 then [(''Cache write'', cache_writes r)] else [])
     @ [(''Output'', max (rc_outputTokens r - rc_reasoningTokens r) 0), (''Reasoning'', rc_reasoningTokens r)]"

text \<open>The number beside "Total".\<close>

definition usage_total :: "receipt \<Rightarrow> int" where
  "usage_total r = rc_inputTokens r + rc_outputTokens r"

definition usage_row :: "bool \<Rightarrow> string \<times> int \<Rightarrow> 'e ui" where
  "usage_row inFlight l =
     El ''tr'' [(''key'', fst l)] []
       [tag ''td'' (fst l),
        elem ''td'' [TokenCount (snd l) (inFlight \<and> fst l \<noteq> ''Input'' \<and> fst l \<noteq> ''Cached input'') True],
        elem ''td'' []]"

definition refused_before_upstream :: "receipt \<Rightarrow> bool" where
  "refused_before_upstream r \<longleftrightarrow> rc_verdict r = Blocked \<or> rc_verdict r = Throttled"

definition receipt_unpriced :: "receipt \<Rightarrow> bool" where
  "receipt_unpriced r \<longleftrightarrow> rc_costUsd r = None \<and> \<not> rc_inFlight r"

definition pricing_note :: "receipt \<Rightarrow> string" where
  "pricing_note r =
     (if receipt_unpriced r
      then rc_resolvedModel r @ '' on '' @ rc_backend r @ '' has no price, so this request has no cost and isn''
        @ [char_apos] @ ''t in spend. It'' @ [char_apos] @ ''s costed once OpenMeter has a price for it.''
      else if refused_before_upstream r
      then (if rc_verdict r = Throttled then ''Throttled'' else ''Blocked'')
        @ '' before the upstream call: nothing was billed.''
      else if rc_inFlight r then ''Priced when the stream ends and usage arrives.''
      else ''Priced at OpenMeter'' @ [char_apos] @ ''s prices in effect now, not the price when the request ran: ''
        @ ''OpenMeter keeps no price history.'')"

section \<open>Related receipts\<close>

record related =
  re_sameKey :: "receipt list"
  re_sameSession :: "receipt list"

definition DRAWER_HOUR :: int where "DRAWER_HOUR = 3600000"

definition related_key_query :: "receipt \<Rightarrow> string" where
  "related_key_query r =
     ''/receipts?limit=5&key='' @ encode_uri_component (rc_keyId r) @ ''&since='' @ int_str (rc_ts r - DRAWER_HOUR)
       @ ''&before='' @ int_str (rc_ts r)"

definition session_set :: "receipt \<Rightarrow> string option" where
  "session_set r = (case rc_sessionId r of None \<Rightarrow> None | Some s \<Rightarrow> if s = [] then None else Some s)"

definition related_session_query :: "receipt \<Rightarrow> string option" where
  "related_session_query r =
     map_option (\<lambda>s. ''/receipts?limit=4&session='' @ encode_uri_component s) (session_set r)"

text \<open>The paths handed to \<open>useLive\<close>, and the lists made of what it shows.\<close>

definition related_paths :: "data_mode \<Rightarrow> receipt \<Rightarrow> string option \<times> string option" where
  "related_paths mode r =
     (if mode = Api then (Some (related_key_query r), related_session_query r) else (None, None))"

definition useRelated :: "data_mode \<Rightarrow> receipt list \<Rightarrow> receipt list \<Rightarrow> receipt list \<Rightarrow> receipt \<Rightarrow> related" where
  "useRelated mode all liveKey liveSess r =
     (if mode = Api
      then \<lparr>re_sameKey = take 4 (filter (\<lambda>x. rc_id x \<noteq> rc_id r) liveKey),
            re_sameSession = take 3 (filter (\<lambda>x. rc_id x \<noteq> rc_id r) liveSess)\<rparr>
      else \<lparr>re_sameKey = take 4 (filter (\<lambda>x. rc_keyId x = rc_keyId r \<and> rc_id x \<noteq> rc_id r
               \<and> rc_ts x < rc_ts r \<and> rc_ts x \<ge> rc_ts r - DRAWER_HOUR) all),
            re_sameSession = (case session_set r of
                None \<Rightarrow> []
              | Some s \<Rightarrow> take 3 (filter (\<lambda>x. rc_sessionId x = Some s \<and> rc_id x \<noteq> rc_id r) all))\<rparr>)"

definition RelatedList :: "(int \<Rightarrow> int) \<Rightarrow> string \<Rightarrow> receipt list \<Rightarrow> drawer_action ui list" where
  "RelatedList tz title items =
     (if items = [] then []
      else [elem ''div''
        [tag ''div'' title,
         elem ''ul'' (map (\<lambda>x. El ''li'' [(''key'', rc_id x)] []
           [El ''button'' [(''type'', ''button'')] [(''onClick'', OpenReceipt (rc_id x))]
             [VerdictBadge (rc_verdict x) True, tag ''span'' (clock tz (rc_ts x)), tag ''span'' (rc_resolvedModel x),
              elem ''span'' [Money (rc_costUsd x) Micro (rc_inFlight x)]]]) items)]])"

definition related_shown :: "related \<Rightarrow> string \<times> receipt list" where
  "related_shown re =
     (if re_sameSession re \<noteq> [] then (''Same session'', re_sameSession re)
      else (''Same key, the hour before'', re_sameKey re))"

section \<open>The drawer\<close>

definition Sub :: "string \<Rightarrow> 'e ui list \<Rightarrow> 'e ui" where
  "Sub title children = elem ''section'' (tag ''h3'' title # children)"

definition KV :: "string \<Rightarrow> 'e ui list \<Rightarrow> 'e ui list" where
  "KV k children = [tag ''dt'' k, elem ''dd'' children]"

definition NotFound :: "string option \<Rightarrow> 'e ui list" where
  "NotFound i =
     [elem ''DrawerHeader'' [tag ''DrawerTitle'' ''Receipt not found''],
      elem ''DrawerBody'' [elem ''p''
        [Txt ''No receipt '', tag ''span'' (or_else i []),
         Txt '' in the hot window (30 days). Older receipts keep aggregates only.'']]]"

definition status_chip :: "receipt \<Rightarrow> 'e ui" where
  "status_chip r =
     (if failedAfterAllowed r
      then elem ''span'' [Txt (''Failed '' @ glyph_middot @ '' ''), tag ''span'' (int_str (rc_status r))]
      else El ''span'' [(''tone'', if rc_status r \<ge> 400 then ''blocked'' else ''neutral'')] []
             [Txt (int_str (rc_status r))])"

definition drawer_header :: "(int \<Rightarrow> int) \<Rightarrow> int \<Rightarrow> receipt \<Rightarrow> drawer_action ui" where
  "drawer_header tz now r =
     elem ''DrawerHeader''
       [elem ''div'' ([VerdictBadge (rc_verdict r) False, status_chip r]
          @ only_if (rc_inFlight r) (tag ''span'' ''Streaming: usage arrives at end of stream'')),
        elem ''DrawerTitle'' (Txt (rc_requestedModel r)
          # (if rc_requestedModel r \<noteq> rc_resolvedModel r
             then [El ''ArrowRight'' [(''aria-label'', ''resolved to'')] [] [], Txt (rc_resolvedModel r)] else [])),
        elem ''DrawerDescription''
          [elem ''span'' [Money (rc_costUsd r) Micro (rc_inFlight r), Txt '' total''],
           elem ''span'' [Duration (of_int (rc_durationMs r)) (rc_inFlight r), Txt '' total''],
           tag ''span'' (clock tz (rc_ts r) @ '' '' @ glyph_middot @ '' '' @ ago (rc_ts r) now)],
        El ''button'' [(''type'', ''button'')] [(''onClick'', CopyText (rc_traceId r) ''Trace ID'')]
          [Txt (''trace '' @ rc_traceId r), icon ''Copy'', tag ''span'' ''Copy trace ID'']]"

definition failure_alert :: "receipt \<Rightarrow> 'e ui list" where
  "failure_alert r =
     (case rc_errorDetail r of
        None \<Rightarrow> []
      | Some d \<Rightarrow>
          (if d = [] then []
           else [elem ''div'' [El ''Alert''
             [(''variant'', if fl_refused (failure r) then ''destructive'' else ''warning'')] []
             [icon ''ShieldAlert'', tag ''AlertTitle'' (fl_title (failure r)), tag ''AlertDescription'' d]]]))"

definition usage_section :: "receipt \<Rightarrow> 'e ui" where
  "usage_section r =
     Sub ''Usage and cost''
       [elem ''table''
          [elem ''thead'' [elem ''tr'' [tag ''th'' ''Type'', tag ''th'' ''Tokens'', tag ''th'' ''Cost'']],
           elem ''tbody'' (map (usage_row (rc_inFlight r)) (usage_lines r)
             @ [elem ''tr''
                 [tag ''td'' ''Total'', elem ''td'' [TokenCount (usage_total r) (rc_inFlight r) True],
                  elem ''td'' [Money (rc_costUsd r) Micro (rc_inFlight r)]]])],
        tag ''p'' (pricing_note r)]"

definition key_link :: "receipt \<Rightarrow> string" where
  "key_link r = ''/keys?key='' @ rc_keyId r"

definition set_string :: "string option \<Rightarrow> string option" where
  "set_string v = (case v of None \<Rightarrow> None | Some s \<Rightarrow> if s = [] then None else Some s)"

definition related_section :: "(int \<Rightarrow> int) \<Rightarrow> related \<Rightarrow> receipt \<Rightarrow> drawer_action ui" where
  "related_section tz re r =
     Sub ''Related''
       (elem ''dl''
          (KV ''Key'' [El ''Link'' [(''to'', key_link r)] [] [Txt (rc_keyName r)], Txt '' '',
             tag ''span'' (glyph_middot @ '' '' @ rc_team r @ '' / '' @ rc_project r)]
           @ KV ''Backend'' [tag ''span'' (rc_backend r)]
           @ (case set_string (rc_actor r) of None \<Rightarrow> [] | Some a \<Rightarrow> KV ''Actor'' [Txt a])
           @ (case session_set r of None \<Rightarrow> [] | Some s \<Rightarrow> KV ''Session'' [tag ''span'' s]))
        # (case related_shown re of (title, items) \<Rightarrow> RelatedList tz title items))"

definition drawer_footer :: "(receipt \<Rightarrow> string) \<Rightarrow> string \<Rightarrow> string \<Rightarrow> receipt \<Rightarrow> drawer_action ui" where
  "drawer_footer to_json href pathname r =
     elem ''DrawerFooter'' [elem ''div''
       [elem ''div''
          (El ''Button'' [(''variant'', ''ghost'')] [(''onClick'', CopyText href ''Link'')] [icon ''Link2'', Txt ''Copy link'']
           # only_if (pathname \<noteq> ''/traffic'')
               (El ''Button'' [(''variant'', ''ghost''), (''to'', ''/traffic?receipt='' @ rc_id r)] []
                 [icon ''ArrowRight'', Txt ''Open in Traffic''])),
        elem ''div''
          [El ''Button'' [(''variant'', ''outline'')] [(''onClick'', PrintPage)] [icon ''Printer'', Txt ''Print''],
           El ''Button'' [(''variant'', ''outline'')] [(''onClick'', exportJson to_json r)]
             [icon ''Download'', Txt ''Export JSON'']]]]"

record drawer_env =
  de_tz :: "int \<Rightarrow> int"
  de_now :: int
  de_json :: "receipt \<Rightarrow> string"
  de_href :: string
  de_pathname :: string

definition ReceiptBody :: "drawer_env \<Rightarrow> related \<Rightarrow> receipt \<Rightarrow> drawer_action ui list" where
  "ReceiptBody e re r =
     [drawer_header (de_tz e) (de_now e) r,
      elem ''DrawerBody'' (failure_alert r @ [usage_section r, related_section (de_tz e) re r]),
      drawer_footer (de_json e) (de_href e) (de_pathname e) r]"

definition copied_title :: "string \<Rightarrow> string" where
  "copied_title what = what @ '' copied''"

text \<open>The receipt is looked up in the stream's cache; the drawer is open when the URL names one.\<close>

definition drawer_receipt :: "stream \<Rightarrow> app \<Rightarrow> receipt option" where
  "drawer_receipt s a =
     (case set_string (receiptId a) of None \<Rightarrow> None | Some i \<Rightarrow> om_get (st_byId s) i)"

definition ReceiptDrawer ::
  "drawer_env \<Rightarrow> data_mode \<Rightarrow> receipt list \<Rightarrow> receipt list \<Rightarrow> stream \<Rightarrow> app \<Rightarrow> drawer_action ui" where
  "ReceiptDrawer e mode liveKey liveSess s a =
     El ''Drawer'' [(''open'', bool_str (set_string (receiptId a) \<noteq> None)), (''side'', ''right'')]
        [(''onClose'', CloseReceipt)]
       [elem ''DrawerContent''
         (case drawer_receipt s a of
            None \<Rightarrow> NotFound (receiptId a)
          | Some r \<Rightarrow> ReceiptBody e (useRelated mode (st_rows s) liveKey liveSess r) r)]"

definition drawer_act :: "drawer_action \<Rightarrow> app \<Rightarrow> app" where
  "drawer_act x a = (case x of CloseReceipt \<Rightarrow> closeReceipt a | OpenReceipt i \<Rightarrow> openReceipt i a | _ \<Rightarrow> a)"

section \<open>Lemmas\<close>

text \<open>
  The lines add up to the larger of the input and its cached and written parts, and the larger of the output and
  the reasoning; so to the total shown below them exactly when the parts fit.
\<close>

lemma usage_lines_sum:
  assumes "0 \<le> cache_writes r"
  shows "sum_list (map snd (usage_lines r)) =
    max (rc_inputTokens r) (rc_cachedInputTokens r + cache_writes r) + max (rc_outputTokens r) (rc_reasoningTokens r)"
  using assms by (auto simp: usage_lines_def input_billed_def)

lemma usage_lines_total_iff:
  assumes "0 \<le> cache_writes r"
  shows "sum_list (map snd (usage_lines r)) = usage_total r \<longleftrightarrow>
    rc_cachedInputTokens r + cache_writes r \<le> rc_inputTokens r \<and> rc_reasoningTokens r \<le> rc_outputTokens r"
  unfolding usage_lines_sum [OF assms] usage_total_def by linarith

lemma useRelated_not_self:
  "rc_id r \<notin> rc_id ` set (re_sameKey (useRelated mode all lk ls r))"
  "rc_id r \<notin> rc_id ` set (re_sameSession (useRelated mode all lk ls r))"
  by (auto simp: useRelated_def split: option.splits dest: in_set_takeD)

lemma useRelated_bound:
  "length (re_sameKey (useRelated mode all lk ls r)) \<le> 4 \<and> length (re_sameSession (useRelated mode all lk ls r)) \<le> 3"
  by (auto simp: useRelated_def split: option.split)

lemma RelatedList_actions: "concat (map ui_actions (RelatedList tz title items)) = map (\<lambda>x. OpenReceipt (rc_id x)) items"
proof -
  have m: "ui_actions (Money v p u :: drawer_action ui) = []" for v p u
    by (simp add: Money_def unknown_view_def split: option.split)
  have v: "ui_actions (VerdictBadge w c :: drawer_action ui) = []" for w c
    by (simp add: VerdictBadge_def Let_def)
  have "concat (map (\<lambda>x. ui_actions (El ''li'' [(''key'', rc_id x)] []
           [El ''button'' [(''type'', ''button'')] [(''onClick'', OpenReceipt (rc_id x))]
             [VerdictBadge (rc_verdict x) True, tag ''span'' (clock tz (rc_ts x)), tag ''span'' (rc_resolvedModel x),
              elem ''span'' [Money (rc_costUsd x) Micro (rc_inFlight x)]]])) items) = map (\<lambda>x. OpenReceipt (rc_id x)) items"
    by (induction items) (simp_all add: m v)
  then show ?thesis by (simp add: RelatedList_def o_def)
qed

text \<open>Closing the drawer takes the receipt off the URL; opening another puts it there.\<close>

lemma drawer_open_close:
  "i \<noteq> [] \<Longrightarrow> drawer_receipt s (openReceipt i a) = om_get (st_byId s) i"
  "drawer_receipt s (closeReceipt a) = None"
  by (simp_all add: drawer_receipt_def open_close_receipt set_string_def)

text \<open>In every run of the stream, the receipt that is shown is the one that the URL names.\<close>

lemma drawer_shows_named:
  assumes "stream_run mode seed s" and "length seed \<le> ROWS_CAP" and "drawer_receipt s a = Some r"
  shows "receiptId a = Some (rc_id r)"
proof -
  from assms(3) obtain i where i: "receiptId a = Some i" "om_get (st_byId s) i = Some r"
    by (auto simp: drawer_receipt_def set_string_def split: option.splits if_splits)
  have "cache_wf (st_byId s)" using stream_run_inv [OF assms(1,2)] by (simp add: data_inv_def)
  with i show ?thesis by (auto simp: cache_wf_def om_get_def dest!: map_of_SomeD)
qed

end
