(* ===== verification/LiveList.thy ===== *)
theory LiveList
  imports ReceiptDrawer
begin

text \<open>
  The Traffic list on the tab's one receipt stream: \<open>useApiFeed\<close> (\<open>state/traffic-feed.ts\<close>) and \<open>ReceiptStream\<close>
  (\<open>state/app-state.tsx\<close>) composed.  Each theory describes one of them with the other as its surroundings; here the
  calls between them are the calls the code makes.  The effect of the hook untails and tails the stream, a batch that
  the stream hands over updates the list, and the pages the list loads are remembered by the stream for the drawer.
  What the control plane sends on a connection is then the only thing that is assumed.
\<close>

section \<open>State and operations\<close>

text \<open>\<open>ll_feed\<close> is None while no Traffic page is mounted.  The stream knows a tailer by the number of its effect.\<close>

record live_list =
  ll_stream :: stream
  ll_feed :: "feed option"

text \<open>What the page does with a batch and with a count of drops, if they are for its own effect.\<close>

definition hand_over :: "nat \<times> string \<times> (string \<times> receipt) list \<Rightarrow> feed \<Rightarrow> feed" where
  "hand_over d fd = (case d of (t, q, batch) \<Rightarrow>
     (case fd_tail fd of None \<Rightarrow> fd | Some (e, k, w, p) \<Rightarrow> if e = t then on_receipts (map snd batch) fd else fd))"

definition hand_drop :: "nat \<times> int \<Rightarrow> feed \<Rightarrow> feed" where
  "hand_drop d fd = (case d of (t, n) \<Rightarrow>
     (case fd_tail fd of None \<Rightarrow> fd | Some (e, k, w, p) \<Rightarrow> if e = t then on_drop n fd else fd))"

text \<open>A call on the stream, whose calls back to the tailer run before it returns.\<close>

definition on_stream :: "(stream \<Rightarrow> stream) \<Rightarrow> live_list \<Rightarrow> live_list" where
  "on_stream op L =
     (let s = ll_stream L; s' = op s
      in L\<lparr>ll_stream := s',
           ll_feed := map_option (fold hand_drop (drop (length (st_drops s)) (st_drops s')) \<circ>
             fold hand_over (drop (length (st_delivered s)) (st_delivered s'))) (ll_feed L)\<rparr>)"

text \<open>\<open>live = false; untail()\<close>: the batch that untailing flushes finds the effect dead.\<close>

definition cleanup :: "feed \<Rightarrow> live_list \<Rightarrow> live_list" where
  "cleanup fd L = (case fd_tail fd of None \<Rightarrow> L | Some (e, k, w, q) \<Rightarrow> L\<lparr>ll_stream := untail e (ll_stream L)\<rparr>)"

definition open_tail :: "feed \<Rightarrow> live_list \<Rightarrow> live_list" where
  "open_tail fd L =
     (let L1 = L\<lparr>ll_feed := Some fd\<rparr>
      in case fd_tail fd of None \<Rightarrow> L1 | Some (e, k, w, q) \<Rightarrow> on_stream (tail Api q e) L1)"

definition list_mount :: "api_key list \<Rightarrow> int \<Rightarrow> filters \<Rightarrow> traffic_window \<Rightarrow> live_list \<Rightarrow> live_list" where
  "list_mount ks now f w L = open_tail (mount ks now f w) L"

definition list_render :: "api_key list \<Rightarrow> int \<Rightarrow> filters \<Rightarrow> traffic_window \<Rightarrow> feed \<Rightarrow> live_list \<Rightarrow> live_list" where
  "list_render ks now f w fd L =
     (if feed_key ks f w = feed_key ks (fd_filters fd) (fd_window fd)
      then L\<lparr>ll_feed := Some (render ks now f w fd)\<rparr>
      else open_tail (render ks now f w fd) (cleanup fd L))"

definition list_reload :: "api_key list \<Rightarrow> int \<Rightarrow> feed \<Rightarrow> live_list \<Rightarrow> live_list" where
  "list_reload ks now fd L = open_tail (reload ks now fd) (cleanup fd L)"

definition list_unmount :: "feed \<Rightarrow> live_list \<Rightarrow> live_list" where
  "list_unmount fd L = (cleanup fd L)\<lparr>ll_feed := None\<rparr>"

definition remember_rows :: "(string + receipt list \<times> int option) \<Rightarrow> stream \<Rightarrow> stream" where
  "remember_rows reply s =
     (case reply of Inl e \<Rightarrow> s | Inr (rows, cb) \<Rightarrow> s\<lparr>st_byId := rc.remember_all rows (st_byId s)\<rparr>)"

text \<open>A first page is dropped when its effect is dead; an older page is remembered in any case.\<close>

definition list_first ::
  "first_request \<Rightarrow> (string + receipt list \<times> int option) \<Rightarrow> feed \<Rightarrow> live_list \<Rightarrow> live_list" where
  "list_first q reply fd L =
     L\<lparr>ll_feed := Some (first_reply q reply fd),
       ll_stream := (if fq_effect q = fd_effect fd then remember_rows reply (ll_stream L) else ll_stream L)\<rparr>"

definition list_older ::
  "api_key list \<Rightarrow> older_request \<Rightarrow> (string + receipt list \<times> int option) \<Rightarrow> feed \<Rightarrow> live_list \<Rightarrow> live_list" where
  "list_older ks q reply fd L =
     L\<lparr>ll_feed := Some (older_reply ks q reply fd), ll_stream := remember_rows reply (ll_stream L)\<rparr>"

text \<open>The console starts with the receipts that \<open>hydrate\<close> loaded, and no page open.\<close>

definition list_init :: "receipt list \<Rightarrow> live_list" where
  "list_init seed = \<lparr>ll_stream = init_stream seed, ll_feed = None\<rparr>"

section \<open>Steps\<close>

text \<open>
  \<open>sat q r\<close>: receipt \<open>r\<close> answers the filter query \<open>q\<close>.  Besides the promise on pages, the control plane sends on a
  connection only receipts that answer the query of that connection.
\<close>

inductive list_step :: "api_key list \<Rightarrow> (string \<Rightarrow> receipt \<Rightarrow> bool) \<Rightarrow> live_list \<Rightarrow> live_list \<Rightarrow> bool"
  for ks sat where
  Subscribe: "list_step ks sat L (on_stream (start Api) L)"
| Microtask: "0 < st_microtasks (ll_stream L) \<Longrightarrow> list_step ks sat L (on_stream microtask L)"
| Timer: "st_timer (ll_stream L) \<Longrightarrow> list_step ks sat L (on_stream flush L)"
| Receipt: "st_es (ll_stream L) = Some q \<Longrightarrow> sat q r \<Longrightarrow> list_step ks sat L (on_stream (on_receipt r) L)"
| Dropped: "st_es (ll_stream L) \<noteq> None \<Longrightarrow> list_step ks sat L (on_stream (on_dropped n) L)"
| Sampling: "st_es (ll_stream L) \<noteq> None \<Longrightarrow> list_step ks sat L (on_stream (on_sampling n) L)"
| Remember: "list_step ks sat L (on_stream (\<lambda>s. s\<lparr>st_byId := remember r (st_byId s)\<rparr>) L)"
| Mount: "ll_feed L = None \<Longrightarrow> list_step ks sat L (list_mount ks now f w L)"
| Render: "ll_feed L = Some fd \<Longrightarrow> list_step ks sat L (list_render ks now f w fd L)"
| Reload: "ll_feed L = Some fd \<Longrightarrow> list_step ks sat L (list_reload ks now fd L)"
| FirstReply: "ll_feed L = Some fd \<Longrightarrow> q \<in> set (fd_first fd) \<Longrightarrow> fq_key q = feed_key ks f w \<Longrightarrow>
    page_ok sat (tail_query ks f) w reply \<Longrightarrow> list_step ks sat L (list_first q reply fd L)"
| LoadOlder: "ll_feed L = Some fd \<Longrightarrow> list_step ks sat L (L\<lparr>ll_feed := Some (loadOlder ks fd)\<rparr>)"
| OlderReply: "ll_feed L = Some fd \<Longrightarrow> q \<in> set (fd_older fd) \<Longrightarrow> oq_key q = feed_key ks f w \<Longrightarrow>
    page_ok sat (tail_query ks f) (oq_window q) reply \<Longrightarrow> list_step ks sat L (list_older ks q reply fd L)"
| Sampled: "ll_feed L = Some fd \<Longrightarrow>
    list_step ks sat L (L\<lparr>ll_feed := Some (note_sampling ks (st_sampling (ll_stream L)) fd)\<rparr>)"
| Unmount: "ll_feed L = Some fd \<Longrightarrow> list_step ks sat L (list_unmount fd L)"

inductive list_run :: "api_key list \<Rightarrow> (string \<Rightarrow> receipt \<Rightarrow> bool) \<Rightarrow> receipt list \<Rightarrow> live_list \<Rightarrow> bool"
  for ks sat seed where
  Open: "list_run ks sat seed (list_init seed)"
| Step: "list_run ks sat seed L \<Longrightarrow> list_step ks sat L L' \<Longrightarrow> list_run ks sat seed L'"

inductive_cases list_stepE: "list_step ks sat L L'"

section \<open>Frames\<close>

lemma start_delivered: "st_tailer s = None \<Longrightarrow> st_delivered (start Api s) = st_delivered s"
  by (simp add: start_def Let_def connect_delivered)

lemma start_drops [simp]: "st_drops (start Api s) = st_drops s"
  by (simp add: start_def Let_def connect_def setSampling_def flush_def deliver_def split: option.split)

lemma flush_drops [simp]: "st_drops (flush s) = st_drops s"
  by (simp add: flush_def Let_def deliver_def split: option.split)

lemma connect_drops [simp]: "st_drops (connect s) = st_drops s"
  by (simp add: connect_def setSampling_def Let_def)

lemma microtask_drops [simp]: "st_drops (microtask s) = st_drops s"
  by (simp add: microtask_def Let_def)

lemma microtask_delivered [simp]: "st_delivered (microtask s) = st_delivered s"
  by (simp add: microtask_def Let_def connect_delivered)

lemma tail_drops [simp]: "st_drops (tail Api q t s) = st_drops s"
  by (simp add: tail_def Let_def)

lemma tail_delivered: "st_tailer s = None \<Longrightarrow> st_delivered (tail Api q t s) = st_delivered s"
  by (simp add: tail_def start_def Let_def connect_delivered flush_delivered)

text \<open>What a tail leaves behind, on a stream that keeps its connection.\<close>

lemma tail_after:
  assumes "flow_inv Api s"
  shows "st_tailer (tail Api q t s) = Some t" "st_tailQuery (tail Api q t s) = q" "st_query (tail Api q t s) = q"
    "st_started (tail Api q t s)" "st_es (tail Api q t s) = Some q" "st_queue (tail Api q t s) = []"
    "st_byId (tail Api q t s) = rc.remember_all (map snd (st_queue s)) (st_byId s)"
  using assms by (auto simp: tail_def start_def Let_def flow_inv_def rc.remember_all_def)

lemma untail_after:
  "st_tailer s = Some t \<Longrightarrow> st_tailer (untail t s) = None"
  "st_queue s = [] \<Longrightarrow> st_queue (untail t s) = []"
  "set (st_queue (untail t s)) \<subseteq> set (st_queue s)"
  by (simp_all add: untail_def Let_def)

text \<open>A call that hands nothing over leaves the page alone.\<close>

lemma on_stream_quiet:
  "st_delivered (op (ll_stream L)) = st_delivered (ll_stream L) \<Longrightarrow> st_drops (op (ll_stream L)) = st_drops (ll_stream L) \<Longrightarrow>
     on_stream op L = L\<lparr>ll_stream := op (ll_stream L)\<rparr>"
  by (cases "ll_feed L") (simp_all add: on_stream_def Let_def)

lemma on_stream_stream [simp]: "ll_stream (on_stream op L) = op (ll_stream L)"
  by (simp add: on_stream_def Let_def)

section \<open>The invariant\<close>

text \<open>The stream's tailer is the page's live effect, and it tails the page's query.\<close>

definition tail_agrees :: "stream \<Rightarrow> feed option \<Rightarrow> bool" where
  "tail_agrees s fd \<longleftrightarrow>
     (case fd of None \<Rightarrow> st_tailer s = None
      | Some fd \<Rightarrow> (case fd_tail fd of None \<Rightarrow> st_tailer s = None
          | Some (e, k, w, q) \<Rightarrow> st_tailer s = Some e \<and> st_tailQuery s = q))"

lemma tail_agrees_stream:
  "st_tailer s' = st_tailer s \<Longrightarrow> st_tailQuery s' = st_tailQuery s \<Longrightarrow> tail_agrees s' fd = tail_agrees s fd"
  by (simp add: tail_agrees_def split: option.split)

lemma tail_agrees_feed:
  "fd_tail fd' = fd_tail fd \<Longrightarrow> tail_agrees s (Some fd') = tail_agrees s (Some fd)"
  by (simp add: tail_agrees_def)

definition queue_answers :: "(string \<Rightarrow> receipt \<Rightarrow> bool) \<Rightarrow> stream \<Rightarrow> bool" where
  "queue_answers sat s \<longleftrightarrow> (\<forall>(q, r) \<in> set (st_queue s). sat q r)"

text \<open>While the cache has never been full, all rows of the list are in it.\<close>

definition rows_cached :: "stream \<Rightarrow> feed option \<Rightarrow> bool" where
  "rows_cached s fd \<longleftrightarrow>
     (case fd of None \<Rightarrow> True
      | Some fd \<Rightarrow> length (st_byId s) < BYID_CAP \<longrightarrow>
          (\<forall>r \<in> set (fs_rows (fd_state fd)). om_get (st_byId s) (rc_id r) \<noteq> None))"

definition list_inv :: "api_key list \<Rightarrow> (string \<Rightarrow> receipt \<Rightarrow> bool) \<Rightarrow> live_list \<Rightarrow> bool" where
  "list_inv ks sat L \<longleftrightarrow>
     flow_inv Api (ll_stream L) \<and> data_inv (ll_stream L) \<and> queue_answers sat (ll_stream L) \<and>
     tail_agrees (ll_stream L) (ll_feed L) \<and> rows_cached (ll_stream L) (ll_feed L) \<and>
     (case ll_feed L of None \<Rightarrow> True | Some fd \<Rightarrow> feed_inv sat ks fd)"

lemma list_invD:
  assumes "list_inv ks sat L"
  shows "flow_inv Api (ll_stream L)" "data_inv (ll_stream L)" "queue_answers sat (ll_stream L)"
    "tail_agrees (ll_stream L) (ll_feed L)" "rows_cached (ll_stream L) (ll_feed L)"
    "ll_feed L = Some fd \<Longrightarrow> feed_inv sat ks fd"
  using assms by (simp_all add: list_inv_def)

lemma cache_wf_stream: "data_inv s \<Longrightarrow> cache_wf (st_byId s)"
  by (simp add: data_inv_def)

lemma list_init_inv: "length seed \<le> ROWS_CAP \<Longrightarrow> list_inv ks sat (list_init seed)"
  using data_inv_init [of seed] flow_inv_init [of Api seed]
  by (simp add: list_inv_def list_init_def queue_answers_def tail_agrees_def rows_cached_def) (simp add: init_stream_def)

text \<open>Rows stay cached when the stream remembers more.\<close>

lemma cached_remember_all:
  assumes wf: "cache_wf m" and room: "length (rc.remember_all rs m) < BYID_CAP"
    and old: "length m < BYID_CAP \<Longrightarrow> \<forall>r \<in> X. om_get m (rc_id r) \<noteq> None" and r: "r \<in> X \<union> set rs"
  shows "om_get (rc.remember_all rs m) (rc_id r) \<noteq> None"
proof (rule rg.found_remember_all [OF wf room])
  have "length m < BYID_CAP" using rg.size_grows_all [OF wf, of rs] room by simp
  with old r show "rc_id r \<in> rc_id ` set rs \<or> om_get m (rc_id r) \<noteq> None" by auto
qed

lemma rows_cached_grow:
  assumes "rows_cached s (Some fd)" and "cache_wf (st_byId s)" and "st_byId s' = rc.remember_all rs (st_byId s)"
    and "set (fs_rows (fd_state fd')) \<subseteq> set (fs_rows (fd_state fd)) \<union> set rs"
  shows "rows_cached s' (Some fd')"
  using assms cached_remember_all [OF assms(2), of rs "set (fs_rows (fd_state fd))"]
  by (auto simp: rows_cached_def)

section \<open>Every step keeps it\<close>

text \<open>Steps of the stream that hand nothing over.\<close>

lemma list_inv_quiet:
  assumes inv: "list_inv ks sat L" and step: "stream_step Api (ll_stream L) (op (ll_stream L))"
    and quiet: "st_delivered (op (ll_stream L)) = st_delivered (ll_stream L)" "st_drops (op (ll_stream L)) = st_drops (ll_stream L)"
    and q: "queue_answers sat (op (ll_stream L))"
    and same: "st_tailer (op (ll_stream L)) = st_tailer (ll_stream L)" "st_tailQuery (op (ll_stream L)) = st_tailQuery (ll_stream L)"
    and mem: "st_byId (op (ll_stream L)) = rc.remember_all rs (st_byId (ll_stream L))"
  shows "list_inv ks sat (on_stream op L)"
proof -
  note D = list_invD [OF inv]
  have "rows_cached (op (ll_stream L)) (ll_feed L)"
  proof (cases "ll_feed L")
    case (Some fd)
    from rows_cached_grow [OF D(5) [unfolded Some] cache_wf_stream [OF D(2)] mem, of fd] Some show ?thesis by simp
  qed (simp add: rows_cached_def)
  with D q same flow_inv_step [OF step D(1)] data_inv_step [OF step D(2)] inv show ?thesis
    unfolding on_stream_quiet [where op = op, OF quiet] by (simp add: list_inv_def tail_agrees_stream [OF same])
qed

lemma on_receipts_rows:
  assumes "feed_inv sat ks fd"
  shows "set (fs_rows (fd_state (on_receipts batch fd))) \<subseteq> set (fs_rows (fd_state fd)) \<union> set batch"
proof (cases "fd_tail fd")
  case (Some p)
  obtain e k w q where p: "p = (e, k, w, q)" by (cases p)
  have "distinct (map rc_id (fs_rows (fd_state fd)))" using assms by (simp add: feed_inv_def rows_ok_def)
  from applyLive_subset [OF this, of "filter (in_window w) batch"] Some p show ?thesis
    by (auto simp: on_receipts_def update_if_def Let_def)
qed (simp add: on_receipts_def)

text \<open>The batch timer: the one step that hands receipts to the page.\<close>

lemma list_inv_flush:
  assumes inv: "list_inv ks sat L" and timer: "st_timer (ll_stream L)"
  shows "list_inv ks sat (on_stream flush L)"
proof -
  let ?s = "ll_stream L"
  note D = list_invD [OF inv]
  have step: "stream_step Api ?s (flush ?s)" using timer by (rule stream_step.Timer)
  have base: "flow_inv Api (flush ?s)" "data_inv (flush ?s)" "queue_answers sat (flush ?s)"
    using flow_inv_step [OF step D(1)] data_inv_step [OF step D(2)] by (simp_all add: queue_answers_def)
  show ?thesis
  proof (cases "ll_feed L")
    case None
    with base D(4) show ?thesis
      by (simp add: list_inv_def on_stream_def Let_def tail_agrees_def rows_cached_def)
  next
    case (Some fd)
    have fd: "feed_inv sat ks fd" using D(6) [OF Some] .
    let ?b = "map snd (st_queue ?s)"
    let ?fd = "fold hand_over (drop (length (st_delivered ?s)) (st_delivered (flush ?s))) fd"
    have L': "on_stream flush L = L\<lparr>ll_stream := flush ?s, ll_feed := Some ?fd\<rparr>"
      by (simp add: on_stream_def Let_def Some)
    have cases: "?fd = fd \<or> (\<exists>k w. fd_tail fd = Some (the (st_tailer ?s), k, w, st_tailQuery ?s) \<and>
        st_tailer ?s \<noteq> None \<and> ?fd = on_receipts ?b fd)"
      using D(4) by (auto simp: flush_delivered tail_agrees_def Some hand_over_def split: option.splits)
    have answers: "list_all (sat (st_tailQuery ?s)) ?b" if "st_tailer ?s \<noteq> None"
      using that D(1,3) by (fastforce simp: flow_inv_def queue_answers_def list_all_iff)
    have "feed_inv sat ks ?fd" using cases answers feed_inv_live [OF fd] fd by auto
    moreover have "fd_tail ?fd = fd_tail fd"
      using cases by (auto simp: on_receipts_def Let_def split: option.splits)
    then have "tail_agrees (flush ?s) (Some ?fd)" using D(4) Some tail_agrees_feed [of ?fd fd] tail_agrees_stream [of "flush ?s" ?s] by simp
    moreover have "set (fs_rows (fd_state ?fd)) \<subseteq> set (fs_rows (fd_state fd)) \<union> set ?b"
      using cases on_receipts_rows [OF fd, of ?b] by auto
    then have "rows_cached (flush ?s) (Some ?fd)"
      by (rule rows_cached_grow [OF D(5) [unfolded Some] cache_wf_stream [OF D(2)] flush_frame(11)])
    ultimately show ?thesis using base unfolding L' by (simp add: list_inv_def)
  qed
qed

lemma flow_inv_frame:
  "flow_inv Api s \<Longrightarrow> flow_inv Api (s\<lparr>st_byId := m\<rparr>)"
  by (simp add: flow_inv_def)

text \<open>Closing the old effect: the stream is left without a tailer, and keeps what it had.\<close>

lemma cleanup_frame [simp]: "ll_feed (cleanup fd L) = ll_feed L"
  by (simp add: cleanup_def split: option.split)

lemma cleanup_stream:
  assumes inv: "list_inv ks sat L" and fd: "ll_feed L = Some fd"
  shows "flow_inv Api (ll_stream (cleanup fd L))" "data_inv (ll_stream (cleanup fd L))"
    "queue_answers sat (ll_stream (cleanup fd L))" "st_tailer (ll_stream (cleanup fd L)) = None"
    "\<exists>rs. st_byId (ll_stream (cleanup fd L)) = rc.remember_all rs (st_byId (ll_stream L))"
proof -
  note D = list_invD [OF inv]
  have tailer: "case fd_tail fd of None \<Rightarrow> st_tailer (ll_stream L) = None
      | Some (e, k, w, q) \<Rightarrow> st_tailer (ll_stream L) = Some e" using D(4) by (auto simp: tail_agrees_def fd split: option.splits)
  have rs: "\<exists>rs. st_byId (untail t s) = rc.remember_all rs (st_byId s)" for t s
  proof (cases "st_tailer s = Some t")
    case False
    then have "st_byId (untail t s) = rc.remember_all [] (st_byId s)" by (simp add: untail_def rc.remember_all_def)
    then show ?thesis by blast
  qed (auto simp: untail_def Let_def)
  have step: "stream_step Api (ll_stream L) (untail t (ll_stream L))" for t by (rule stream_step.Untail)
  show "flow_inv Api (ll_stream (cleanup fd L))" "data_inv (ll_stream (cleanup fd L))"
    using D flow_inv_step [OF step D(1)] data_inv_step [OF step D(2)] by (auto simp: cleanup_def split: option.split)
  show "queue_answers sat (ll_stream (cleanup fd L))"
    using D(3) untail_after(3) by (fastforce simp: cleanup_def queue_answers_def split: option.split)
  show "st_tailer (ll_stream (cleanup fd L)) = None"
    using tailer untail_after(1) by (auto simp: cleanup_def split: option.splits)
  have "ll_stream (cleanup fd L) = ll_stream L \<or> (\<exists>t. ll_stream (cleanup fd L) = untail t (ll_stream L))"
    by (auto simp: cleanup_def split: option.split)
  then show "\<exists>rs. st_byId (ll_stream (cleanup fd L)) = rc.remember_all rs (st_byId (ll_stream L))"
    using rs by (metis rc.remember_all_def fold_simps(1))
qed

text \<open>Opening the new one, with an empty list.\<close>

lemma open_tail_eq:
  assumes "flow_inv Api (ll_stream L)" and "st_tailer (ll_stream L) = None"
  shows "open_tail fd L = L\<lparr>ll_feed := Some fd, ll_stream := (case fd_tail fd of None \<Rightarrow> ll_stream L
    | Some (e, k, w, q) \<Rightarrow> tail Api q e (ll_stream L))\<rparr>"
  using assms by (auto simp: open_tail_def Let_def on_stream_quiet tail_delivered split: option.split)

lemma list_inv_open:
  assumes "flow_inv Api (ll_stream L)" "data_inv (ll_stream L)" "queue_answers sat (ll_stream L)"
    and "st_tailer (ll_stream L) = None" and "feed_inv sat ks fd" and "fs_rows (fd_state fd) = []"
  shows "list_inv ks sat (open_tail fd L)"
proof -
  let ?s = "case fd_tail fd of None \<Rightarrow> ll_stream L | Some (e, k, w, q) \<Rightarrow> tail Api q e (ll_stream L)"
  have step: "stream_step Api (ll_stream L) (tail Api q e (ll_stream L))" for q e by (rule stream_step.Tail)
  have "flow_inv Api ?s" "data_inv ?s"
    using assms flow_inv_step [OF step] data_inv_step [OF step] by (auto split: option.split)
  moreover have "queue_answers sat ?s"
    using assms(1,3) by (auto simp: queue_answers_def tail_after(6) split: option.split)
  moreover have "tail_agrees ?s (Some fd)"
    using assms(1,4) by (auto simp: tail_agrees_def tail_after split: option.split)
  moreover have "rows_cached ?s (Some fd)" using assms(6) by (simp add: rows_cached_def)
  ultimately show ?thesis using assms(5) by (simp add: open_tail_eq [OF assms(1,4)] list_inv_def)
qed

lemma mount_inv: "feed_inv sat ks (mount ks now f w)"
  by (rule feed_run_inv) (rule feed_run.Mount)

lemma run_effect_rows [simp]: "fs_rows (fd_state (run_effect ks now s)) = []"
  by (simp add: run_effect_def Let_def empty_state_def)

lemma mount_rows [simp]: "fs_rows (fd_state (mount ks now f w)) = []"
  by (simp add: mount_def)

lemma list_inv_mount:
  assumes "list_inv ks sat L" and "ll_feed L = None"
  shows "list_inv ks sat (list_mount ks now f w L)"
  using list_invD [OF assms(1)] assms(2) unfolding list_mount_def
  by (intro list_inv_open) (simp_all add: tail_agrees_def mount_inv)

text \<open>A restart of the effect: cleaned up, then opened again.\<close>

lemma list_inv_restart:
  assumes inv: "list_inv ks sat L" and fd: "ll_feed L = Some fd"
    and ok: "feed_inv sat ks fd'" and rows: "fs_rows (fd_state fd') = []"
  shows "list_inv ks sat (open_tail fd' (cleanup fd L))"
  using cleanup_stream [OF inv fd] ok rows by (intro list_inv_open) auto

lemma list_inv_render:
  assumes inv: "list_inv ks sat L" and fd: "ll_feed L = Some fd"
  shows "list_inv ks sat (list_render ks now f w fd L)"
proof (cases "feed_key ks f w = feed_key ks (fd_filters fd) (fd_window fd)")
  case True
  then have r: "render ks now f w fd = fd\<lparr>fd_filters := f, fd_window := w\<rparr>" by (simp add: render_def Let_def)
  have "feed_inv sat ks (render ks now f w fd)" using list_invD(6) [OF inv fd] by (rule feed_inv_render)
  with True inv show ?thesis
    by (simp add: list_render_def list_inv_def r fd tail_agrees_def rows_cached_def)
next
  case False
  have "feed_inv sat ks (render ks now f w fd)" using list_invD(6) [OF inv fd] by (rule feed_inv_render)
  with False inv fd show ?thesis
    by (simp add: list_render_def) (rule list_inv_restart, simp_all add: render_def Let_def)
qed

lemma list_inv_reload:
  assumes inv: "list_inv ks sat L" and fd: "ll_feed L = Some fd"
  shows "list_inv ks sat (list_reload ks now fd L)"
  unfolding list_reload_def
proof (rule list_inv_restart [OF inv fd])
  show "feed_inv sat ks (reload ks now fd)"
    using feed_inv_step [OF feed_step.Reload] list_invD(6) [OF inv fd] .
qed (simp add: reload_def)

lemma list_inv_unmount:
  assumes inv: "list_inv ks sat L" and fd: "ll_feed L = Some fd"
  shows "list_inv ks sat (list_unmount fd L)"
  using cleanup_stream [OF inv fd]
  by (simp add: list_unmount_def list_inv_def tail_agrees_def rows_cached_def)

text \<open>A page that arrives.\<close>

definition reply_rows :: "(string + receipt list \<times> int option) \<Rightarrow> receipt list" where
  "reply_rows reply = (case reply of Inl e \<Rightarrow> [] | Inr (rows, cb) \<Rightarrow> rows)"

lemma remember_rows_eq:
  "remember_rows reply s = s\<lparr>st_byId := rc.remember_all (reply_rows reply) (st_byId s)\<rparr>"
  by (cases reply) (auto simp: remember_rows_def reply_rows_def rc.remember_all_def)

lemma list_inv_page:
  assumes inv: "list_inv ks sat L" and fd: "ll_feed L = Some fd" and ok: "feed_inv sat ks fd'"
    and tl: "fd_tail fd' = fd_tail fd"
    and s: "s = ll_stream L\<lparr>st_byId := rc.remember_all rs (st_byId (ll_stream L))\<rparr>"
    and rows: "set (fs_rows (fd_state fd')) \<subseteq> set (fs_rows (fd_state fd)) \<union> set rs"
  shows "list_inv ks sat (L\<lparr>ll_feed := Some fd', ll_stream := s\<rparr>)"
proof -
  note D = list_invD [OF inv]
  have "flow_inv Api s" using D(1) by (simp add: s flow_inv_frame)
  moreover have "data_inv s" using D(2) by (simp add: s data_inv_def rc.wf_remember_all)
  moreover have "queue_answers sat s" using D(3) by (simp add: s queue_answers_def)
  moreover have "tail_agrees s (Some fd')"
    using D(4) tl tail_agrees_feed [of fd' fd] tail_agrees_stream [of s "ll_stream L"] by (simp add: s fd)
  moreover have "rows_cached s (Some fd')"
    using rows_cached_grow [OF D(5) [unfolded fd] cache_wf_stream [OF D(2)] _ rows] by (simp add: s)
  ultimately show ?thesis using ok by (simp add: list_inv_def)
qed

lemma first_reply_rows:
  "set (fs_rows (fd_state (first_reply q reply fd))) \<subseteq> set (fs_rows (fd_state fd)) \<union>
     set (if fq_effect q = fd_effect fd then reply_rows reply else [])"
  by (auto simp: first_reply_def update_if_def Let_def mergeNewer_set reply_rows_def split: sum.splits prod.splits if_splits)

lemma older_reply_rows:
  "set (fs_rows (fd_state (older_reply ks q reply fd))) \<subseteq> set (fs_rows (fd_state fd)) \<union> set (reply_rows reply)"
  by (auto simp: older_reply_def append_older_def update_if_def Let_def reply_rows_def split: sum.splits prod.splits if_splits)

lemma list_inv_first:
  assumes inv: "list_inv ks sat L" and fd: "ll_feed L = Some fd" and k: "fq_key q = feed_key ks f w"
    and ok: "page_ok sat (tail_query ks f) w reply"
  shows "list_inv ks sat (list_first q reply fd L)"
proof -
  let ?rs = "if fq_effect q = fd_effect fd then reply_rows reply else []"
  have s: "(if fq_effect q = fd_effect fd then remember_rows reply (ll_stream L) else ll_stream L) =
      ll_stream L\<lparr>st_byId := rc.remember_all ?rs (st_byId (ll_stream L))\<rparr>"
    by (simp add: remember_rows_eq rc.remember_all_def)
  show ?thesis unfolding list_first_def
    by (rule list_inv_page [OF inv fd feed_inv_first [OF list_invD(6) [OF inv fd] k ok] _ s first_reply_rows])
      (simp add: first_reply_def Let_def)
qed

lemma list_inv_older:
  assumes inv: "list_inv ks sat L" and fd: "ll_feed L = Some fd" and q: "q \<in> set (fd_older fd)"
    and k: "oq_key q = feed_key ks f w" and ok: "page_ok sat (tail_query ks f) (oq_window q) reply"
  shows "list_inv ks sat (list_older ks q reply fd L)"
  unfolding list_older_def
  by (rule list_inv_page [OF inv fd feed_inv_older [OF list_invD(6) [OF inv fd] q k ok] _ remember_rows_eq older_reply_rows])
    (simp add: older_reply_def Let_def split: sum.split)

text \<open>A change of the page that leaves its rows and its tailer.\<close>

lemma list_inv_same_rows:
  assumes inv: "list_inv ks sat L" and fd: "ll_feed L = Some fd" and ok: "feed_inv sat ks fd'"
    and tl: "fd_tail fd' = fd_tail fd" and rows: "fs_rows (fd_state fd') = fs_rows (fd_state fd)"
  shows "list_inv ks sat (L\<lparr>ll_feed := Some fd'\<rparr>)"
  using inv ok rows tail_agrees_feed [OF tl] by (simp add: list_inv_def fd rows_cached_def)

lemma hand_drop_frame [simp]:
  "fd_tail (hand_drop d fd) = fd_tail fd" "fs_rows (fd_state (hand_drop d fd)) = fs_rows (fd_state fd)"
  by (simp_all add: hand_drop_def on_drop_def split: prod.split option.split)

lemma feed_inv_drop: "feed_inv sat ks fd \<Longrightarrow> feed_inv sat ks (hand_drop d fd)"
  using feed_inv_step [OF feed_step.Drop] by (auto simp: hand_drop_def split: prod.split option.split)

lemma list_inv_dropped:
  assumes inv: "list_inv ks sat L" and es: "st_es (ll_stream L) \<noteq> None"
  shows "list_inv ks sat (on_stream (on_dropped n) L)"
proof -
  note D = list_invD [OF inv]
  let ?s = "on_dropped n (ll_stream L)"
  have frame: "st_delivered ?s = st_delivered (ll_stream L)" "st_queue ?s = st_queue (ll_stream L)"
    "st_tailer ?s = st_tailer (ll_stream L)" "st_tailQuery ?s = st_tailQuery (ll_stream L)"
    "st_byId ?s = st_byId (ll_stream L)"
    by (simp_all add: on_dropped_def split: option.split)
  have step: "stream_step Api (ll_stream L) ?s" using es by (rule stream_step.Dropped)
  obtain ds where ds: "on_stream (on_dropped n) L = L\<lparr>ll_stream := ?s, ll_feed := map_option (fold hand_drop ds) (ll_feed L)\<rparr>"
    by (cases "ll_feed L") (simp_all add: on_stream_def Let_def frame(1))
  have same: "feed_inv sat ks fd \<Longrightarrow> feed_inv sat ks (fold hand_drop ds fd)"
    "fd_tail (fold hand_drop ds fd) = fd_tail fd" "fs_rows (fd_state (fold hand_drop ds fd)) = fs_rows (fd_state fd)"
    for ds fd by (induction ds arbitrary: fd) (auto intro: feed_inv_drop)
  have "list_inv ks sat (L\<lparr>ll_stream := ?s\<rparr>)"
    using D inv flow_inv_step [OF step D(1)] data_inv_step [OF step D(2)] frame
    by (simp add: list_inv_def queue_answers_def tail_agrees_stream [OF frame(3,4)] rows_cached_def split: option.splits)
  then show ?thesis
    unfolding ds using same tail_agrees_feed [OF same(2)]
    by (cases "ll_feed L") (simp_all add: list_inv_def rows_cached_def)
qed

lemma list_inv_subscribe:
  assumes inv: "list_inv ks sat L"
  shows "list_inv ks sat (on_stream (start Api) L)"
proof -
  note D = list_invD [OF inv]
  let ?s = "ll_stream L"
  have quiet: "st_started ?s \<or> st_tailer ?s = None \<and> st_queue ?s = []" using D(1) by (auto simp: flow_inv_def)
  then have del: "st_delivered (start Api ?s) = st_delivered ?s"
    by (auto simp: start_def Let_def connect_delivered)
  show ?thesis
    by (rule list_inv_quiet [where op = "start Api" and rs = "if st_started ?s then [] else map snd (st_queue ?s)", OF inv stream_step.Subscribe del start_drops])
      (use D(3) in \<open>simp_all add: start_def Let_def queue_answers_def rc.remember_all_def\<close>)
qed

lemma list_inv_microtask:
  assumes inv: "list_inv ks sat L" and m: "0 < st_microtasks (ll_stream L)"
  shows "list_inv ks sat (on_stream microtask L)"
proof -
  note D = list_invD [OF inv]
  let ?s = "ll_stream L"
  show ?thesis
    by (rule list_inv_quiet [where op = microtask and rs = "if st_tailer ?s \<noteq> None \<or> st_query ?s = [] then [] else map snd (st_queue ?s)",
          OF inv stream_step.Microtask [OF m] microtask_delivered microtask_drops])
      (use D(3) in \<open>auto simp: microtask_def Let_def queue_answers_def rc.remember_all_def\<close>)
qed

lemma list_inv_receipt:
  assumes inv: "list_inv ks sat L" and es: "st_es (ll_stream L) = Some q" and r: "sat q r"
  shows "list_inv ks sat (on_stream (on_receipt r) L)"
proof -
  note D = list_invD [OF inv]
  have "st_es (ll_stream L) \<noteq> None" using es by simp
  from stream_step.Receipt [OF this] show ?thesis
    by (rule list_inv_quiet [where op = "on_receipt r" and rs = "[]", OF inv])
      (use D(3) es r in \<open>auto simp: on_receipt_def queue_answers_def rc.remember_all_def\<close>)
qed

lemma list_inv_sampling:
  assumes inv: "list_inv ks sat L" and es: "st_es (ll_stream L) \<noteq> None"
  shows "list_inv ks sat (on_stream (on_sampling n) L)"
proof -
  note D = list_invD [OF inv]
  have "st_drops (setSampling m s) = st_drops s" for m s by (simp add: setSampling_def)
  with stream_step.Sampling [OF es] show ?thesis
    by (intro list_inv_quiet [where op = "on_sampling n" and rs = "[]", OF inv])
      (use D(3) in \<open>auto simp: on_sampling_def queue_answers_def rc.remember_all_def\<close>)
qed

lemma list_inv_remember:
  assumes inv: "list_inv ks sat L"
  shows "list_inv ks sat (on_stream (\<lambda>s. s\<lparr>st_byId := remember r (st_byId s)\<rparr>) L)"
  by (rule list_inv_quiet [where op = "\<lambda>s. s\<lparr>st_byId := remember r (st_byId s)\<rparr>" and rs = "[r]", OF inv stream_step.Remember])
    (use list_invD(3) [OF inv] in \<open>simp_all add: queue_answers_def rc.remember_all_def\<close>)

lemma list_inv_loadOlder:
  assumes inv: "list_inv ks sat L" and fd: "ll_feed L = Some fd"
  shows "list_inv ks sat (L\<lparr>ll_feed := Some (loadOlder ks fd)\<rparr>)"
  by (rule list_inv_same_rows [OF inv fd feed_inv_loadOlder [OF list_invD(6) [OF inv fd]]])
    (simp_all add: loadOlder_def Let_def split: option.split)

lemma list_inv_sampled:
  assumes inv: "list_inv ks sat L" and fd: "ll_feed L = Some fd"
  shows "list_inv ks sat (L\<lparr>ll_feed := Some (note_sampling ks n fd)\<rparr>)"
  by (rule list_inv_same_rows [OF inv fd feed_inv_step [OF feed_step.Sampled list_invD(6) [OF inv fd]]])
    (simp_all add: note_sampling_def split: option.split)

lemma list_inv_step: "list_step ks sat L L' \<Longrightarrow> list_inv ks sat L \<Longrightarrow> list_inv ks sat L'"
  by (induction rule: list_step.induct)
    (blast intro: list_inv_subscribe list_inv_microtask list_inv_flush list_inv_receipt list_inv_dropped list_inv_sampling
      list_inv_remember list_inv_mount list_inv_render list_inv_reload list_inv_unmount list_inv_first list_inv_older
      list_inv_loadOlder list_inv_sampled)+

lemma list_run_inv: "list_run ks sat seed L \<Longrightarrow> length seed \<le> ROWS_CAP \<Longrightarrow> list_inv ks sat L"
  by (induction rule: list_run.induct) (blast intro: list_init_inv list_inv_step)+

section \<open>What follows for the reader\<close>

lemmas list_runD = list_run_inv [THEN list_invD(1)] list_run_inv [THEN list_invD(2)] list_run_inv [THEN list_invD(4)]
  list_run_inv [THEN list_invD(5)] list_run_inv [THEN list_invD(6)]

text \<open>The list has distinct receipts that answer the filters, whatever the stream and the pages brought.\<close>

lemma list_rows_answer:
  assumes "list_run ks sat seed L" and "length seed \<le> ROWS_CAP" and "ll_feed L = Some fd"
  shows "distinct (map rc_id (fs_rows (current ks fd)))"
    and "r \<in> set (fs_rows (current ks fd)) \<Longrightarrow> sat (tail_query ks (fd_filters fd)) r \<and> in_window (fd_window fd) r"
  using list_runD(5) [OF assms] by (simp_all add: feed_inv_def current_def rows_ok_def)

text \<open>The one connection of the tab carries the filters of the list that is open.\<close>

lemma connection_of_list:
  assumes "list_run ks sat seed L" and "length seed \<le> ROWS_CAP" and "ll_feed L = Some fd" and "fd_tail fd \<noteq> None"
  shows "st_es (ll_stream L) = Some (tail_query ks (fd_filters fd)) \<and> st_tailer (ll_stream L) = Some (fd_effect fd)"
proof -
  from list_runD(5) [OF assms(1-3)] assms(4)
  have t: "fd_tail fd = Some (fd_effect fd, feed_key ks (fd_filters fd) (fd_window fd), fd_window fd, tail_query ks (fd_filters fd))"
    by (simp add: feed_inv_def)
  from list_runD(3) [OF assms(1,2)] t
  have s: "st_tailer (ll_stream L) = Some (fd_effect fd)" "st_tailQuery (ll_stream L) = tail_query ks (fd_filters fd)"
    by (simp_all add: tail_agrees_def assms(3))
  with list_runD(1) [OF assms(1,2)] show ?thesis by (auto simp: flow_inv_def)
qed

lemma no_tailer_of_list:
  assumes "list_run ks sat seed L" and "length seed \<le> ROWS_CAP" and "ll_feed L = None"
    and "st_microtasks (ll_stream L) = 0" and "st_started (ll_stream L)"
  shows "st_es (ll_stream L) = Some []"
  using list_runD(1,3) [OF assms(1,2)] assms(3-5) by (auto simp: tail_agrees_def flow_inv_def)

text \<open>New filters cost one new connection, and none when they ask for the same receipts; the queued microtask opens none.\<close>

lemma untail_opened [simp]: "st_opened (untail t s) = st_opened s"
  by (simp add: untail_def Let_def)

lemma untail_query [simp]: "st_query (untail t s) = st_query s" "st_started (untail t s) = st_started s"
  by (simp_all add: untail_def Let_def)

lemma tail_opened:
  "st_started s \<Longrightarrow> st_opened (tail Api q t s) = st_opened s @ (if q = st_query s then [] else [q])"
  by (simp add: tail_def start_def Let_def)

lemma microtask_opened: "st_tailer s \<noteq> None \<Longrightarrow> st_opened (microtask s) = st_opened s"
  by (simp add: microtask_def Let_def)

lemma cleanup_opened [simp]:
  "st_opened (ll_stream (cleanup fd L)) = st_opened (ll_stream L)" "st_query (ll_stream (cleanup fd L)) = st_query (ll_stream L)"
  "st_started (ll_stream (cleanup fd L)) = st_started (ll_stream L)"
  by (simp_all add: cleanup_def split: option.split)

lemma open_tail_feed:
  assumes "list_inv ks sat L" and "ll_feed L = Some fd"
  shows "ll_feed (open_tail fd' (cleanup fd L)) = Some fd'"
    "fd_tail fd' = Some (e, k, w, q) \<Longrightarrow> ll_stream (open_tail fd' (cleanup fd L)) = tail Api q e (ll_stream (cleanup fd L))"
  by (simp_all add: open_tail_eq [OF cleanup_stream(1,4) [OF assms]])

lemma render_tail:
  "fd_tail (render ks now f w fd) \<noteq> None \<Longrightarrow> feed_key ks f w \<noteq> feed_key ks (fd_filters fd) (fd_window fd) \<Longrightarrow>
     \<exists>e k. fd_tail (render ks now f w fd) = Some (e, k, w, tail_query ks f)"
  by (simp add: render_def run_effect_def Let_def split: if_splits)

lemma reconnect_once:
  assumes run: "list_run ks sat seed L" and cap: "length seed \<le> ROWS_CAP" and fd: "ll_feed L = Some fd"
    and tl: "fd_tail fd \<noteq> None" and tl': "fd_tail (render ks now f w fd) \<noteq> None"
  shows "st_opened (ll_stream (list_render ks now f w fd L)) = st_opened (ll_stream L) @
      (if tail_query ks f = tail_query ks (fd_filters fd) then [] else [tail_query ks f])"
    and "st_opened (microtask (ll_stream (list_render ks now f w fd L))) = st_opened (ll_stream (list_render ks now f w fd L))"
proof -
  let ?L = "list_render ks now f w fd L"
  have run': "list_run ks sat seed ?L" using run list_step.Render [OF fd] by (rule list_run.Step)
  have inv: "list_inv ks sat L" using list_run_inv [OF run cap] .
  have fd': "ll_feed ?L = Some (render ks now f w fd)"
    by (simp add: list_render_def open_tail_feed [OF inv fd])
  from connection_of_list [OF run' cap fd' tl'] show
    "st_opened (microtask (ll_stream ?L)) = st_opened (ll_stream ?L)" by (intro microtask_opened) simp
  have st: "st_started (ll_stream L)" "st_query (ll_stream L) = tail_query ks (fd_filters fd)"
    using connection_of_list [OF run cap fd tl] list_invD(1) [OF inv] by (auto simp: flow_inv_def)
  show "st_opened (ll_stream ?L) = st_opened (ll_stream L) @
      (if tail_query ks f = tail_query ks (fd_filters fd) then [] else [tail_query ks f])"
  proof (cases "feed_key ks f w = feed_key ks (fd_filters fd) (fd_window fd)")
    case True
    with feed_key_inj [OF True] show ?thesis by (simp add: list_render_def)
  next
    case False
    from render_tail [OF tl' False] obtain e k where t: "fd_tail (render ks now f w fd) = Some (e, k, w, tail_query ks f)" by blast
    have "ll_stream ?L = tail Api (tail_query ks f) e (ll_stream (cleanup fd L))"
      using open_tail_feed(2) [OF inv fd t] False by (simp add: list_render_def)
    then show ?thesis using st by (simp add: tail_opened)
  qed
qed

text \<open>
  What arrived on the connection is shown when the batch is applied: of each receipt in the window a copy, as long as
  the list has room.
\<close>

lemma live_new_length: "length (live_new rows batch) \<le> length batch"
  using order_trans [OF length_filter_le [of "\<lambda>p. fst p \<notin> rc_id ` set rows" "updates_of batch"],
    of "length batch"] length_om_of [of "map (\<lambda>r. (rc_id r, r)) batch"]
  by (simp add: live_new_def updates_of_def om_values_def)

lemma applyLive_room:
  assumes "distinct (map rc_id rows)" and "length rows + length batch \<le> MAX_ROWS"
  shows "applyLive rows batch = live_new rows batch @ map (newest batch) rows"
proof (cases "batch = []")
  case True
  then show ?thesis using live_new_subset [of rows batch] by (simp add: applyLive_def newest_def [abs_def])
next
  case False
  have "length (live_new rows batch @ map (newest batch) rows) \<le> MAX_ROWS"
    using assms(2) live_new_length [of rows batch] by simp
  with False show ?thesis by (simp only: applyLive_eq [OF assms(1)] if_False take_all)
qed

lemma applyLive_shows:
  assumes "distinct (map rc_id rows)" and "r \<in> set batch" and "length rows + length batch \<le> MAX_ROWS"
  shows "\<exists>r' \<in> set (applyLive rows batch). rc_id r' = rc_id r \<and> index_by rc_id batch (rc_id r) = Some r'"
proof -
  have "\<exists>r'. index_by rc_id batch (rc_id r) = Some r'"
    using assms(2) by (induction batch) (auto simp: index_by_Cons split: option.split)
  then obtain r' where r': "index_by rc_id batch (rc_id r) = Some r'" ..
  then have id: "rc_id r' = rc_id r" by (auto dest: index_by_Some)
  have "applyLive rows batch = live_new rows batch @ map (newest batch) rows"
    using applyLive_room [OF assms(1,3)] .
  moreover have "r' \<in> set (live_new rows batch) \<union> newest batch ` set rows"
  proof (cases "rc_id r \<in> rc_id ` set rows")
    case True
    then obtain x where "x \<in> set rows" "rc_id x = rc_id r" by auto
    moreover from this have "newest batch x = r'" by (simp add: newest_def r')
    ultimately show ?thesis by blast
  qed (simp add: set_live_new id r')
  ultimately show ?thesis using id r' by auto
qed

lemma flush_shows:
  assumes run: "list_run ks sat seed L" and cap: "length seed \<le> ROWS_CAP" and fd: "ll_feed L = Some fd"
    and tl: "fd_tail fd \<noteq> None" and r: "(q, r) \<in> set (st_queue (ll_stream L))" and w: "in_window (fd_window fd) r"
    and room: "length (fs_rows (fd_state fd)) + length (st_queue (ll_stream L)) \<le> MAX_ROWS"
  shows "\<exists>fd'. ll_feed (on_stream flush L) = Some fd' \<and> (\<exists>r' \<in> set (fs_rows (current ks fd')). rc_id r' = rc_id r)"
proof -
  let ?s = "ll_stream L"
  let ?in = "filter (in_window (fd_window fd)) (map snd (st_queue ?s))"
  have inv: "feed_inv sat ks fd" using list_runD(5) [OF run cap fd] .
  with tl have t: "fd_tail fd = Some (fd_effect fd, feed_key ks (fd_filters fd) (fd_window fd), fd_window fd, tail_query ks (fd_filters fd))"
    by (auto simp: feed_inv_def)
  have s: "st_tailer ?s = Some (fd_effect fd)" using connection_of_list [OF run cap fd tl] by simp
  have ne: "st_queue ?s \<noteq> []" "?in \<noteq> []" "r \<in> set ?in" using r w by (force simp: filter_empty_conv)+
  let ?fd = "on_receipts (map snd (st_queue ?s)) fd"
  have L': "ll_feed (on_stream flush L) = Some ?fd"
    using ne(1) by (simp add: on_stream_def Let_def fd flush_delivered s hand_over_def t)
  have "length ?in \<le> length (st_queue ?s)"
    by (metis length_filter_le length_map)
  then have len: "length (fs_rows (fd_state fd)) + length ?in \<le> MAX_ROWS"
    using room by (meson add_le_mono le_refl order_trans)
  have d: "distinct (map rc_id (fs_rows (fd_state fd)))" using inv by (simp add: feed_inv_def rows_ok_def)
  have "fs_rows (current ks ?fd) = applyLive (fs_rows (fd_state fd)) ?in"
    using inv ne(2) by (simp add: on_receipts_def t Let_def update_if_def feed_inv_def current_def del: filter_map)
  with applyLive_shows [OF d ne(3) len] L' show ?thesis by auto
qed

text \<open>While the cache has never been full, clicking any row of the list opens a receipt of that id.\<close>

lemma row_opens:
  assumes run: "list_run ks sat seed L" and cap: "length seed \<le> ROWS_CAP" and fd: "ll_feed L = Some fd"
    and room: "length (st_byId (ll_stream L)) < BYID_CAP" and r: "r \<in> set (fs_rows (current ks fd))" and i: "rc_id r \<noteq> []"
  shows "\<exists>r'. drawer_receipt (ll_stream L) (openReceipt (rc_id r) a) = Some r' \<and> rc_id r' = rc_id r"
proof -
  have "current ks fd = fd_state fd" using list_runD(5) [OF run cap fd] by (simp add: feed_inv_def current_def)
  with list_runD(4) [OF run cap] r room obtain r' where r': "om_get (st_byId (ll_stream L)) (rc_id r) = Some r'"
    by (auto simp: rows_cached_def fd)
  moreover have "rc_id r' = rc_id r"
    using rc.lookup_key [OF cache_wf_stream [OF list_runD(2) [OF run cap]] r'] .
  ultimately show ?thesis by (simp add: drawer_open_close(1) [OF i])
qed

section \<open>An older copy in the drawer\<close>

text \<open>
  A page that answers late keeps out of the list what the stream has brought since, but it is remembered all the same:
  the cache then has the older copy, and the drawer shows that one.
\<close>

definition after_race :: "first_request \<Rightarrow> receipt \<Rightarrow> receipt \<Rightarrow> feed \<Rightarrow> live_list \<Rightarrow> live_list" where
  "after_race q old new fd L =
     list_first q (Inr ([old], None)) (on_receipts [new] fd) (on_stream flush (on_stream (on_receipt new) L))"

text \<open>The stream brings the newer copy into the empty list.\<close>

lemma arrival_in_empty:
  assumes run: "list_run ks sat seed L" and cap: "length seed \<le> ROWS_CAP" and fd: "ll_feed L = Some fd"
    and tl: "fd_tail fd \<noteq> None" and empty: "st_queue (ll_stream L) = []" "fs_rows (fd_state fd) = []"
    and new: "sat (tail_query ks (fd_filters fd)) new" "in_window (fd_window fd) new"
  defines "L' \<equiv> on_stream flush (on_stream (on_receipt new) L)"
  shows "list_run ks sat seed L'" "ll_feed L' = Some (on_receipts [new] fd)"
    "fs_rows (fd_state (on_receipts [new] fd)) = [new]" "fs_key (fd_state (on_receipts [new] fd)) = fs_key (fd_state fd)"
    "fd_first (on_receipts [new] fd) = fd_first fd" "fd_filters (on_receipts [new] fd) = fd_filters fd"
    "fd_window (on_receipts [new] fd) = fd_window fd" "fd_effect (on_receipts [new] fd) = fd_effect fd"
proof -
  note C = connection_of_list [OF run cap fd tl]
  let ?q = "tail_query ks (fd_filters fd)"
  have inv: "feed_inv sat ks fd" using list_runD(5) [OF run cap fd] .
  with tl have t: "fd_tail fd = Some (fd_effect fd, feed_key ks (fd_filters fd) (fd_window fd), fd_window fd, ?q)"
    by (auto simp: feed_inv_def)
  let ?L1 = "on_stream (on_receipt new) L"
  have L1: "?L1 = L\<lparr>ll_stream := (ll_stream L)\<lparr>st_queue := [(?q, new)], st_timer := True\<rparr>\<rparr>"
    using C by (subst on_stream_quiet) (simp_all add: on_receipt_def empty)
  have run1: "list_run ks sat seed ?L1"
    using run list_step.Receipt [of L ?q sat new ks] C new(1) by (blast intro: list_run.Step)
  then show "list_run ks sat seed L'"
    unfolding L'_def using list_step.Timer [of ?L1] by (rule list_run.Step) (simp add: L1)
  show "ll_feed L' = Some (on_receipts [new] fd)"
    using C unfolding L'_def L1 by (simp add: on_stream_def Let_def fd flush_delivered hand_over_def t)
  show "fd_first (on_receipts [new] fd) = fd_first fd" "fd_filters (on_receipts [new] fd) = fd_filters fd"
    "fd_window (on_receipts [new] fd) = fd_window fd" "fd_effect (on_receipts [new] fd) = fd_effect fd"
    by (simp_all add: on_receipts_def t Let_def)
  have "fs_key (fd_state fd) = Some (feed_key ks (fd_filters fd) (fd_window fd))" using inv by (simp add: feed_inv_def)
  then show "fs_rows (fd_state (on_receipts [new] fd)) = [new]" "fs_key (fd_state (on_receipts [new] fd)) = fs_key (fd_state fd)"
    using new(2)
    by (simp_all add: on_receipts_def t Let_def update_if_def empty applyLive_def om_of_def om_values_def MAX_ROWS_def)
qed

lemma late_page:
  assumes run: "list_run ks sat seed L" and cap: "length seed \<le> ROWS_CAP" and fd: "ll_feed L = Some fd"
    and tl: "fd_tail fd \<noteq> None" and empty: "st_queue (ll_stream L) = []" "fs_rows (fd_state fd) = []"
    and q: "q \<in> set (fd_first fd)" "fq_effect q = fd_effect fd"
    and new: "sat (tail_query ks (fd_filters fd)) new" "in_window (fd_window fd) new"
    and old: "sat (tail_query ks (fd_filters fd)) old" "in_window (fd_window fd) old" "rc_id old = rc_id new"
  shows "list_run ks sat seed (after_race q old new fd L)"
    and "\<exists>fd'. ll_feed (after_race q old new fd L) = Some fd' \<and> fs_rows (current ks fd') = [new]"
    and "om_get (st_byId (ll_stream (after_race q old new fd L))) (rc_id new) = Some old"
proof -
  note A = arrival_in_empty [OF run cap fd tl empty new]
  have key: "fq_key q = feed_key ks (fd_filters fd) (fd_window fd)" "fs_key (fd_state fd) = Some (feed_key ks (fd_filters fd) (fd_window fd))"
    using list_runD(5) [OF run cap fd] q by (auto simp: feed_inv_def)
  have page: "page_ok sat (tail_query ks (fd_filters fd)) (fd_window fd) (Inr ([old], None))" using old by (simp add: page_ok_def)
  show "list_run ks sat seed (after_race q old new fd L)"
    unfolding after_race_def
    by (rule list_run.Step [OF A(1) list_step.FirstReply [OF A(2) _ key(1) page]]) (simp add: A q)
  show "\<exists>fd'. ll_feed (after_race q old new fd L) = Some fd' \<and> fs_rows (current ks fd') = [new]"
    using A(3,4) key old(3) q
    by (simp add: after_race_def list_first_def first_reply_def update_if_def Let_def current_def A(5-8) mergeNewer_def)
  show "om_get (st_byId (ll_stream (after_race q old new fd L))) (rc_id new) = Some old"
    using rc.lookup_same [OF cache_wf_stream [OF list_runD(2) [OF A(1) cap]], of old] old(3) q
    by (simp add: after_race_def list_first_def A(8) remember_rows_eq reply_rows_def rc.remember_all_def)
qed

end
