(* ===== verification/StreamReaders.thy ===== *)
theory StreamReaders
  imports LiveList
begin

text \<open>
  What is on the screen: the components that read \<open>receiptStream\<close> (\<open>state/app-state.tsx\<close>) through
  \<open>useSyncExternalStore\<close>.  A reader renders when it is mounted, when the stream calls its listeners (\<open>emit\<close>, or the
  sampling listeners) and when the context of the app changes; between those it shows what it read last.  The tab is the
  Traffic list on the stream together with the app state and with what \<open>useReceipts\<close>, the reader of the sampling and
  the receipt drawer have rendered.
\<close>

section \<open>State and operations\<close>

text \<open>
  \<open>tb_rows\<close> is the last snapshot of \<open>useReceipts\<close>, \<open>tb_sampling\<close> that of \<open>getSampling\<close>, and \<open>tb_drawer\<close> the receipt that
  \<open>ReceiptDrawer\<close> found in the cache when it rendered last.
\<close>

record tab =
  tb_list :: live_list
  tb_app :: app
  tb_rows :: "receipt list"
  tb_sampling :: "sampling option"
  tb_drawer :: "receipt option"

definition render_readers :: "tab \<Rightarrow> tab" where
  "render_readers t =
     t\<lparr>tb_rows := st_rows (ll_stream (tb_list t)), tb_drawer := drawer_receipt (ll_stream (tb_list t)) (tb_app t)\<rparr>"

text \<open>\<open>subscribe\<close> and \<open>subscribeSampling\<close> keep apart who is told of what; nobody is told of what the stream remembers.\<close>

definition tell_readers :: "live_list \<Rightarrow> tab \<Rightarrow> tab" where
  "tell_readers L' t =
     (let s = ll_stream (tb_list t); s' = ll_stream L';
          t1 = t\<lparr>tb_list := L'\<rparr>;
          t2 = (if st_emits s' = st_emits s then t1 else render_readers t1)
      in if st_samplingEmits s' = st_samplingEmits s then t2 else t2\<lparr>tb_sampling := st_sampling s'\<rparr>)"

text \<open>A navigation, or any other change of what \<open>useApp\<close> returns.\<close>

definition change_app :: "app \<Rightarrow> tab \<Rightarrow> tab" where
  "change_app a t = render_readers (t\<lparr>tb_app := a\<rparr>)"

text \<open>The first render, before the effects that subscribe have run.\<close>

definition open_tab :: "receipt list \<Rightarrow> app \<Rightarrow> tab" where
  "open_tab seed a =
     \<lparr>tb_list = list_init seed, tb_app = a, tb_rows = seed, tb_sampling = None,
      tb_drawer = drawer_receipt (init_stream seed) a\<rparr>"

inductive tab_step :: "api_key list \<Rightarrow> (string \<Rightarrow> receipt \<Rightarrow> bool) \<Rightarrow> tab \<Rightarrow> tab \<Rightarrow> bool" for ks sat where
  ListStep: "list_step ks sat (tb_list t) L' \<Longrightarrow> tab_step ks sat t (tell_readers L' t)"
| AppStep: "tab_step ks sat t (change_app a t)"

inductive tab_run :: "api_key list \<Rightarrow> (string \<Rightarrow> receipt \<Rightarrow> bool) \<Rightarrow> receipt list \<Rightarrow> tab \<Rightarrow> bool" for ks sat seed where
  Load: "tab_run ks sat seed (open_tab seed a)"
| Step: "tab_run ks sat seed t \<Longrightarrow> tab_step ks sat t t' \<Longrightarrow> tab_run ks sat seed t'"

section \<open>Every change is told\<close>

text \<open>The stream never changes its rows or its sampling without calling their listeners.\<close>

definition told :: "stream \<Rightarrow> stream \<Rightarrow> bool" where
  "told s s' \<longleftrightarrow>
     st_emits s \<le> st_emits s' \<and> (st_emits s' = st_emits s \<longrightarrow> st_rows s' = st_rows s) \<and>
     st_samplingEmits s \<le> st_samplingEmits s' \<and> (st_samplingEmits s' = st_samplingEmits s \<longrightarrow> st_sampling s' = st_sampling s)"

lemma told_refl [simp]: "told s s"
  by (simp add: told_def)

lemma told_trans: "told s s' \<Longrightarrow> told s' s'' \<Longrightarrow> told s s''"
  by (auto simp: told_def)

lemma told_same:
  "st_rows s' = st_rows s \<Longrightarrow> st_emits s' = st_emits s \<Longrightarrow> st_sampling s' = st_sampling s \<Longrightarrow>
     st_samplingEmits s' = st_samplingEmits s \<Longrightarrow> told s s'"
  by (simp add: told_def)

lemma told_cong:
  "told s s' \<Longrightarrow> st_rows s'' = st_rows s' \<Longrightarrow> st_emits s'' = st_emits s' \<Longrightarrow> st_sampling s'' = st_sampling s' \<Longrightarrow>
     st_samplingEmits s'' = st_samplingEmits s' \<Longrightarrow> told s s''"
  by (simp add: told_def)

lemma told_setSampling: "told s (setSampling n s)"
  by (simp add: told_def setSampling_def)

lemma told_flush: "told s (flush s)"
  by (simp add: told_def)

lemma told_connect: "told s (connect s)"
proof -
  let ?f = "flush (s\<lparr>st_es := None\<rparr>)"
  let ?x = "?f\<lparr>st_es := Some (st_query ?f), st_opened := st_opened ?f @ [st_query ?f]\<rparr>"
  have c: "connect s = setSampling None ?x" by (simp only: connect_def Let_def)
  have "told s ?x" by (simp add: told_def)
  then show ?thesis unfolding c by (rule told_trans) (rule told_setSampling)
qed

lemma told_start: "told s (start Api s)"
  by (auto simp: start_def Let_def intro!: told_trans [OF _ told_connect] told_same)

lemma told_tail: "told s (tail Api q t s)"
proof -
  let ?x = "(flush s)\<lparr>st_tailer := Some t, st_tailQuery := q, st_query := q\<rparr>"
  have x: "told s ?x" by (simp add: told_def)
  have "tail Api q t s = (if st_started (flush s) \<and> q \<noteq> st_query (flush s) then connect ?x else start Api ?x)"
    by (simp only: tail_def Let_def simp_thms if_False)
  moreover have "told s (connect ?x)" using x told_connect by (rule told_trans)
  moreover have "told s (start Api ?x)" using x told_start by (rule told_trans)
  ultimately show ?thesis by presburger
qed

lemma told_untail: "told s (untail t s)"
  by (simp add: untail_def Let_def told_def)

lemma told_microtask: "told s (microtask s)"
  by (auto simp: microtask_def Let_def intro!: told_trans [OF _ told_connect] told_same)

lemmas told_ops = told_start told_microtask told_flush told_tail told_untail

lemma told_events:
  "told s (on_receipt r s)" "told s (on_dropped n s)" "told s (on_sampling m s)" "told s (s\<lparr>st_byId := b\<rparr>)"
  by (auto simp: on_receipt_def on_dropped_def on_sampling_def told_setSampling intro: told_same split: option.split)

lemma told_cleanup: "told (ll_stream L) (ll_stream (cleanup fd L))"
  by (auto simp: cleanup_def told_untail split: option.split)

lemma told_open: "told (ll_stream L) (ll_stream (open_tail fd L))"
  by (auto simp: open_tail_def Let_def told_tail split: option.split)

lemma told_remember: "told s (remember_rows reply s)"
  by (auto simp: remember_rows_def told_events split: sum.split)

lemma list_step_told: "list_step ks sat L L' \<Longrightarrow> told (ll_stream L) (ll_stream L')"
  by (induction rule: list_step.induct)
    (auto simp: list_mount_def list_render_def list_reload_def list_unmount_def list_first_def list_older_def
      told_ops told_events told_open told_cleanup told_remember intro: told_trans [OF told_cleanup told_open])

section \<open>What the readers show\<close>

definition readers_current :: "tab \<Rightarrow> bool" where
  "readers_current t \<longleftrightarrow>
     tb_rows t = st_rows (ll_stream (tb_list t)) \<and> tb_sampling t = st_sampling (ll_stream (tb_list t))"

text \<open>The drawer shows a receipt of the id that the URL names, or none.\<close>

definition drawer_named :: "tab \<Rightarrow> bool" where
  "drawer_named t \<longleftrightarrow> (\<forall>r. tb_drawer t = Some r \<longrightarrow> receiptId (tb_app t) = Some (rc_id r))"

lemma drawer_receipt_named:
  assumes "cache_wf (st_byId s)" and "drawer_receipt s a = Some r"
  shows "receiptId a = Some (rc_id r)"
proof -
  from assms(2) obtain i where i: "receiptId a = Some i" "om_get (st_byId s) i = Some r"
    by (auto simp: drawer_receipt_def set_string_def split: option.splits if_splits)
  with rc.lookup_key [OF assms(1)] show ?thesis by auto
qed

lemma tell_readers_frame [simp]:
  "tb_list (tell_readers L' t) = L'" "tb_app (tell_readers L' t) = tb_app t"
  "tb_list (render_readers t) = tb_list t" "tb_app (render_readers t) = tb_app t"
  "tb_list (change_app a t) = tb_list t" "tb_app (change_app a t) = a"
  by (simp_all add: tell_readers_def render_readers_def change_app_def Let_def)

lemma tab_run_list: "tab_run ks sat seed t \<Longrightarrow> list_run ks sat seed (tb_list t)"
proof (induction rule: tab_run.induct)
  case (Load a)
  show ?case by (simp add: open_tab_def list_run.Open)
next
  case (Step t t')
  from Step(2,3) show ?case by (cases rule: tab_step.cases) (auto intro: list_run.Step)
qed

lemma readers_current_tell:
  "readers_current t \<Longrightarrow> told (ll_stream (tb_list t)) (ll_stream L') \<Longrightarrow> readers_current (tell_readers L' t)"
  by (auto simp: readers_current_def tell_readers_def render_readers_def told_def Let_def)

lemma tab_run_current: "tab_run ks sat seed t \<Longrightarrow> readers_current t"
proof (induction rule: tab_run.induct)
  case (Load a)
  show ?case by (simp add: open_tab_def readers_current_def list_init_def init_stream_def)
next
  case (Step t t')
  from Step(2) show ?case
  proof (cases rule: tab_step.cases)
    case (ListStep L')
    then show ?thesis using readers_current_tell [OF Step(3) list_step_told] by simp
  next
    case (AppStep a)
    with Step(3) show ?thesis by (simp add: change_app_def render_readers_def readers_current_def)
  qed
qed

lemma drawer_named_render:
  "cache_wf (st_byId (ll_stream (tb_list t))) \<Longrightarrow> drawer_named (render_readers t)"
  by (simp add: drawer_named_def render_readers_def drawer_receipt_named)

lemma drawer_named_same: "tb_drawer t' = tb_drawer t \<Longrightarrow> tb_app t' = tb_app t \<Longrightarrow> drawer_named t \<Longrightarrow> drawer_named t'"
  by (simp add: drawer_named_def)

lemma tab_run_named:
  assumes "tab_run ks sat seed t" and cap: "length seed \<le> ROWS_CAP"
  shows "drawer_named t"
  using assms(1)
proof (induction rule: tab_run.induct)
  case (Load a)
  have "cache_wf (st_byId (init_stream seed))"
    using list_runD(2) [OF list_run.Open cap] by (simp add: list_init_def cache_wf_stream)
  then show ?case by (simp add: open_tab_def drawer_named_def drawer_receipt_named)
next
  case (Step t t')
  have wf: "cache_wf (st_byId (ll_stream (tb_list t')))"
    using cache_wf_stream [OF list_runD(2) [OF tab_run_list [OF tab_run.Step [OF Step(1,2)]] cap]] .
  from Step(2) show ?case
  proof (cases rule: tab_step.cases)
    case (ListStep L')
    have "drawer_named (render_readers (t\<lparr>tb_list := L'\<rparr>))" using wf ListStep by (intro drawer_named_render) simp
    with Step(3) show ?thesis unfolding ListStep(1)
      by (auto simp: tell_readers_def Let_def drawer_named_def)
  next
    case (AppStep a)
    with wf show ?thesis unfolding AppStep change_app_def by (intro drawer_named_render) simp
  qed
qed

text \<open>A burst costs one render: what arrives between two flushes calls no listener, and the flush calls them once.\<close>

lemma burst_emits: "st_emits (fold on_receipt rs s) = st_emits s"
  by (induction rs arbitrary: s) (simp_all add: on_receipt_def split: option.split)

lemma burst_queue: "st_es s = Some q \<Longrightarrow> st_queue (fold on_receipt rs s) = st_queue s @ map (Pair q) rs"
  by (induction rs arbitrary: s) (simp_all add: on_receipt_def)

lemma burst_renders_once:
  "st_es s = Some q \<Longrightarrow> rs \<noteq> [] \<Longrightarrow> st_emits (flush (fold on_receipt rs s)) = Suc (st_emits s)"
  by (simp add: burst_queue burst_emits)

section \<open>A page that the drawer is not told of\<close>

text \<open>
  The rows of a page are remembered without an \<open>emit\<close>.  When the page is opened with \<open>?receipt=\<close> of a receipt that was not
  loaded at the start, its own first page brings that receipt and the list shows it, but the drawer has rendered before
  and is not told: it still says that there is no such receipt.
\<close>

definition deep_link :: "api_key list \<Rightarrow> filters \<Rightarrow> traffic_window \<Rightarrow> receipt list \<Rightarrow> receipt \<Rightarrow> app \<Rightarrow> tab" where
  "deep_link ks f w seed r a =
     (let t = tell_readers (list_mount ks 5 f w (list_init seed)) (open_tab seed a); fd = mount ks 5 f w
      in tell_readers (list_first (hd (fd_first fd)) (Inr ([r], None)) fd (tb_list t)) t)"

lemma om_get_of_absent: "k \<notin> fst ` set ps \<Longrightarrow> om_get (om_of ps) k = None"
proof -
  assume "k \<notin> fst ` set ps"
  then have "om_get (fold (\<lambda>(k, v) m. om_set k v m) ps m) k = om_get m k" for m :: "'a omap"
    by (induction ps arbitrary: m) (auto simp: split_def)
  then show ?thesis by (simp add: om_of_def)
qed

lemma mount_first:
  "fd_first (mount ks now f w) = [hd (fd_first (mount ks now f w))]"
  "fq_effect (hd (fd_first (mount ks now f w))) = fd_effect (mount ks now f w)"
  "fq_key (hd (fd_first (mount ks now f w))) = feed_key ks f w"
  "fs_key (fd_state (mount ks now f w)) = Some (feed_key ks f w)"
  "fd_filters (mount ks now f w) = f" "fd_window (mount ks now f w) = w"
  by (simp_all add: mount_def run_effect_def Let_def empty_state_def)

lemma list_mount_quiet:
  "ll_feed (list_mount ks now f w (list_init seed)) = Some (mount ks now f w)"
  "st_emits (ll_stream (list_mount ks now f w (list_init seed))) = 0"
  "st_byId (ll_stream (list_mount ks now f w (list_init seed))) = st_byId (init_stream seed)"
  "st_rows (ll_stream (list_mount ks now f w (list_init seed))) = seed"
proof -
  have *: "open_tail fd (list_init seed) = (list_init seed)\<lparr>ll_feed := Some fd, ll_stream := (case fd_tail fd of
      None \<Rightarrow> init_stream seed | Some (e, k, w, q) \<Rightarrow> tail Api q e (init_stream seed))\<rparr>" for fd
    by (auto simp: open_tail_def Let_def on_stream_quiet tail_delivered list_init_def init_stream_def split: option.split)
  have "st_emits (tail Api q e (init_stream seed)) = 0" "st_byId (tail Api q e (init_stream seed)) = st_byId (init_stream seed)"
    "st_rows (tail Api q e (init_stream seed)) = seed" for q e
    by (simp_all add: tail_def start_def Let_def init_stream_def rc.remember_all_def)
  then show
    "ll_feed (list_mount ks now f w (list_init seed)) = Some (mount ks now f w)"
    "st_emits (ll_stream (list_mount ks now f w (list_init seed))) = 0"
    "st_byId (ll_stream (list_mount ks now f w (list_init seed))) = st_byId (init_stream seed)"
    "st_rows (ll_stream (list_mount ks now f w (list_init seed))) = seed"
    by (auto simp: list_mount_def * init_stream_def split: option.split)
qed

lemma deep_link_misses:
  assumes cap: "length seed \<le> ROWS_CAP" and a: "receiptId a = Some (rc_id r)" "rc_id r \<noteq> []"
    and new: "rc_id r \<notin> rc_id ` set seed" and r: "sat (tail_query ks f) r" "in_window w r"
  shows "tab_run ks sat seed (deep_link ks f w seed r a)"
    and "\<exists>fd. ll_feed (tb_list (deep_link ks f w seed r a)) = Some fd \<and> fs_rows (current ks fd) = [r]"
    and "drawer_receipt (ll_stream (tb_list (deep_link ks f w seed r a))) a = Some r"
    and "tb_drawer (deep_link ks f w seed r a) = None"
proof -
  let ?L1 = "list_mount ks 5 f w (list_init seed)" and ?fd = "mount ks 5 f w"
  let ?q = "hd (fd_first ?fd)"
  let ?L2 = "list_first ?q (Inr ([r], None)) ?fd ?L1"
  have dl: "deep_link ks f w seed r a = tell_readers ?L2 (tell_readers ?L1 (open_tab seed a))"
    by (simp add: deep_link_def Let_def)
  have run1: "tab_run ks sat seed (tell_readers ?L1 (open_tab seed a))"
    by (rule tab_run.Step [OF tab_run.Load tab_step.ListStep], unfold open_tab_def tab.simps, rule list_step.Mount)
      (simp add: list_init_def)
  have "list_step ks sat ?L1 ?L2"
    using r by (intro list_step.FirstReply [OF list_mount_quiet(1) _ mount_first(3)])
      (subst mount_first(1), simp_all add: page_ok_def)
  then show "tab_run ks sat seed (deep_link ks f w seed r a)"
    unfolding dl by (intro tab_run.Step [OF run1] tab_step.ListStep) simp
  show "\<exists>fd. ll_feed (tb_list (deep_link ks f w seed r a)) = Some fd \<and> fs_rows (current ks fd) = [r]"
    by (simp add: dl list_first_def first_reply_def mount_first(2-6) update_if_def current_def mergeNewer_def Let_def)
  have byId: "st_byId (ll_stream ?L2) = remember r (st_byId (init_stream seed))" "st_emits (ll_stream ?L2) = 0"
    by (simp_all add: list_first_def mount_first(2) remember_rows_def list_mount_quiet rc.remember_all_def)
  have wf: "cache_wf (st_byId (init_stream seed))"
    using list_runD(2) [OF list_run.Open cap] by (simp add: list_init_def cache_wf_stream)
  have "om_get (remember r (st_byId (init_stream seed))) (rc_id r) = Some r"
    using rc.lookup_same [OF wf, of r] .
  with a show "drawer_receipt (ll_stream (tb_list (deep_link ks f w seed r a))) a = Some r"
    by (simp add: dl drawer_receipt_def set_string_def byId)
  have "om_get (st_byId (init_stream seed)) (rc_id r) = None"
    using new by (simp add: init_stream_def om_get_of_absent image_image)
  then have none: "drawer_receipt (init_stream seed) a = None"
    using a by (simp add: drawer_receipt_def set_string_def)
  have quiet: "tb_drawer (tell_readers L t) = tb_drawer t" if "st_emits (ll_stream L) = st_emits (ll_stream (tb_list t))" for L t
    using that by (simp add: tell_readers_def Let_def)
  have "tb_drawer (tell_readers ?L1 (open_tab seed a)) = None"
    using none by (subst quiet) (simp_all only: list_mount_quiet, simp_all add: open_tab_def list_init_def init_stream_def)
  then show "tb_drawer (deep_link ks f w seed r a) = None"
    unfolding dl by (subst quiet) (simp_all add: byId(2) list_mount_quiet(2))
qed

end
