(* ===== verification/Calendar.thy ===== *)
theory Calendar
  imports Prelude
begin

text \<open>
  The part of ECMAScript's \<open>Date\<close> the console uses, in UTC: the day a year starts, \<open>Date.UTC\<close>,
  \<open>getUTCFullYear\<close> and \<open>getUTCMonth\<close>, as in the language's own definition, over integer milliseconds.
\<close>

definition DAY_MS :: int where "DAY_MS = 86400000"

definition day_from_year :: "int \<Rightarrow> int" where
  "day_from_year y = 365 * (y - 1970) + (y - 1969) div 4 - (y - 1901) div 100 + (y - 1601) div 400"

definition leap :: "int \<Rightarrow> bool" where
  "leap y \<longleftrightarrow> day_from_year (y + 1) - day_from_year y = 366"

text \<open>Days before a month (0 to 12) of a year.\<close>

definition days_before :: "bool \<Rightarrow> int \<Rightarrow> int" where
  "days_before lp m =
     (let k = (if lp then 1 else 0) in
      if m \<le> 0 then 0 else if m = 1 then 31 else if m = 2 then 59 + k else if m = 3 then 90 + k
      else if m = 4 then 120 + k else if m = 5 then 151 + k else if m = 6 then 181 + k
      else if m = 7 then 212 + k else if m = 8 then 243 + k else if m = 9 then 273 + k
      else if m = 10 then 304 + k else if m = 11 then 334 + k else 365 + k)"

text \<open>\<open>Date.UTC(y, m, d)\<close>: months out of range carry into the year.\<close>

definition date_utc :: "int \<Rightarrow> int \<Rightarrow> int \<Rightarrow> int" where
  "date_utc y m d =
     (let ym = y + m div 12
      in (day_from_year ym + days_before (leap ym) (m mod 12) + d - 1) * DAY_MS)"

lemma div_step: "0 < n \<Longrightarrow> (x + 1) div n - x div n = (if n dvd x + 1 then 1 else 0)" for x n :: int
proof -
  assume n: "0 < n"
  let ?q = "x div n" and ?r = "x mod n"
  have x: "x = n * ?q + ?r" and r: "0 \<le> ?r" "?r < n" using n by simp_all
  show ?thesis
  proof (cases "?r + 1 = n")
    case True
    have "n * (?q + 1) = n * ?q + n" by (simp add: algebra_simps)
    with True x have e: "x + 1 = n * (?q + 1)" by linarith
    then have "n dvd x + 1" by simp
    moreover have "(x + 1) div n = ?q + 1" using e n by simp
    ultimately show ?thesis by simp
  next
    case False
    with r have b: "0 \<le> ?r + 1" "?r + 1 < n" by auto
    have e: "x + 1 = n * ?q + (?r + 1)" using x by linarith
    have "(x + 1) div n = ?q" by (rule int_div_pos_eq [OF e b])
    moreover have "(x + 1) mod n = ?r + 1" by (rule int_mod_pos_eq [OF e b])
    moreover have "?r + 1 \<noteq> 0" using r by linarith
    ultimately show ?thesis by (simp add: dvd_eq_mod_eq_0)
  qed
qed

lemma year_days: "day_from_year (y + 1) - day_from_year y = 365 \<or> day_from_year (y + 1) - day_from_year y = 366"
proof -
  let ?a = "(y + 1 - 1969) div 4 - (y - 1969) div 4"
  let ?b = "(y + 1 - 1901) div 100 - (y - 1901) div 100"
  let ?c = "(y + 1 - 1601) div 400 - (y - 1601) div 400"
  have eq: "day_from_year (y + 1) - day_from_year y = 365 + ?a - ?b + ?c"
    by (simp add: day_from_year_def)
  have "?a = (if 4 dvd y - 1968 then 1 else 0)" "?b = (if 100 dvd y - 1900 then 1 else 0)"
    "?c = (if 400 dvd y - 1600 then 1 else 0)"
    using div_step [of 4 "y - 1969"] div_step [of 100 "y - 1901"] div_step [of 400 "y - 1601"]
    by (simp_all add: algebra_simps)
  moreover have "400 dvd y - 1600 \<Longrightarrow> 100 dvd y - 1900"
  proof -
    assume "400 dvd y - 1600"
    then obtain k where "y - 1600 = 400 * k" by (elim dvdE)
    then have "y - 1900 = 100 * (4 * k - 3)" by (simp add: algebra_simps)
    then show "100 dvd y - 1900" by simp
  qed
  moreover have "100 dvd y - 1900 \<Longrightarrow> 4 dvd y - 1968"
  proof -
    assume "100 dvd y - 1900"
    then obtain k where "y - 1900 = 100 * k" by (elim dvdE)
    then have "y - 1968 = 4 * (25 * k - 17)" by (simp add: algebra_simps)
    then show "4 dvd y - 1968" by simp
  qed
  ultimately show ?thesis unfolding eq by auto
qed

lemma leap_step: "day_from_year (y + 1) = day_from_year y + (if leap y then 366 else 365)"
  using year_days [of y] by (auto simp: leap_def)

lemma day_from_year_mono1: "day_from_year y < day_from_year (y + 1)"
  using year_days [of y] by auto

lemma day_from_year_upper: "1970 \<le> y \<Longrightarrow> day_from_year y \<le> 366 * (y - 1970)"
proof (induction y rule: int_ge_induct)
  case base
  show ?case by (simp add: day_from_year_def)
next
  case (step y)
  then show ?case using year_days [of y] by auto
qed

lemma day_from_year_lower: "y \<le> 1970 \<Longrightarrow> day_from_year y \<le> 365 * (y - 1970)"
proof (induction y rule: int_le_induct)
  case base
  show ?case by (simp add: day_from_year_def)
next
  case (step y)
  then show ?case using year_days [of "y - 1"] by auto
qed

text \<open>The year of a day: from a year known not to be later, forward.\<close>

function year_up :: "int \<Rightarrow> int \<Rightarrow> int" where
  "year_up day y = (if day_from_year (y + 1) \<le> day then year_up day (y + 1) else y)"
  by auto
termination
  by (relation "measure (\<lambda>(day, y). nat (day - day_from_year y))")
    (use day_from_year_mono1 in \<open>auto simp: zless_nat_eq_int_zless intro: order_less_le_trans\<close>)

declare year_up.simps [simp del]

definition year_of_day :: "int \<Rightarrow> int" where
  "year_of_day day = year_up day (1970 + (if day \<ge> 0 then day div 366 else day div 365))"

definition utc_full_year :: "int \<Rightarrow> int" where
  "utc_full_year t = year_of_day (t div DAY_MS)"

fun month_up :: "bool \<Rightarrow> int \<Rightarrow> nat \<Rightarrow> nat" where
  "month_up lp d 0 = 0"
| "month_up lp d (Suc m) = (if days_before lp (int (Suc m)) \<le> d then Suc m else month_up lp d m)"

definition utc_month :: "int \<Rightarrow> int" where
  "utc_month t =
     (let day = t div DAY_MS; y = year_of_day day
      in int (month_up (leap y) (day - day_from_year y) 11))"

definition utc_day_of_month :: "int \<Rightarrow> int" where
  "utc_day_of_month t =
     (let day = t div DAY_MS; y = year_of_day day
      in day - day_from_year y - days_before (leap y) (utc_month t) + 1)"

definition two_digits :: "int \<Rightarrow> string" where
  "two_digits n = pad_left 2 (CHR ''0'') (nat_str (nat n))"

text \<open>\<open>toISOString().slice(5, 10)\<close>.\<close>

definition iso_month_day :: "int \<Rightarrow> string" where
  "iso_month_day t = two_digits (utc_month t + 1) @ ''-'' @ two_digits (utc_day_of_month t)"

section \<open>Lemmas\<close>

lemma year_up_range: "day_from_year y \<le> day \<Longrightarrow>
    day_from_year (year_up day y) \<le> day \<and> day < day_from_year (year_up day y + 1)"
proof (induction day y rule: year_up.induct)
  case (1 day y)
  show ?case
  proof (cases "day_from_year (y + 1) \<le> day")
    case True
    with 1 show ?thesis by (simp add: year_up.simps [of day y])
  next
    case False
    with 1 show ?thesis by (simp add: year_up.simps [of day y])
  qed
qed

lemma year_of_day_range:
  "day_from_year (year_of_day day) \<le> day \<and> day < day_from_year (year_of_day day + 1)"
proof -
  have "day_from_year (1970 + (if day \<ge> 0 then day div 366 else day div 365)) \<le> day"
  proof (cases "day \<ge> 0")
    case True
    then have "day_from_year (1970 + day div 366) \<le> 366 * (day div 366)"
      using day_from_year_upper [of "1970 + day div 366"] by simp
    also have "\<dots> \<le> day" by simp
    finally show ?thesis using True by simp
  next
    case False
    then have "day_from_year (1970 + day div 365) \<le> 365 * (day div 365)"
      using day_from_year_lower [of "1970 + day div 365"] by simp
    also have "\<dots> \<le> day" by simp
    finally show ?thesis using False by simp
  qed
  then show ?thesis unfolding year_of_day_def by (rule year_up_range)
qed

lemma ms_of_day: "t div DAY_MS * DAY_MS \<le> t" "t < (t div DAY_MS + 1) * DAY_MS"
  by (simp_all add: DAY_MS_def)

lemma utc_full_year_range:
  "day_from_year (utc_full_year t) * DAY_MS \<le> t \<and> t < day_from_year (utc_full_year t + 1) * DAY_MS"
proof -
  let ?y = "utc_full_year t" and ?d = "t div DAY_MS"
  have y: "day_from_year ?y \<le> ?d" "?d + 1 \<le> day_from_year (?y + 1)"
    using year_of_day_range [of ?d] by (simp_all add: utc_full_year_def)
  have "day_from_year ?y * DAY_MS \<le> ?d * DAY_MS" "(?d + 1) * DAY_MS \<le> day_from_year (?y + 1) * DAY_MS"
    using y by (simp_all add: DAY_MS_def)
  with ms_of_day [of t] show ?thesis by linarith
qed

lemma days_before_month: "0 \<le> m \<Longrightarrow> m \<le> 11 \<Longrightarrow> days_before lp m + 28 \<le> days_before lp (m + 1)"
  by (auto simp: days_before_def Let_def) arith+

lemma days_before_max: "m \<le> 11 \<Longrightarrow> days_before lp m \<le> 334 + (if lp then 1 else 0)"
  by (auto simp: days_before_def Let_def) arith+

lemma days_before_year: "days_before lp 12 = 365 + (if lp then 1 else 0)"
  by (simp add: days_before_def Let_def)

text \<open>A day of a month stays inside its year.\<close>

lemma date_utc_in_year:
  assumes "0 \<le> m" "m \<le> 11" "1 \<le> d" "d \<le> 31"
  shows "day_from_year y * DAY_MS \<le> date_utc y m d \<and> date_utc y m d < day_from_year (y + 1) * DAY_MS"
proof -
  have m: "m div 12 = 0" "m mod 12 = m" using assms by auto
  have "0 \<le> days_before (leap y) m" by (simp add: days_before_def Let_def)
  moreover have "days_before (leap y) m + 31 \<le> (if leap y then 366 else 365)"
    using days_before_max [OF assms(2), of "leap y"] by (auto split: if_splits)
  ultimately show ?thesis
    using assms leap_step [of y] by (simp add: date_utc_def m Let_def DAY_MS_def split: if_splits)
qed

lemma month_up_range:
  "0 \<le> d \<Longrightarrow> d < days_before lp (int n + 1) \<Longrightarrow>
     days_before lp (int (month_up lp d n)) \<le> d \<and> d < days_before lp (int (month_up lp d n) + 1) \<and> month_up lp d n \<le> n"
proof (induction n)
  case 0
  then show ?case by (simp add: days_before_def)
next
  case (Suc n)
  show ?case
  proof (cases "days_before lp (int (Suc n)) \<le> d")
    case True
    with Suc.prems show ?thesis by simp
  next
    case False
    with Suc show ?thesis by (simp add: algebra_simps)
  qed
qed

text \<open>The month of an instant: its first millisecond is not later, the next month's is later.\<close>

lemma utc_month_range:
  "0 \<le> utc_month t \<and> utc_month t \<le> 11 \<and>
   date_utc (utc_full_year t) (utc_month t) 1 \<le> t \<and> t < date_utc (utc_full_year t) (utc_month t + 1) 1"
proof -
  let ?day = "t div DAY_MS"
  let ?y = "year_of_day ?day"
  let ?d = "?day - day_from_year ?y"
  let ?m = "month_up (leap ?y) ?d 11"
  have y: "day_from_year ?y \<le> ?day" "?day < day_from_year (?y + 1)" using year_of_day_range by simp_all
  have d: "0 \<le> ?d" "?d < days_before (leap ?y) (int 11 + 1)"
    using y leap_step [of ?y] by (auto simp: days_before_year split: if_splits)
  note r = month_up_range [OF d]
  have m: "utc_month t = int ?m" "utc_full_year t = ?y" by (simp_all add: utc_month_def utc_full_year_def Let_def)
  have lo: "date_utc ?y (int ?m) 1 = (day_from_year ?y + days_before (leap ?y) (int ?m)) * DAY_MS"
    using r by (simp add: date_utc_def Let_def)
  have hi: "date_utc ?y (int ?m + 1) 1 = (day_from_year ?y + days_before (leap ?y) (int ?m + 1)) * DAY_MS"
  proof (cases "?m = 11")
    case True
    have z: "days_before lp 0 = 0" for lp by (simp add: days_before_def)
    from True show ?thesis
      using leap_step [of ?y] by (simp add: date_utc_def z Let_def days_before_year)
  next
    case False
    with r have "int ?m + 1 < 12" by simp
    then show ?thesis by (simp add: date_utc_def Let_def)
  qed
  have "day_from_year ?y + days_before (leap ?y) (int ?m) \<le> ?day"
    "?day + 1 \<le> day_from_year ?y + days_before (leap ?y) (int ?m + 1)"
    using r by linarith+
  then have "date_utc ?y (int ?m) 1 \<le> ?day * DAY_MS" "(?day + 1) * DAY_MS \<le> date_utc ?y (int ?m + 1) 1"
    unfolding lo hi by (simp_all add: DAY_MS_def)
  with ms_of_day [of t] r show ?thesis unfolding m by linarith
qed

end
