(* ===== verification/Csv.thy ===== *)
theory Csv
  imports Catalog
begin

text \<open>
  \<open>lib/csv.ts\<close> of the usage console: the RFC 4180 writer and the spend export.  The specification
  is a reader of RFC 4180 text; the writer is proved to be its inverse on the cell texts.
\<close>

section \<open>The writer\<close>

text \<open>A cell: the numbers the console writes are integers (counts).\<close>

datatype cell = CText string | CNum int | CBool bool | CNull

definition formula_start :: "char \<Rightarrow> bool" where
  "formula_start c \<longleftrightarrow> c \<in> {CHR ''='', CHR ''+'', CHR ''-'', CHR ''@'', char_tab, char_cr}"

definition needs_quotes :: "string \<Rightarrow> bool" where
  "needs_quotes s \<longleftrightarrow> (\<exists>c \<in> set s. c \<in> {char_quot, CHR '','', char_lf, char_cr})"

fun double_quotes :: "string \<Rightarrow> string" where
  "double_quotes [] = []"
| "double_quotes (c # cs) = (if c = char_quot then [char_quot, char_quot] else [c]) @ double_quotes cs"

fun cell_text :: "cell \<Rightarrow> string" where
  "cell_text CNull = []"
| "cell_text (CNum i) = int_str i"
| "cell_text (CBool b) = bool_str b"
| "cell_text (CText s) =
     (case s of [] \<Rightarrow> [] | c # cs \<Rightarrow> if formula_start c then char_apos # s else s)"

definition quote_text :: "string \<Rightarrow> string" where
  "quote_text s = (if needs_quotes s then [char_quot] @ double_quotes s @ [char_quot] else s)"

definition csv_cell :: "cell \<Rightarrow> string" where
  "csv_cell v = quote_text (cell_text v)"

definition toCsv :: "cell list list \<Rightarrow> string" where
  "toCsv rows = join_str [char_lf] (map (\<lambda>r. join_str '','' (map csv_cell r)) rows) @ [char_lf]"

text \<open>The export of a spend breakdown.\<close>

definition dim_name :: "spend_dim \<Rightarrow> string" where
  "dim_name d = (case d of DTeam \<Rightarrow> ''team'' | DPerson \<Rightarrow> ''person'' | DProject \<Rightarrow> ''project''
     | DKey \<Rightarrow> ''key'' | DModel \<Rightarrow> ''model'' | DProvider \<Rightarrow> ''provider'')"

definition truthy :: "int option \<Rightarrow> bool" where
  "truthy n = (case n of None \<Rightarrow> False | Some i \<Rightarrow> i \<noteq> 0)"

definition spend_cell :: "spend_row \<Rightarrow> string" where
  "spend_cell r =
     (if truthy (sw_unpriced r) \<and> sw_spendUsd r = 0 then ''no price'' else to_fixed 2 (sw_spendUsd r))"

definition spend_csv_row :: "spend_row \<Rightarrow> cell list" where
  "spend_csv_row r =
     [CText (sw_label r),
      CText (case sw_sub r of None \<Rightarrow> [] | Some s \<Rightarrow> s),
      CText (spend_cell r),
      CText (to_fixed 2 (sw_prevSpendUsd r)),
      CNum (sw_requests r),
      CNum (case sw_unpriced r of None \<Rightarrow> 0 | Some n \<Rightarrow> n),
      CNum (sw_tokens r)]"

definition spend_csv_header :: "spend_dim \<Rightarrow> cell list" where
  "spend_csv_header d =
     [CText (dim_name d), CText ''detail'', CText ''spend_usd'', CText ''previous_spend_usd'',
      CText ''requests'', CText ''unpriced_requests'', CText ''tokens'']"

definition spendCsv :: "spend_view \<Rightarrow> string" where
  "spendCsv view = toCsv (spend_csv_header (sv_by view) # map spend_csv_row (sv_rows view))"

section \<open>The reader\<close>

datatype mode = FieldStart | InPlain | InQuoted | QuoteSeen

text \<open>Modes, the current field and the current row (both reversed), the text left.\<close>

fun csv_scan :: "mode \<Rightarrow> string \<Rightarrow> string list \<Rightarrow> string \<Rightarrow> string list list" where
  "csv_scan m f r [] = (if m = FieldStart \<and> r = [] then [] else [rev (rev f # r)])"
| "csv_scan InQuoted f r (c # cs) =
     (if c = char_quot then csv_scan QuoteSeen f r cs else csv_scan InQuoted (c # f) r cs)"
| "csv_scan m f r (c # cs) =
     (if c = CHR '','' then csv_scan FieldStart [] (rev f # r) cs
      else if c = char_lf then rev (rev f # r) # csv_scan FieldStart [] [] cs
      else if c = char_quot then csv_scan InQuoted (if m = QuoteSeen then c # f else f) r cs
      else csv_scan InPlain (c # f) r cs)"

definition csv_parse :: "string \<Rightarrow> string list list" where
  "csv_parse s = csv_scan FieldStart [] [] s"

section \<open>Round trip\<close>

definition csv_sep :: "char \<Rightarrow> bool" where
  "csv_sep c \<longleftrightarrow> c = CHR '','' \<or> c = char_lf"

lemma csv_chars_distinct [simp]:
  "char_quot \<noteq> CHR '',''" "CHR '','' \<noteq> char_quot" "char_lf \<noteq> CHR '',''" "CHR '','' \<noteq> char_lf"
  "char_lf \<noteq> char_quot" "char_quot \<noteq> char_lf" "char_cr \<noteq> char_lf" "char_cr \<noteq> char_quot"
  by (simp_all add: char_codes)

lemma scan_plain:
  "\<not> needs_quotes s \<Longrightarrow> csv_scan InPlain f r (s @ t) = csv_scan InPlain (rev s @ f) r t"
  by (induction s arbitrary: f) (auto simp: needs_quotes_def)

lemma scan_quoted: "csv_scan InQuoted f r (double_quotes s @ char_quot # t) =
    csv_scan QuoteSeen (rev s @ f) r t"
  if "t = [] \<or> hd t \<noteq> char_quot"
  by (induction s arbitrary: f) auto

lemma scan_end_field:
  "csv_sep c \<Longrightarrow> m \<noteq> InQuoted \<Longrightarrow> csv_scan m f r (c # t) =
     (if c = char_lf then rev (rev f # r) # csv_scan FieldStart [] [] t
      else csv_scan FieldStart [] (rev f # r) t)"
  by (cases m) (auto simp: csv_sep_def)

lemma scan_field:
  assumes "csv_sep c"
  shows "csv_scan FieldStart [] r (quote_text s @ c # t) =
     (if c = char_lf then rev (s # r) # csv_scan FieldStart [] [] t
      else csv_scan FieldStart [] (s # r) t)"
proof (cases "needs_quotes s")
  case True
  have "hd (c # t) \<noteq> char_quot" using assms by (auto simp: csv_sep_def)
  then have "csv_scan FieldStart [] r (quote_text s @ c # t) = csv_scan QuoteSeen (rev s) r (c # t)"
    using scan_quoted [of "c # t" "[]" r s] True by (simp add: quote_text_def)
  then show ?thesis using scan_end_field [OF assms, of QuoteSeen "rev s" r t] by simp
next
  case False
  show ?thesis
  proof (cases s)
    case Nil
    then show ?thesis
      using scan_end_field [OF assms, of FieldStart "[]" r t] False by (simp add: quote_text_def)
  next
    case (Cons d ds)
    with False have d: "\<not> needs_quotes ds" "d \<noteq> CHR '',''" "d \<noteq> char_lf" "d \<noteq> char_quot"
      by (auto simp: needs_quotes_def)
    then have "csv_scan FieldStart [] r (s @ c # t) = csv_scan InPlain (rev ds @ [d]) r (c # t)"
      using Cons scan_plain [of ds "[d]" r "c # t"] by simp
    then show ?thesis
      using scan_end_field [OF assms, of InPlain "rev ds @ [d]" r t] False Cons
      by (simp add: quote_text_def)
  qed
qed

lemma scan_row:
  "ss \<noteq> [] \<Longrightarrow> csv_scan FieldStart [] r (join_str '','' (map quote_text ss) @ char_lf # t) =
     rev (rev ss @ r) # csv_scan FieldStart [] [] t"
proof (induction ss arbitrary: r)
  case (Cons s ss)
  show ?case
  proof (cases "ss = []")
    case True
    then show ?thesis using scan_field [of char_lf r s t] by (simp add: csv_sep_def)
  next
    case False
    then have "join_str '','' (map quote_text (s # ss)) @ char_lf # t =
        quote_text s @ CHR '','' # (join_str '','' (map quote_text ss) @ char_lf # t)"
      by (simp add: join_str_Cons)
    then show ?thesis
      using scan_field [of "CHR '',''" r s] Cons.IH [OF False, of "s # r"]
      by (simp add: csv_sep_def)
  qed
qed simp

lemma scan_rows:
  "rows \<noteq> [] \<Longrightarrow> \<forall>ss \<in> set rows. ss \<noteq> [] \<Longrightarrow>
     csv_scan FieldStart [] [] (join_str [char_lf] (map (\<lambda>ss. join_str '','' (map quote_text ss)) rows) @ [char_lf])
       = rows"
proof (induction rows)
  case (Cons ss rows)
  then show ?case
    by (cases "rows = []") (simp_all add: join_str_Cons scan_row)
qed simp

lemma csv_parse_toCsv:
  "rows \<noteq> [] \<Longrightarrow> \<forall>r \<in> set rows. r \<noteq> [] \<Longrightarrow> csv_parse (toCsv rows) = map (map cell_text) rows"
proof -
  assume ne: "rows \<noteq> []" "\<forall>r \<in> set rows. r \<noteq> []"
  have "toCsv rows =
      join_str [char_lf] (map (\<lambda>ss. join_str '','' (map quote_text ss)) (map (map cell_text) rows)) @ [char_lf]"
    by (simp add: toCsv_def csv_cell_def [abs_def] o_def)
  with ne scan_rows [of "map (map cell_text) rows"] show ?thesis by (simp add: csv_parse_def)
qed

lemma cell_text_safe:
  "cell_text (CText s) \<noteq> [] \<Longrightarrow> \<not> formula_start (hd (cell_text (CText s)))"
  by (auto simp: formula_start_def char_codes split: list.splits)

lemma cell_text_recover:
  "cell_text (CText s) = s \<or> cell_text (CText s) = char_apos # s"
  by (auto split: list.splits)

end
