(* ===== verification/SpendData.thy ===== *)
theory SpendData
  imports Calendar Csv OrderedMap
begin

text \<open>
  \<open>pages/spend-data.ts\<close>: the mock-mode spend view, attributed to key and model cells.  The catalog's
  live bindings the module reads are the fields of one record.  Shares, amounts and requests are
  rationals; the fixtures price every model, so the division by the average cost of a request is not
  by zero there.
\<close>

section \<open>Dimensions and cells\<close>

definition spendDims :: "data_mode \<Rightarrow> (spend_dim \<times> string) list" where
  "spendDims mode =
     [(DTeam, ''Team'')] @ only_if (mode = Api) (DPerson, ''Person'')
     @ [(DProject, ''Project''), (DKey, ''Key''), (DModel, ''Model''), (DProvider, ''Provider'')]"

record spend_cell_rec =
  ce_team :: string
  ce_project :: string
  ce_projectId :: string
  ce_key :: string
  ce_keyId :: string
  ce_person :: string
  ce_model :: string
  ce_provider :: string
  ce_share :: rat
  ce_avgCost :: rat
  ce_p50 :: rat

record fixtures =
  fx_teams :: "team list"
  fx_keys :: "api_key list"
  fx_keyModels :: "(string \<times> string list) list"
  fx_models :: "mock_model list"
  fx_spendSeries :: "spend_point list"
  fx_now :: int

definition typical_in :: rat where "typical_in = 3200"
definition typical_out :: rat where "typical_out = 520"

definition avgCost :: "mock_model list \<Rightarrow> string \<Rightarrow> rat" where
  "avgCost ms m =
     (case index_by md_id ms m of
        None \<Rightarrow> 0
      | Some r \<Rightarrow> (typical_in * mm_inPerM r + typical_out * mm_outPerM r) / 1000000)"

definition p50ByModel :: "(string \<times> rat) list" where
  "p50ByModel = [(''gpt-5-mini'', 410), (''gpt-5.5'', 1140), (''claude-sonnet-5'', 980),
     (''claude-opus-4-1'', 3620), (''claude-haiku-4-5'', 520), (''llama-3.3-70b'', 240)]"

definition modelWeight :: "(string \<times> (string \<times> rat) list) list" where
  "modelWeight =
     [(''support'', [(''claude-sonnet-5'', 78/100), (''gpt-5-mini'', 22/100)]),
      (''agents'', [(''claude-sonnet-5'', 55/100), (''claude-opus-4-1'', 3/10), (''gpt-5.5'', 15/100)]),
      (''batch'', [(''claude-opus-4-1'', 62/100), (''gpt-5-mini'', 3/10), (''llama-3.3-70b'', 8/100)]),
      (''web'', [(''gpt-5-mini'', 64/100), (''claude-haiku-4-5'', 36/100)]),
      (''research'', [(''claude-opus-4-1'', 58/100), (''gpt-5.5'', 3/10), (''claude-sonnet-5'', 12/100)]),
      (''security'', [(''llama-3.3-70b'', 7/10), (''claude-haiku-4-5'', 3/10)])]"

text \<open>A missing table entry read as a number.\<close>

definition num_of :: "(string \<times> rat) list \<Rightarrow> string \<Rightarrow> rat" where
  "num_of t k = (case map_of t k of None \<Rightarrow> 0 | Some v \<Rightarrow> v)"

definition list_of :: "(string \<times> 'a list) list \<Rightarrow> string \<Rightarrow> 'a list" where
  "list_of t k = (case map_of t k of None \<Rightarrow> [] | Some v \<Rightarrow> v)"

text \<open>\<open>x || 1\<close> for a number.\<close>

definition or_one :: "rat \<Rightarrow> rat" where
  "or_one x = (if x = 0 then 1 else x)"

definition key_cells :: "fixtures \<Rightarrow> team \<Rightarrow> rat \<Rightarrow> api_key \<Rightarrow> spend_cell_rec list" where
  "key_cells fx t totalReq k =
     (let kShare = of_int (ak_requests24h k) / totalReq;
          weights = list_of modelWeight (tm_id t);
          allowed = filter (\<lambda>m. num_of weights m \<noteq> 0) (list_of (fx_keyModels fx) (ak_id k));
          wSum = or_one (sum_list (map (num_of weights) allowed))
      in map (\<lambda>m. \<lparr>ce_team = tm_id t, ce_project = ak_project k, ce_projectId = ak_projectId k,
           ce_key = ak_name k, ce_keyId = ak_id k, ce_person = ak_owner k, ce_model = m,
           ce_provider = (case index_by md_id (fx_models fx) m of None \<Rightarrow> [] | Some r \<Rightarrow> md_provider r),
           ce_share = kShare * (num_of weights m / wSum), ce_avgCost = avgCost (fx_models fx) m,
           ce_p50 = num_of p50ByModel m\<rparr>) allowed)"

definition team_cells :: "fixtures \<Rightarrow> team \<Rightarrow> spend_cell_rec list" where
  "team_cells fx t =
     (let teamKeys = filter (\<lambda>k. ak_team k = tm_id t) (fx_keys fx);
          totalReq = or_one (sum_list (map (\<lambda>k. of_int (ak_requests24h k)) teamKeys))
      in concat (map (key_cells fx t totalReq) teamKeys))"

definition cells :: "fixtures \<Rightarrow> spend_cell_rec list" where
  "cells fx = concat (map (team_cells fx) (fx_teams fx))"

definition cell_dim :: "spend_dim \<Rightarrow> spend_cell_rec \<Rightarrow> string" where
  "cell_dim d c = (case d of DTeam \<Rightarrow> ce_team c | DPerson \<Rightarrow> ce_person c | DProject \<Rightarrow> ce_project c
     | DKey \<Rightarrow> ce_key c | DModel \<Rightarrow> ce_model c | DProvider \<Rightarrow> ce_provider c)"

section \<open>Spend over a window\<close>

definition windowDays :: "(string \<times> rat) list" where
  "windowDays = [(''15m'', 1/96), (''1h'', 1/24), (''6h'', 1/4), (''24h'', 1), (''7d'', 7), (''30d'', 30)]"

definition trendDays :: "string \<Rightarrow> nat" where
  "trendDays rng = (if rng = ''30d'' then 30 else if rng = ''7d'' then 7 else 14)"

definition add_amounts :: "rat \<Rightarrow> amounts \<Rightarrow> rat omap \<Rightarrow> rat omap" where
  "add_amounts f vs out = fold (\<lambda>(team, v) m. om_set team (or_else (om_get m team) 0 + v * f) m) vs out"

text \<open>The loop of \<open>teamSpendOver\<close>, from the last day back, while some of the window remains.\<close>

fun spend_back :: "spend_point list \<Rightarrow> rat \<Rightarrow> rat omap \<Rightarrow> rat omap" where
  "spend_back [] remaining out = out"
| "spend_back (p # ps) remaining out =
     (if remaining > 0
      then (let f = min 1 remaining in spend_back ps (remaining - f) (add_amounts f (sp_byTeam p) out))
      else out)"

text \<open>\<open>slice(0, n)\<close>, where a negative \<open>n\<close> counts from the end.\<close>

definition slice_to :: "int \<Rightarrow> 'a list \<Rightarrow> 'a list" where
  "slice_to n xs = take (nat (if n < 0 then int (length xs) + n else n)) xs"

definition teamSpendOver :: "spend_point list \<Rightarrow> rat \<Rightarrow> int \<Rightarrow> rat omap" where
  "teamSpendOver series days offsetDays =
     spend_back (rev (slice_to (int (length series) - offsetDays) series)) days []"

section \<open>The breakdown\<close>

record breakdown_group =
  bg_id :: string
  bg_label :: string
  bg_sub :: "string option"
  bg_spend :: rat
  bg_prevSpend :: rat
  bg_requests :: rat
  bg_tokens :: rat
  bg_p50w :: rat

record breakdown_row =
  bk_id :: string
  bk_label :: string
  bk_sub :: "string option"
  bk_spend :: rat
  bk_prevSpend :: rat
  bk_requests :: int
  bk_tokens :: int
  bk_costPerRequest :: rat
  bk_p50 :: rat

definition find_team :: "team list \<Rightarrow> string \<Rightarrow> team option" where
  "find_team ts i = find (\<lambda>t. tm_id t = i) ts"

definition group_id :: "spend_dim \<Rightarrow> spend_cell_rec \<Rightarrow> string" where
  "group_id gdim c = (if gdim = DProject then ce_projectId c else cell_dim gdim c)"

definition new_group :: "team list \<Rightarrow> spend_dim \<Rightarrow> spend_cell_rec \<Rightarrow> breakdown_group" where
  "new_group ts gdim c =
     (let i = group_id gdim c in
      \<lparr>bg_id = i,
       bg_label = (if gdim = DTeam then (case find_team ts i of None \<Rightarrow> i | Some t \<Rightarrow> tm_name t)
                   else if gdim = DProject then ce_project c else i),
       bg_sub = (if gdim = DTeam then map_option tm_costCenter (find_team ts i)
                 else if gdim = DKey then Some (ce_team c @ '' / '' @ ce_project c)
                 else if gdim = DProject then Some (ce_team c)
                 else if gdim = DModel then Some (ce_provider c) else None),
       bg_spend = 0, bg_prevSpend = 0, bg_requests = 0, bg_tokens = 0, bg_p50w = 0\<rparr>)"

definition cell_amount :: "rat omap \<Rightarrow> spend_cell_rec \<Rightarrow> rat" where
  "cell_amount byTeam c = or_else (om_get byTeam (ce_team c)) 0 * ce_share c"

definition add_cell ::
  "team list \<Rightarrow> spend_dim \<Rightarrow> rat omap \<Rightarrow> rat omap \<Rightarrow> spend_cell_rec \<Rightarrow> breakdown_group omap \<Rightarrow> breakdown_group omap" where
  "add_cell ts gdim cur prev c groups =
     (let i = group_id gdim c;
          spend = cell_amount cur c;
          requests = spend / ce_avgCost c;
          g = or_else (om_get groups i) (new_group ts gdim c)
      in om_set i (g\<lparr>bg_spend := bg_spend g + spend,
                     bg_prevSpend := bg_prevSpend g + cell_amount prev c,
                     bg_requests := bg_requests g + requests,
                     bg_tokens := bg_tokens g + requests * (typical_in + typical_out),
                     bg_p50w := bg_p50w g + ce_p50 c * requests\<rparr>) groups)"

definition finish_group :: "breakdown_group \<Rightarrow> breakdown_row" where
  "finish_group g =
     \<lparr>bk_id = bg_id g, bk_label = bg_label g, bk_sub = bg_sub g, bk_spend = bg_spend g,
      bk_prevSpend = bg_prevSpend g, bk_requests = math_round (bg_requests g),
      bk_tokens = math_round (bg_tokens g),
      bk_costPerRequest = (if bg_requests g \<noteq> 0 then bg_spend g / bg_requests g else 0),
      bk_p50 = (if bg_requests g \<noteq> 0 then bg_p50w g / bg_requests g else 0)\<rparr>"

definition breakdown_over :: "fixtures \<Rightarrow> spend_dim \<Rightarrow> rat omap \<Rightarrow> rat omap \<Rightarrow> breakdown_row list" where
  "breakdown_over fx gdim cur prev =
     map finish_group (om_values (fold (add_cell (fx_teams fx) gdim cur prev) (cells fx) []))"

definition breakdown :: "fixtures \<Rightarrow> spend_dim \<Rightarrow> string \<Rightarrow> breakdown_row list" where
  "breakdown fx gdim rng =
     (let days = num_of windowDays rng
      in breakdown_over fx gdim (teamSpendOver (fx_spendSeries fx) days 0)
           (teamSpendOver (fx_spendSeries fx) days (max 1 \<lceil>days\<rceil>)))"

section \<open>The trend\<close>

definition day_parts :: "string \<Rightarrow> int \<times> int" where
  "day_parts day =
     (case split_chars (\<lambda>c. c = CHR ''-'') day of
        m # d # _ \<Rightarrow> (int (num_val m), int (num_val d))
      | [m] \<Rightarrow> (int (num_val m), 0)
      | [] \<Rightarrow> (0, 0))"

definition dayStart :: "int \<Rightarrow> string \<Rightarrow> int" where
  "dayStart now day =
     (let (m, d) = day_parts day;
          y = utc_full_year now;
          t = date_utc y (m - 1) d
      in if t > now then date_utc (y - 1) (m - 1) d else t)"

definition add_value :: "spend_dim \<Rightarrow> amounts \<Rightarrow> spend_cell_rec \<Rightarrow> rat omap \<Rightarrow> rat omap" where
  "add_value gdim byTeam c m =
     om_set (cell_dim gdim c)
       (or_else (om_get m (cell_dim gdim c)) 0 + num_of byTeam (ce_team c) * ce_share c) m"

definition trend_values :: "fixtures \<Rightarrow> spend_dim \<Rightarrow> spend_point \<Rightarrow> rat omap \<Rightarrow> rat omap" where
  "trend_values fx gdim p m = fold (add_value gdim (sp_byTeam p)) (cells fx) m"

definition spend_trend :: "fixtures \<Rightarrow> spend_dim \<Rightarrow> nat \<Rightarrow> trend_view" where
  "spend_trend fx gdim days =
     (let points = map (\<lambda>d. \<lparr>tp_t = dayStart (fx_now fx) (sp_day d), tp_values = trend_values fx gdim d []\<rparr>)
            (take_last days (fx_spendSeries fx));
          totals = fold (trend_values fx gdim) (fx_spendSeries fx) [];
          order = map fst (sort_cmp (cmp_desc snd) totals);
          labels = map (\<lambda>k. (k, if gdim = DTeam
             then (case find_team (fx_teams fx) k of None \<Rightarrow> k | Some t \<Rightarrow> tm_name t) else k)) order
      in \<lparr>tr_bucketMs = 86400000, tr_points = points, tr_order = order, tr_labels = labels, tr_unpriced = None\<rparr>)"

section \<open>The view\<close>

definition om_total :: "rat omap \<Rightarrow> rat" where
  "om_total m = sum_list (om_values m)"

definition day_total :: "spend_point \<Rightarrow> rat" where
  "day_total p = sum_list (map snd (sp_byTeam p))"

definition spend_period :: "fixtures \<Rightarrow> period_view" where
  "spend_period fx =
     (let t = fx_now fx;
          periodStart = date_utc (utc_full_year t) (utc_month t) 1;
          periodEnd = date_utc (utc_full_year t) (utc_month t + 1) 1;
          monthToDate = om_total (teamSpendOver (fx_spendSeries fx) (of_int (t - periodStart) / 86400000) 0);
          trailing = sum_list (map day_total (take_last 7 (fx_spendSeries fx))) / 7;
          remainingDays = of_int (periodEnd - t) / 86400000
      in \<lparr>pv_periodStart = periodStart, pv_periodEnd = periodEnd, pv_monthToDateUsd = monthToDate,
          pv_trailingDailyUsd = trailing, pv_trailingDays = 7, pv_remainingDays = remainingDays,
          pv_projectedUsd = monthToDate + trailing * remainingDays, pv_unpriced = None\<rparr>)"

definition spend_row_of :: "breakdown_row \<Rightarrow> spend_row" where
  "spend_row_of r =
     \<lparr>sw_id = bk_id r, sw_label = bk_label r, sw_sub = bk_sub r, sw_spendUsd = bk_spend r,
      sw_prevSpendUsd = bk_prevSpend r, sw_requests = bk_requests r, sw_tokens = bk_tokens r,
      sw_unpriced = None, sw_p50Ms = Some (bk_p50 r), sw_noDrill = False\<rparr>"

definition mockSpendView :: "fixtures \<Rightarrow> string \<Rightarrow> spend_dim \<Rightarrow> spend_view" where
  "mockSpendView fx rng gdim =
     (let t = fx_now fx; span = num_of windowDays rng * 86400000
      in \<lparr>sv_range = rng, sv_by = gdim, sv_from = of_int t - span, sv_to = t,
          sv_prevFrom = of_int t - 2 * span,
          sv_rows = map spend_row_of (breakdown fx gdim rng), sv_unpriced = None,
          sv_trend = spend_trend fx gdim (trendDays rng), sv_period = spend_period fx\<rparr>)"

definition keySpend24h :: "fixtures \<Rightarrow> string \<Rightarrow> rat" where
  "keySpend24h fx keyId =
     (let day = sp_byTeam (last (fx_spendSeries fx))
      in sum_list (map (\<lambda>c. num_of day (ce_team c) * ce_share c)
           (filter (\<lambda>c. ce_keyId c = keyId) (cells fx))))"

section \<open>Lemmas\<close>

text \<open>The breakdown and the trend are groupings of the cells.\<close>

definition add_cell_to :: "rat omap \<Rightarrow> rat omap \<Rightarrow> spend_cell_rec \<Rightarrow> breakdown_group \<Rightarrow> breakdown_group" where
  "add_cell_to cur prev c g =
     (let spend = cell_amount cur c; requests = spend / ce_avgCost c in
      g\<lparr>bg_spend := bg_spend g + spend, bg_prevSpend := bg_prevSpend g + cell_amount prev c,
        bg_requests := bg_requests g + requests, bg_tokens := bg_tokens g + requests * (typical_in + typical_out),
        bg_p50w := bg_p50w g + ce_p50 c * requests\<rparr>)"

interpretation bg: grouping "group_id d" "new_group ts d" "add_cell_to cur prev" bg_id bg_spend "cell_amount cur"
  for d ts cur prev
  by unfold_locales (simp_all add: new_group_def add_cell_to_def Let_def)

interpretation bp: grouping "group_id d" "new_group ts d" "add_cell_to cur prev" bg_id bg_prevSpend "cell_amount prev"
  for d ts cur prev
  by unfold_locales (simp_all add: new_group_def add_cell_to_def Let_def)

lemma add_cell_step: "add_cell ts d cur prev = bg.group_step d ts cur prev"
  by (intro ext) (simp add: add_cell_def bg.group_step_def add_cell_to_def Let_def)

lemma add_cell_step_prev: "add_cell ts d cur prev = bp.group_step d ts cur prev"
  by (intro ext) (simp add: add_cell_def bp.group_step_def add_cell_to_def Let_def)

lemma finish_group_fields [simp]:
  "bk_spend (finish_group g) = bg_spend g" "bk_prevSpend (finish_group g) = bg_prevSpend g" "bk_id (finish_group g) = bg_id g"
  by (simp_all add: finish_group_def)

text \<open>Whatever the dimension, the rows add up to the attributed spend of all cells.\<close>

lemma breakdown_over_total:
  "sum_list (map bk_spend (breakdown_over fx d cur prev)) = sum_list (map (cell_amount cur) (cells fx))"
  using bg.total_fold [of d "fx_teams fx" cur prev "cells fx" "[]"]
  by (simp add: breakdown_over_def add_cell_step sum_of_def om_values_def o_def)

lemma breakdown_over_prev:
  "sum_list (map bk_prevSpend (breakdown_over fx d cur prev)) = sum_list (map (cell_amount prev) (cells fx))"
  using bp.total_fold [of d "fx_teams fx" cur prev "cells fx" "[]"]
  by (simp add: breakdown_over_def add_cell_step_prev sum_of_def om_values_def o_def)

text \<open>A row holds exactly the cells of its group, and no two rows are of one group.\<close>

lemma breakdown_over_row:
  "row \<in> set (breakdown_over fx d cur prev) \<Longrightarrow>
     bk_spend row = sum_list (map (cell_amount cur) (filter (\<lambda>c. group_id d c = bk_id row) (cells fx))) \<and>
     bk_prevSpend row = sum_list (map (cell_amount prev) (filter (\<lambda>c. group_id d c = bk_id row) (cells fx)))"
  using bg.group_member [of _ d "fx_teams fx" cur prev "cells fx"] bp.group_member [of _ d "fx_teams fx" cur prev "cells fx"]
  by (auto simp: breakdown_over_def add_cell_step [symmetric] add_cell_step_prev [symmetric])

lemma breakdown_over_distinct: "distinct (map bk_id (breakdown_over fx d cur prev))"
  using bg.groups_distinct [of d "fx_teams fx" cur prev "cells fx"]
  by (simp add: breakdown_over_def add_cell_step o_def)

lemma breakdown_over_ids: "bk_id ` set (breakdown_over fx d cur prev) = group_id d ` set (cells fx)"
  using bg.groups_complete [of d "fx_teams fx" cur prev "cells fx"]
  by (simp add: breakdown_over_def add_cell_step image_image)

lemma add_value_total: "sum_of (\<lambda>x. x) (add_value gdim vs c m) = sum_of (\<lambda>x. x) m + num_of vs (ce_team c) * ce_share c"
  by (simp add: add_value_def sum_of_set split: option.split)

lemma trend_values_total:
  "om_total (trend_values fx gdim p []) = sum_list (map (\<lambda>c. num_of (sp_byTeam p) (ce_team c) * ce_share c) (cells fx))"
proof -
  have "sum_of (\<lambda>x. x) (fold (add_value gdim vs) cs m) =
      sum_of (\<lambda>x. x) m + sum_list (map (\<lambda>c. num_of vs (ce_team c) * ce_share c) cs)" for vs cs m
    by (induction cs arbitrary: m) (simp_all add: add_value_total)
  from this [of "sp_byTeam p" "cells fx" "[]"] show ?thesis
    by (simp add: trend_values_def om_total_def sum_of_def om_values_def)
qed

text \<open>A key's shares add up to its share of the requests, a team's to one.\<close>

lemma sum_list_div: "sum_list (map (\<lambda>x. c * (f x / d)) xs) = c * (sum_list (map f xs) / d)" for c d :: rat
  by (induction xs) (simp_all add: algebra_simps add_divide_distrib)

lemma key_cells_share:
  assumes "sum_list (map (num_of (list_of modelWeight (tm_id t)))
      (filter (\<lambda>m. num_of (list_of modelWeight (tm_id t)) m \<noteq> 0) (list_of (fx_keyModels fx) (ak_id k)))) \<noteq> 0"
  shows "sum_list (map ce_share (key_cells fx t tot k)) = of_int (ak_requests24h k) / tot"
  unfolding key_cells_def Let_def map_map o_def spend_cell_rec.select_convs sum_list_div
  using assms by (simp add: or_one_def)

definition weighted :: "fixtures \<Rightarrow> team \<Rightarrow> api_key \<Rightarrow> bool" where
  "weighted fx t k \<longleftrightarrow> sum_list (map (num_of (list_of modelWeight (tm_id t)))
      (filter (\<lambda>m. num_of (list_of modelWeight (tm_id t)) m \<noteq> 0) (list_of (fx_keyModels fx) (ak_id k)))) \<noteq> 0"

lemma team_cells_share:
  assumes "\<forall>k \<in> set (fx_keys fx). ak_team k = tm_id t \<longrightarrow> weighted fx t k"
    and "sum_list (map (\<lambda>k. of_int (ak_requests24h k)) (filter (\<lambda>k. ak_team k = tm_id t) (fx_keys fx))) \<noteq> (0::rat)"
  shows "sum_list (map ce_share (team_cells fx t)) = 1"
proof -
  let ?ks = "filter (\<lambda>k. ak_team k = tm_id t) (fx_keys fx)"
  let ?tot = "sum_list (map (\<lambda>k. of_int (ak_requests24h k)) ?ks) :: rat"
  have "sum_list (map ce_share (concat (map (key_cells fx t ?tot) ks))) =
      sum_list (map (\<lambda>k. of_int (ak_requests24h k) / ?tot) ks)" if "set ks \<subseteq> set ?ks" for ks
    using that assms(1)
    by (induction ks) (auto simp: key_cells_share weighted_def)
  from this [of ?ks] have "sum_list (map ce_share (concat (map (key_cells fx t ?tot) ?ks))) =
      sum_list (map (\<lambda>k. 1 * (of_int (ak_requests24h k) / ?tot)) ?ks)" by simp
  also have "\<dots> = 1 * (?tot / ?tot)" by (rule sum_list_div)
  finally show ?thesis using assms(2) by (simp add: team_cells_def Let_def or_one_def)
qed

text \<open>A series day is placed in the past, less than 366 days ago.\<close>

lemma dayStart_past:
  assumes "day_parts day = (m, d)" and "1 \<le> m" "m \<le> 12" "1 \<le> d" "d \<le> 31"
  shows "dayStart now day \<le> now"
proof -
  let ?y = "utc_full_year now"
  have "date_utc (?y - 1) (m - 1) d < day_from_year (?y - 1 + 1) * DAY_MS"
    using assms by (intro date_utc_in_year [THEN conjunct2]) auto
  also have "\<dots> \<le> now" using utc_full_year_range [of now] by simp
  finally show ?thesis using assms(1) by (auto simp: dayStart_def Let_def)
qed

text \<open>The billing period contains the present.\<close>

lemma spend_period_now:
  "pv_periodStart (spend_period fx) \<le> fx_now fx \<and> fx_now fx < pv_periodEnd (spend_period fx)
     \<and> 0 < pv_remainingDays (spend_period fx)"
  using utc_month_range [of "fx_now fx"] by (simp add: spend_period_def Let_def)

text \<open>A window of whole days is the sum of that many days.\<close>

lemma om_total_add: "om_total (add_amounts f vs m) = om_total m + f * sum_list (map snd vs)"
proof (induction vs arbitrary: m)
  case (Cons p vs)
  have set': "om_total (om_set k v m) = om_total m - or_else (om_get m k) 0 + v" for k v and m :: "rat omap"
    using sum_of_set [of "\<lambda>x. x" k v m] by (simp add: om_total_def sum_of_def or_else_def split: option.splits)
  from Cons show ?case by (cases p) (simp add: add_amounts_def set' algebra_simps)
qed (simp add: add_amounts_def)

lemma spend_back_days:
  "om_total (spend_back ps (of_nat n) m) = om_total m + sum_list (map day_total (take n ps))"
proof (induction ps arbitrary: n m)
  case (Cons p ps)
  show ?case
  proof (cases n)
    case (Suc k)
    have "min 1 (1 + of_nat k :: rat) = 1" by simp
    then show ?thesis unfolding Suc using Cons [of k] by (simp add: om_total_add day_total_def)
  qed simp
qed simp

lemma teamSpendOver_days:
  "om_total (teamSpendOver series (of_nat n) 0) = sum_list (map day_total (take_last n series))"
proof -
  have "take n (rev series) = rev (take_last n series)"
    by (simp add: take_last_def take_rev)
  then have "sum_list (map day_total (take n (rev series))) = sum_list (map day_total (take_last n series))"
    by (simp add: sum_list_rev flip: rev_map)
  then show ?thesis by (simp add: teamSpendOver_def slice_to_def spend_back_days) (simp add: om_total_def om_values_def)
qed

end
