(* ===== verification/Charts.thy ===== *)
theory Charts
  imports Format OrderedMap
begin

text \<open>
  \<open>components/gw/charts.tsx\<close>: axis ticks, the shape of a stacked bar's segments, tooltips, and the
  keyboard-reachable table every chart can be switched to.  Recharts draws the marks; what the code
  hands to it (rows, domains, ticks, shapes) is modelled.
\<close>

record chart_series =
  se_key :: string
  se_label :: string
  se_color :: string

type_synonym chart_values = "(string \<times> rat) list"

definition value_at :: "chart_values \<Rightarrow> string \<Rightarrow> rat" where
  "value_at vs k = or_else (map_of vs k) 0"

definition series_total :: "chart_series list \<Rightarrow> chart_values \<Rightarrow> rat" where
  "series_total series vs = sum_list (map (\<lambda>s. value_at vs (se_key s)) series)"

section \<open>Ticks\<close>

text \<open>\<open>10 ** Math.floor(Math.log10(x))\<close> for a positive \<open>x\<close>, by counting digits.\<close>

definition pow10_floor :: "rat \<Rightarrow> rat" where
  "pow10_floor x =
     (if x \<ge> 1 then 10 ^ (length (nat_str (nat \<lfloor>x\<rfloor>)) - 1)
      else 1 / 10 ^ length (nat_str (nat (\<lceil>1 / x\<rceil> - 1))))"

definition tick_step :: "rat \<Rightarrow> rat" where
  "tick_step raw =
     (let pow = pow10_floor raw in
      case find (\<lambda>v. v \<ge> raw) (map (\<lambda>m. m * pow) [1, 2, 5 / 2, 5, 10]) of
        Some v \<Rightarrow> v | None \<Rightarrow> 10 * pow)"

text \<open>\<open>+(x).toFixed(6)\<close>, for a non-negative \<open>x\<close>.\<close>

definition round6 :: "rat \<Rightarrow> rat" where
  "round6 x = of_int (math_round (x * 1000000)) / 1000000"

definition niceTicks :: "rat \<Rightarrow> rat list" where
  "niceTicks mx =
     (if mx \<le> 0 then [0]
      else (let step = tick_step (mx / 4);
                top = of_int \<lceil>mx / step\<rceil> * step
            in map (\<lambda>i. round6 (of_nat i * step)) [0..<nat (math_round (top / step)) + 1]))"

definition HOUR :: int where "HOUR = 3600000"

definition ceil_hour :: "int \<Rightarrow> int" where
  "ceil_hour t = - ((- t) div HOUR) * HOUR"

text \<open>The local hour of an instant; \<open>tz\<close> is the viewer's offset from UTC there.\<close>

definition local_hour :: "(int \<Rightarrow> int) \<Rightarrow> int \<Rightarrow> int" where
  "local_hour tz t = ((t + tz t) div HOUR) mod 24"

definition hour_step :: "int \<Rightarrow> int" where
  "hour_step sp = (if sp > 36 * HOUR then 6 else if sp > 12 * HOUR then 3 else 1)"

definition tick_count :: "int \<Rightarrow> int \<Rightarrow> int \<Rightarrow> nat" where
  "tick_count a t1 step = (if a > t1 then 0 else nat ((t1 - a) div step + 1))"

definition hourTicks :: "(int \<Rightarrow> int) \<Rightarrow> int \<Rightarrow> int \<Rightarrow> int list" where
  "hourTicks tz t0 t1 =
     (let stepH = hour_step (t1 - t0);
          step = stepH * HOUR;
          first = ceil_hour t0;
          aligned = first + ((stepH - local_hour tz first mod stepH) mod stepH) * HOUR
      in map (\<lambda>i. aligned + int i * step) [0..<tick_count aligned t1 step])"

definition compact :: "rat \<Rightarrow> string" where
  "compact n = locale_int (math_round n)"

section \<open>Tables, legends, tooltips\<close>

datatype chart_action = ToggleTable | BarClick string

definition ChartTable ::
  "string \<Rightarrow> chart_series list \<Rightarrow> (string \<times> chart_values) list \<Rightarrow> string \<Rightarrow> (rat \<Rightarrow> string) \<Rightarrow> 'e ui" where
  "ChartTable cap series rows xLabel fmt =
     elem ''div'' [elem ''table''
       [tag ''caption'' cap,
        elem ''thead'' [elem ''tr'' (tag ''th'' xLabel # map (\<lambda>s. tag ''th'' (se_label s)) series)],
        elem ''tbody'' (map (\<lambda>r. El ''tr'' [(''key'', fst r)] []
          (tag ''td'' (fst r) # map (\<lambda>s. tag ''td'' (fmt (value_at (snd r) (se_key s)))) series)) rows)]]"

definition Legend :: "chart_series list \<Rightarrow> 'e ui" where
  "Legend series = elem ''ul'' (map (\<lambda>s. elem ''li''
     [El ''span'' [(''background'', se_color s), (''aria-hidden'', ''true'')] [] [], Txt (se_label s)]) series)"

definition ChartFrame :: "chart_series list \<Rightarrow> bool \<Rightarrow> chart_action ui \<Rightarrow> chart_action ui" where
  "ChartFrame series asTable child =
     elem ''figure''
       [elem ''div''
         [if length series > 1 then Legend series else elem ''span'' [],
          El ''button'' [(''type'', ''button'')] [(''onClick'', ToggleTable)]
            [Txt (if asTable then ''View as chart'' else ''View as table'')]],
        child]"

definition SeriesTooltip ::
  "bool \<Rightarrow> chart_values option \<Rightarrow> string \<Rightarrow> chart_series list \<Rightarrow> (rat \<Rightarrow> string) \<Rightarrow> string option \<Rightarrow> 'e ui list" where
  "SeriesTooltip active payload label series valueFormat footer =
     (case payload of
        None \<Rightarrow> []
      | Some row \<Rightarrow>
         (if \<not> active then []
          else [elem ''div''
            ([tag ''div'' label] @
             map (\<lambda>s. El ''div'' [(''key'', se_key s)] []
               [elem ''span'' [El ''span'' [(''background'', se_color s), (''aria-hidden'', ''true'')] [] [], Txt (se_label s)],
                tag ''span'' (valueFormat (value_at row (se_key s)))]) (rev series) @
             [elem ''div'' [tag ''span'' ''Total'', tag ''span'' (valueFormat (series_total series row))]] @
             (case footer of None \<Rightarrow> [] | Some f \<Rightarrow> only_if (f \<noteq> []) (tag ''div'' f)))]))"

section \<open>Bars\<close>

text \<open>The topmost and the lowest non-zero segment of a column.\<close>

definition topKey :: "chart_series list \<Rightarrow> chart_values \<Rightarrow> string option" where
  "topKey series row = map_option se_key (find (\<lambda>s. value_at row (se_key s) > 0) (rev series))"

definition bottomKey :: "chart_series list \<Rightarrow> chart_values \<Rightarrow> string option" where
  "bottomKey series row = map_option se_key (find (\<lambda>s. value_at row (se_key s) > 0) series)"

datatype path_cmd = PM rat rat | PH rat | PV rat | PQ rat rat rat rat | PZ

definition bar_path ::
  "chart_series list \<Rightarrow> chart_values \<Rightarrow> string \<Rightarrow> rat \<Rightarrow> rat \<Rightarrow> rat \<Rightarrow> rat \<Rightarrow> path_cmd list option" where
  "bar_path series row key x y w h =
     (if h \<le> 0 then None
      else (let gap = (if bottomKey series row = Some key then 0 else 2);
                hh = max 0 (h - gap);
                r = (if topKey series row = Some key then min 4 (min (w / 2) hh) else 0)
            in Some (if r \<noteq> 0
              then [PM x (y + hh), PV (y + r), PQ x y (x + r) y, PH (x + w - r),
                    PQ (x + w) y (x + w) (y + r), PV (y + hh), PZ]
              else [PM x y, PH (x + w), PV (y + hh), PH x, PZ])))"

definition bars_ticks :: "chart_series list \<Rightarrow> (string \<times> chart_values) list \<Rightarrow> rat list" where
  "bars_ticks series rows =
     (if rows = [] then [0] else niceTicks (Max (set (map (\<lambda>r. series_total series (snd r)) rows))))"

definition chart_tick_label :: "rat \<Rightarrow> string" where
  "chart_tick_label n = CHR ''$'' # compact n"

definition StackedBars ::
  "(string \<times> chart_values) list \<Rightarrow> chart_series list \<Rightarrow> (rat \<Rightarrow> string) \<Rightarrow> string \<Rightarrow> bool \<Rightarrow> string
    \<Rightarrow> bool \<Rightarrow> chart_action ui" where
  "StackedBars rows series valueFormat cap clickable xLabel asTable =
     ChartFrame series asTable
       (if asTable then ChartTable cap series rows xLabel valueFormat
        else El ''div'' [(''role'', ''img''), (''aria-label'', cap)] []
          [El ''BarChart'' [(''cursor'', if clickable then ''pointer'' else [])]
             (if clickable then map (\<lambda>r. (fst r, BarClick (fst r))) rows else [])
             ([icon ''XAxis''] @ [El ''YAxis'' [] [] (map (\<lambda>n. Txt (chart_tick_label n)) (bars_ticks series rows))] @
              map (\<lambda>s. El ''Bar'' [(''dataKey'', se_key s), (''name'', se_label s), (''fill'', se_color s)] [] []) series)])"

definition StackedArea ::
  "(int \<times> chart_values) list \<Rightarrow> chart_series list \<Rightarrow> (int \<Rightarrow> string) \<Rightarrow> (rat \<Rightarrow> string) \<Rightarrow> string
    \<Rightarrow> (int \<Rightarrow> int) \<Rightarrow> bool \<Rightarrow> bool \<Rightarrow> chart_action ui" where
  "StackedArea pts series xFormat valueFormat cap tz hideXAxis asTable =
     (let t0 = (case pts of [] \<Rightarrow> 0 | p # _ \<Rightarrow> fst p);
          t1 = (case last_opt pts of None \<Rightarrow> 1 | Some p \<Rightarrow> fst p);
          rows = map (\<lambda>p. (xFormat (fst p), snd p)) pts
      in ChartFrame series asTable
        (if asTable then ChartTable cap series rows ''Time'' valueFormat
         else El ''div'' [(''role'', ''img''), (''aria-label'', cap)] []
           [elem ''AreaChart''
             ([El ''XAxis'' [(''hide'', bool_str hideXAxis)] [] (map (\<lambda>t. Txt (xFormat t)) (hourTicks tz t0 t1)),
               El ''YAxis'' [] [] (map (\<lambda>n. Txt (compact n)) (bars_ticks series rows))] @
              map (\<lambda>s. El ''Area'' [(''dataKey'', se_key s), (''name'', se_label s), (''stroke'', se_color s)] [] []) series)]))"

definition Sparkline :: "rat list \<Rightarrow> string \<Rightarrow> string \<Rightarrow> 'e ui" where
  "Sparkline vals color label =
     El ''div'' [(''role'', ''img''), (''aria-label'', label)] []
       (map (\<lambda>i. if i = length vals - 1 then El ''circle'' [(''fill'', color)] [] [] else icon ''g'') [0..<length vals])"

section \<open>Lemmas\<close>

lemma nat_str_digits_count: "n < 10 ^ d \<Longrightarrow> 0 < d \<Longrightarrow> length (nat_str n) \<le> d"
  by (rule length_nat_str_le)

lemma nat_str_length_lower: "0 < n \<Longrightarrow> 10 ^ (length (nat_str n) - 1) \<le> n"
proof (induction n rule: nat_str.induct)
  case (1 n)
  show ?case
  proof (cases "n < 10")
    case True
    with 1 show ?thesis by (simp add: nat_str.simps [of n])
  next
    case False
    then have "10 ^ (length (nat_str (n div 10)) - 1) \<le> n div 10" using 1 by simp
    moreover have "length (nat_str (n div 10)) \<noteq> 0" by simp
    then obtain k where "length (nat_str (n div 10)) = Suc k" using not0_implies_Suc by blast
    ultimately show ?thesis using False by (simp add: nat_str.simps [of n])
  qed
qed

lemma nat_str_length_upper: "n < 10 ^ length (nat_str n)"
proof (induction n rule: nat_str.induct)
  case (1 n)
  show ?case
  proof (cases "n < 10")
    case True
    then show ?thesis by (simp add: nat_str.simps [of n])
  next
    case False
    with 1 have "n div 10 < 10 ^ length (nat_str (n div 10))" by simp
    then show ?thesis using False by (simp add: nat_str.simps [of n])
  qed
qed

lemma decimal_bracket:
  assumes "0 < n"
  defines "l \<equiv> length (nat_str n)"
  shows "(10::rat) ^ (l - 1) \<le> rat_of_nat n" "rat_of_nat n + 1 \<le> (10::rat) ^ l" "(10::rat) ^ l = 10 * 10 ^ (l - 1)"
proof -
  have "10 ^ (l - 1) \<le> n" unfolding l_def using assms(1) by (rule nat_str_length_lower)
  then have "rat_of_nat (10 ^ (l - 1)) \<le> rat_of_nat n" by (simp only: of_nat_le_iff)
  then show "(10::rat) ^ (l - 1) \<le> rat_of_nat n" by simp
  have "n < 10 ^ l" unfolding l_def by (rule nat_str_length_upper)
  then have "rat_of_nat (n + 1) \<le> rat_of_nat (10 ^ l)" by (simp only: of_nat_le_iff)
  then show "rat_of_nat n + 1 \<le> (10::rat) ^ l" by simp
  have "l \<noteq> 0" by (simp add: l_def)
  then show "(10::rat) ^ l = 10 * 10 ^ (l - 1)" by (cases l) simp_all
qed

lemma pow10_floor_range:
  assumes "0 < x"
  shows "0 < pow10_floor x \<and> pow10_floor x \<le> x \<and> x < 10 * pow10_floor x"
proof (cases "x \<ge> 1")
  case True
  let ?n = "nat \<lfloor>x\<rfloor>"
  have fl: "1 \<le> \<lfloor>x\<rfloor>" using True by simp
  then have n: "0 < ?n" "rat_of_nat ?n = of_int \<lfloor>x\<rfloor>" by simp_all
  note B = decimal_bracket [OF n(1)]
  have "(10::rat) ^ (length (nat_str ?n) - 1) \<le> x" using B(1) n(2) of_int_floor_le [of x] by linarith
  moreover have "x < 10 ^ length (nat_str ?n)" using B(2) n(2) floor_correct [of x] by linarith
  ultimately show ?thesis using True B(3) by (simp add: pow10_floor_def)
next
  case False
  with assms have "1 < 1 / x" by simp
  then have c: "2 \<le> \<lceil>1 / x\<rceil>" by linarith
  let ?m = "nat (\<lceil>1 / x\<rceil> - 1)"
  let ?l = "length (nat_str ?m)"
  have "0 \<le> \<lceil>1 / x\<rceil> - 1" using c by linarith
  then have "rat_of_nat ?m = of_int (\<lceil>1 / x\<rceil> - 1)" by (rule of_nat_nat)
  then have m: "0 < ?m" "rat_of_nat ?m = of_int \<lceil>1 / x\<rceil> - 1" using c by simp_all
  note B = decimal_bracket [OF m(1)]
  have a: "1 / x \<le> 10 ^ ?l" using B(2) m(2) le_of_int_ceiling [of "1 / x"] by linarith
  have "(10::rat) ^ (?l - 1) < 1 / x" using B(1) m(2) ceiling_correct [of "1 / x"] by linarith
  then have b: "(10::rat) ^ ?l < 10 * (1 / x)" using B(3) by simp
  have pos: "(0::rat) < 10 ^ ?l" by simp
  have "1 / 10 ^ ?l \<le> x" using a assms pos by (simp add: field_simps)
  moreover have "x < 10 * (1 / 10 ^ ?l)" using b assms pos by (simp add: field_simps)
  ultimately show ?thesis using False pos by (simp add: pow10_floor_def)
qed

text \<open>The step is at least the raw one and less than twice as large.\<close>

lemma tick_step_range:
  assumes "0 < raw"
  shows "raw \<le> tick_step raw \<and> tick_step raw < 2 * raw"
proof -
  let ?p = "pow10_floor raw"
  have r: "0 < ?p" "?p \<le> raw" "raw < 10 * ?p" using pow10_floor_range [OF assms] by simp_all
  show ?thesis
    using r by (auto simp: tick_step_def Let_def)
qed

lemma ceiling_ticks: "0 < mx \<Longrightarrow> 3 \<le> \<lceil>mx / tick_step (mx / 4)\<rceil> \<and> \<lceil>mx / tick_step (mx / 4)\<rceil> \<le> 4"
proof -
  assume mx: "0 < mx"
  let ?s = "tick_step (mx / 4)"
  have s: "mx / 4 \<le> ?s" "?s < 2 * (mx / 4)" using tick_step_range [of "mx / 4"] mx by simp_all
  then have "0 < ?s" using mx by linarith
  have "mx / ?s \<le> 4" using s \<open>0 < ?s\<close> by (simp add: field_simps)
  moreover have "2 < mx / ?s" using s \<open>0 < ?s\<close> by (simp add: field_simps)
  ultimately show ?thesis by linarith
qed

lemma math_round_int [simp]: "math_round (of_int i) = i"
proof -
  have "\<lfloor>of_int i + 1 / 2 :: rat\<rfloor> = i" by (rule floor_unique) simp_all
  then show ?thesis by (simp add: math_round_def)
qed

text \<open>Four or five ticks, from 0, the last (before rounding to six places) not below the maximum.\<close>

lemma niceTicks_shape:
  assumes "0 < mx"
  shows "(length (niceTicks mx) = 4 \<or> length (niceTicks mx) = 5) \<and> hd (niceTicks mx) = 0 \<and>
    mx \<le> of_nat (length (niceTicks mx) - 1) * tick_step (mx / 4)"
proof -
  let ?s = "tick_step (mx / 4)" and ?n = "\<lceil>mx / tick_step (mx / 4)\<rceil>"
  have s: "0 < ?s" using tick_step_range [of "mx / 4"] assms by linarith
  have r: "math_round (of_int ?n * ?s / ?s) = ?n" using s by simp
  have len: "length (niceTicks mx) = nat ?n + 1"
    using assms r by (simp add: niceTicks_def Let_def)
  have n: "3 \<le> ?n" "?n \<le> 4" using ceiling_ticks [OF assms] by simp_all
  have "mx / ?s \<le> of_int ?n" by (rule le_of_int_ceiling)
  then have "mx \<le> of_int ?n * ?s" using s by (simp only: pos_divide_le_eq)
  moreover have "hd (niceTicks mx) = round6 (of_nat 0 * ?s)"
    using assms r by (simp add: niceTicks_def Let_def hd_map del: upt_Suc)
  moreover have "round6 0 = 0" using math_round_int [of 0] by (simp add: round6_def del: math_round_int)
  moreover have "nat ?n = 3 \<or> nat ?n = 4" using n by linarith
  moreover have "rat_of_nat (nat ?n) = of_int ?n" using n by (intro of_nat_nat) linarith
  ultimately show ?thesis by (auto simp: len)
qed

lemma ceil_hour_ge: "t \<le> ceil_hour t \<and> ceil_hour t < t + HOUR"
proof -
  have "(- t) div HOUR * HOUR \<le> - t" "- t < (- t) div HOUR * HOUR + HOUR"
    using mult_div_mod_eq [of HOUR "- t"] by (simp_all add: HOUR_def)
  then show ?thesis by (simp add: ceil_hour_def)
qed

text \<open>Every tick lies in the domain, on a whole hour.\<close>

lemma hourTicks_in:
  assumes "t \<in> set (hourTicks tz t0 t1)"
  shows "t0 \<le> t \<and> t \<le> t1 \<and> HOUR dvd t"
proof -
  let ?h = "hour_step (t1 - t0)" and ?f = "ceil_hour t0"
  let ?k = "(?h - local_hour tz ?f mod ?h) mod ?h"
  let ?a = "?f + ?k * HOUR"
  have h: "0 < ?h" by (simp add: hour_step_def)
  then have k: "0 \<le> ?k" by simp
  from assms obtain i where i: "i < tick_count ?a t1 (?h * HOUR)" and t: "t = ?a + int i * (?h * HOUR)"
    by (auto simp: hourTicks_def Let_def)
  have pos: "0 < ?h * HOUR" using h by (simp add: HOUR_def)
  have at1: "?a \<le> t1" and "int i \<le> (t1 - ?a) div (?h * HOUR)"
    using i by (auto simp: tick_count_def split: if_splits)
  then have "int i * (?h * HOUR) \<le> (t1 - ?a) div (?h * HOUR) * (?h * HOUR)"
    using pos by (intro mult_right_mono) auto
  also have "\<dots> \<le> t1 - ?a" using pos by (simp add: minus_mod_eq_div_mult [symmetric])
  finally have "t \<le> t1" using t by simp
  moreover have "0 \<le> ?k * HOUR" "0 \<le> int i * (?h * HOUR)"
    using k pos by (simp_all add: HOUR_def)
  then have "t0 \<le> t" using ceil_hour_ge [of t0] t by linarith
  moreover have "HOUR dvd ?f" by (simp add: ceil_hour_def)
  then have "HOUR dvd t" using t by simp
  ultimately show ?thesis by simp
qed

text \<open>Only one segment of a column is rounded, the last non-zero one.\<close>

lemma topKey_positive: "topKey series row = Some k \<Longrightarrow> 0 < value_at row k"
  by (auto simp: topKey_def find_Some_iff)

lemma bottomKey_positive: "bottomKey series row = Some k \<Longrightarrow> 0 < value_at row k"
  by (auto simp: bottomKey_def find_Some_iff)

text \<open>The table has every value of every series, in the order given.\<close>

lemma ChartTable_cells:
  "ui_text (ChartTable cap series rows xLabel fmt :: 'e ui) =
     cap @ xLabel @ concat (map se_label series) @
     concat (map (\<lambda>r. fst r @ concat (map (\<lambda>s. fmt (value_at (snd r) (se_key s))) series)) rows)"
  by (simp add: ChartTable_def o_def)

end
