(* ===== verification/SpendPage.thy ===== *)
theory SpendPage
  imports SpendData Charts Parts AppState
begin

text \<open>
  \<open>pages/spend.tsx\<close>: the drill-through links, the folding of the trend into at most six series, the
  sortable breakdown, and the page itself.  \<open>localeCompare\<close> is a parameter of the sort by label.
\<close>

section \<open>Dates and links\<close>

definition DAY :: int where "DAY = 86400000"

definition month_names :: "string list" where
  "month_names = [''Jan'', ''Feb'', ''Mar'', ''Apr'', ''May'', ''Jun'', ''Jul'', ''Aug'', ''Sep'', ''Oct'', ''Nov'', ''Dec'']"

definition utcDate :: "int \<Rightarrow> string" where
  "utcDate ms = month_names ! nat (utc_month ms) @ '' '' @ int_str (utc_day_of_month ms)"

definition empty_trend :: trend_view where
  "empty_trend = \<lparr>tr_bucketMs = DAY, tr_points = [], tr_order = [], tr_labels = [], tr_unpriced = None\<rparr>"

definition empty_period :: period_view where
  "empty_period = \<lparr>pv_periodStart = 0, pv_periodEnd = 0, pv_monthToDateUsd = 0, pv_trailingDailyUsd = 0,
     pv_trailingDays = 0, pv_remainingDays = 0, pv_projectedUsd = 0, pv_unpriced = None\<rparr>"

definition emptyView :: "string \<Rightarrow> spend_dim \<Rightarrow> spend_view" where
  "emptyView rng gby =
     \<lparr>sv_range = rng, sv_by = gby, sv_from = 0, sv_to = 0, sv_prevFrom = 0, sv_rows = [],
      sv_unpriced = None, sv_trend = empty_trend, sv_period = empty_period\<rparr>"

definition trafficHref :: "spend_dim \<Rightarrow> spend_row \<Rightarrow> string option" where
  "trafficHref gdim r =
     (if sw_noDrill r \<or> gdim = DProvider then None
      else Some (''/traffic?'' @ p_string [(dim_name gdim, sw_id r)]))"

definition pctChange :: "rat \<Rightarrow> rat \<Rightarrow> rat option" where
  "pctChange cur prev = (if prev > 0 then Some ((cur - prev) / prev * 100) else None)"

definition costPerRequest :: "spend_row \<Rightarrow> rat option" where
  "costPerRequest r =
     (let priced = sw_requests r - or_else (sw_unpriced r) 0 in
      if truthy (sw_unpriced r) \<and> priced \<le> 0 then None
      else Some (if priced > 0 then sw_spendUsd r / of_int priced else 0))"

definition csv_name :: "spend_view \<Rightarrow> string" where
  "csv_name v = ''spend-'' @ dim_name (sv_by v) @ ''-'' @ sv_range v @ ''.csv''"

section \<open>The trend chart\<close>

definition palette :: "string list" where
  "palette = [''var(--series-1)'', ''var(--series-2)'', ''var(--series-3)'', ''var(--series-4)'', ''var(--series-5)'']"

definition trend_present :: "trend_view \<Rightarrow> string list" where
  "trend_present tr = filter (\<lambda>k. list_ex (\<lambda>p. value_at (tp_values p) k > 0) (tr_points tr)) (tr_order tr)"

definition trend_series :: "trend_view \<Rightarrow> chart_series list" where
  "trend_series tr =
     (let present = trend_present tr; top = take 5 present; rest = drop 5 present
      in map (\<lambda>(i, k). \<lparr>se_key = k, se_label = or_else (map_of (tr_labels tr) k) k, se_color = palette ! i\<rparr>)
           (enumerate 0 top)
         @ only_if (rest \<noteq> []) \<lparr>se_key = ''__other'',
             se_label = ''Other ('' @ nat_str (length rest) @ '')'', se_color = ''var(--series-other)''\<rparr>)"

definition trend_row :: "trend_view \<Rightarrow> trend_point \<Rightarrow> chart_values" where
  "trend_row tr p =
     (let present = trend_present tr; top = take 5 present; rest = drop 5 present
      in map (\<lambda>k. (k, value_at (tp_values p) k)) top
         @ only_if (rest \<noteq> []) (''__other'', sum_list (map (value_at (tp_values p)) rest)))"

definition trend_daily :: "trend_view \<Rightarrow> bool" where
  "trend_daily tr \<longleftrightarrow> tr_bucketMs tr = DAY"

definition trend_label :: "(int \<Rightarrow> int) \<Rightarrow> trend_view \<Rightarrow> int \<Rightarrow> string" where
  "trend_label tz tr t = (if trend_daily tr then iso_month_day t else take 5 (clock tz t))"

definition trend_grain :: "trend_view \<Rightarrow> string" where
  "trend_grain tr =
     (if trend_daily tr then ''Daily'' else if tr_bucketMs tr \<ge> 3600000 then ''Hourly''
      else int_str (tr_bucketMs tr div 60000) @ ''-minute'')"

definition trend_by_label :: "(int \<Rightarrow> int) \<Rightarrow> trend_view \<Rightarrow> int omap" where
  "trend_by_label tz tr = om_of (map (\<lambda>p. (trend_label tz tr (tp_t p), tp_t p)) (tr_points tr))"

text \<open>Where a click on the bar labelled \<open>x\<close> goes.\<close>

definition bar_href :: "(int \<Rightarrow> int) \<Rightarrow> trend_view \<Rightarrow> string \<Rightarrow> string option" where
  "bar_href tz tr x =
     (case om_get (trend_by_label tz tr) x of
        None \<Rightarrow> None
      | Some t \<Rightarrow> Some (if trend_daily tr then ''/traffic?day='' @ x
          else ''/traffic?since='' @ int_str t @ ''&until='' @ int_str (t + tr_bucketMs tr)))"

definition TrendChart :: "(int \<Rightarrow> int) \<Rightarrow> spend_view \<Rightarrow> spend_dim \<Rightarrow> bool \<Rightarrow> chart_action ui" where
  "TrendChart tz v gdim asTable =
     (let tr = sv_trend v
      in StackedBars (map (\<lambda>p. (trend_label tz tr (tp_t p), trend_row tr p)) (tr_points tr)) (trend_series tr)
           (\<lambda>x. money x 2)
           (trend_grain tr @ '' spend stacked by '' @ dim_name gdim @ '', last ''
             @ nat_str (length (tr_points tr)) @ '' '' @ (if trend_daily tr then ''days (UTC)'' else ''buckets''))
           True (if trend_daily tr then ''Day (UTC)'' else ''Time'') asTable)"

section \<open>The breakdown table\<close>

datatype sort_key = ByLabel | BySpend | ByDelta | ByRequests | ByTokens | ByCostPerRequest | ByP50

text \<open>A sort value: a text, a number, or Infinity.\<close>

datatype sort_value = SText string | SNum rat | SInf

definition sort_val :: "sort_key \<Rightarrow> spend_row \<Rightarrow> sort_value" where
  "sort_val k r =
     (case k of
        ByLabel \<Rightarrow> SText (sw_label r)
      | BySpend \<Rightarrow> SNum (sw_spendUsd r)
      | ByDelta \<Rightarrow> (case pctChange (sw_spendUsd r) (sw_prevSpendUsd r) of None \<Rightarrow> SInf | Some d \<Rightarrow> SNum d)
      | ByCostPerRequest \<Rightarrow> SNum (or_else (costPerRequest r) (-1))
      | ByP50 \<Rightarrow> SNum (or_else (sw_p50Ms r) 0)
      | ByRequests \<Rightarrow> SNum (of_int (sw_requests r))
      | ByTokens \<Rightarrow> SNum (of_int (sw_tokens r)))"

fun cmp_val :: "(string \<Rightarrow> string \<Rightarrow> int) \<Rightarrow> sort_value \<Rightarrow> sort_value \<Rightarrow> int" where
  "cmp_val lc (SText a) (SText b) = lc a b"
| "cmp_val lc (SNum a) (SNum b) = (if a = b then 0 else if a < b then -1 else 1)"
| "cmp_val lc SInf SInf = 0"
| "cmp_val lc (SNum a) SInf = -1"
| "cmp_val lc x y = 1"

record table_sort =
  so_key :: sort_key
  so_asc :: bool

definition row_cmp :: "(string \<Rightarrow> string \<Rightarrow> int) \<Rightarrow> table_sort \<Rightarrow> spend_row \<Rightarrow> spend_row \<Rightarrow> int" where
  "row_cmp lc so a b =
     (let c = cmp_val lc (sort_val (so_key so) a) (sort_val (so_key so) b)
      in if so_asc so then c else - c)"

definition sorted_rows :: "(string \<Rightarrow> string \<Rightarrow> int) \<Rightarrow> table_sort \<Rightarrow> spend_row list \<Rightarrow> spend_row list" where
  "sorted_rows lc so rows = sort_cmp (row_cmp lc so) rows"

definition initial_sort :: table_sort where
  "initial_sort = \<lparr>so_key = BySpend, so_asc = False\<rparr>"

definition click_head :: "sort_key \<Rightarrow> table_sort \<Rightarrow> table_sort" where
  "click_head k so = \<lparr>so_key = k, so_asc = (so_key so = k \<and> \<not> so_asc so)\<rparr>"

datatype spend_action = ExportCsv | SetMode string | SetDim spend_dim | Drill spend_row
  | SortBy sort_key | Chart chart_action

definition table_head :: "table_sort \<Rightarrow> sort_key \<Rightarrow> string \<Rightarrow> spend_action ui" where
  "table_head so k label =
     El ''TableHead''
       [(''aria-sort'', if so_key so = k then (if so_asc so then ''ascending'' else ''descending'') else ''none'')]
       [(''onClick'', SortBy k)]
       [Txt label, El ''span'' [(''aria-hidden'', ''true''), (''visible'', bool_str (so_key so = k))] []
          [Txt (if so_asc so then glyph_up else glyph_down)]]"

definition dim_label :: "data_mode \<Rightarrow> spend_dim \<Rightarrow> string" where
  "dim_label mode gdim = or_else (map_of (spendDims mode) gdim) (dim_name gdim)"

definition share_pct :: "spend_row \<Rightarrow> rat \<Rightarrow> rat" where
  "share_pct r tot = sw_spendUsd r / or_one tot * 100"

definition breakdown_tr :: "spend_dim \<Rightarrow> rat \<Rightarrow> bool \<Rightarrow> spend_row \<Rightarrow> spend_action ui" where
  "breakdown_tr gdim tot hasP50 r =
     (let drillable = (\<not> sw_noDrill r); d = pctChange (sw_spendUsd r) (sw_prevSpendUsd r)
      in El ''TableRow'' [(''key'', sw_id r)] (only_if drillable (''onClick'', Drill r))
       ([elem ''TableCell''
          ([if drillable
            then El ''button'' [(''type'', ''button''), (''aria-label'', ''Open receipts for '' @ sw_label r)]
                   [(''onClick'', Drill r)] [tag ''span'' (sw_label r)]
            else El ''span'' [(''title'', ''Traffic has no filter for this group.'')] [] [Txt (sw_label r)]]
           @ (case sw_sub r of None \<Rightarrow> [] | Some s \<Rightarrow> only_if (s \<noteq> []) (tag ''div'' s))),
         elem ''TableCell''
          ([Money (if truthy (sw_unpriced r) \<and> sw_spendUsd r = 0 then None else Some (sw_spendUsd r)) Cents False]
           @ only_if (truthy (sw_unpriced r) \<and> sw_spendUsd r \<noteq> 0)
               (El ''div'' [(''title'', unpricedNote (or_else (sw_unpriced r) 0) ''this total'')] []
                  [Txt (''+ '' @ int_fmt (or_else (sw_unpriced r) 0) @ '' no price'')])),
         elem ''TableCell''
          [El ''span'' [(''aria-hidden'', ''true''), (''width'', to_fixed 6 (share_pct r tot) @ ''%'')] [] [],
           tag ''span'' (to_fixed 1 (share_pct r tot) @ ''%'')],
         elem ''TableCell''
          [case d of Some p \<Rightarrow> Delta p Down
           | None \<Rightarrow> tag ''span'' (if sw_spendUsd r > 0 then ''new'' else ''-'')],
         tag ''TableCell'' (int_fmt (sw_requests r)),
         elem ''TableCell'' [TokenCount (sw_tokens r) False False],
         elem ''TableCell'' [Money (costPerRequest r) Micro False]]
        @ only_if hasP50 (elem ''TableCell'' [Duration (or_else (sw_p50Ms r) 0) False])))"

definition BreakdownTable ::
  "(string \<Rightarrow> string \<Rightarrow> int) \<Rightarrow> data_mode \<Rightarrow> spend_row list \<Rightarrow> spend_dim \<Rightarrow> table_sort \<Rightarrow> spend_action ui" where
  "BreakdownTable lc mode rows gdim so =
     (let tot = sum_list (map sw_spendUsd rows);
          totalRequests = sum_list (map sw_requests rows);
          totalUnpriced = sum_list (map (\<lambda>r. or_else (sw_unpriced r) 0) rows);
          hasP50 = list_ex (\<lambda>r. sw_p50Ms r \<noteq> None) rows;
          label = dim_label mode gdim
      in El ''Table'' [(''aria-label'', ''Spend by '' @ to_lower label)] []
        [elem ''TableHeader'' [elem ''TableRow''
           ([table_head so ByLabel label, table_head so BySpend ''Spend'', tag ''TableHead'' ''Share'',
             table_head so ByDelta ''vs previous'', table_head so ByRequests ''Requests'',
             table_head so ByTokens ''Tokens'', table_head so ByCostPerRequest ''Cost / request'']
            @ only_if hasP50 (table_head so ByP50 ''p50 latency''))],
         elem ''TableBody'' (map (breakdown_tr gdim tot hasP50) (sorted_rows lc so rows)),
         elem ''TableFooter'' [elem ''TableRow''
           [tag ''TableCell'' ''Total'',
            elem ''TableCell'' (Money (Some tot) Cents False
              # only_if (totalUnpriced \<noteq> 0) (tag ''div'' (unpricedNote totalUnpriced ''this total''))),
            El ''TableCell'' [(''colSpan'', ''2'')] [] [],
            tag ''TableCell'' (int_fmt totalRequests),
            El ''TableCell'' [(''colSpan'', if hasP50 then ''3'' else ''2'')] []
              [Txt (''Click any row to open the receipts behind it.'' @
                 (if hasP50 then [] else '' Latency isn'' @ glyph_rsquo @ ''t in the spend aggregates; Traffic shows it per request.''))]]]])"

section \<open>The page\<close>

definition DimSelect :: "data_mode \<Rightarrow> spend_dim \<Rightarrow> string \<Rightarrow> spend_action ui" where
  "DimSelect mode v label =
     elem ''label'' [tag ''span'' label,
       El ''Select'' [(''value'', dim_name v)] (map (\<lambda>d. (dim_name (fst d), SetDim (fst d))) (spendDims mode))
        [El ''SelectTrigger'' [(''aria-label'', label)] [] [icon ''SelectValue''],
         elem ''SelectContent'' (map (\<lambda>d. El ''SelectItem'' [(''value'', dim_name (fst d))] [] [Txt (snd d)]) (spendDims mode))]]"

definition UnpricedNote :: "int \<Rightarrow> 'e ui" where
  "UnpricedNote n = tag ''dd'' (unpricedNote n ''this total'' @ ''.'')"

definition spend_path :: "data_mode \<Rightarrow> string \<Rightarrow> spend_dim \<Rightarrow> string option" where
  "spend_path mode rng gdim =
     (if mode = Api then Some (''/spend?range='' @ rng @ ''&by='' @ dim_name gdim) else None)"

definition loaded_or :: "bool \<Rightarrow> 'e ui list \<Rightarrow> 'e ui list" where
  "loaded_or loaded xs = (if loaded then xs else [icon ''Skeleton''])"

definition note_if :: "int option \<Rightarrow> 'e ui list" where
  "note_if n = only_if (truthy n) (UnpricedNote (or_else n 0))"

definition summary_strip :: "string \<Rightarrow> spend_view \<Rightarrow> bool \<Rightarrow> spend_action ui" where
  "summary_strip rng v loaded =
     (let period = sv_period v;
          windowTotal = sum_list (map sw_spendUsd (sv_rows v));
          prevTotal = sum_list (map sw_prevSpendUsd (sv_rows v));
          delta = pctChange windowTotal prevTotal
      in elem ''dl''
       [elem ''div''
          ([tag ''dt'' (''Spend, '' @ rangeLabel rng),
            elem ''dd'' (loaded_or loaded (Money (Some windowTotal) Cents False #
              (case delta of None \<Rightarrow> [] | Some d \<Rightarrow> [Delta d Down])))] @ note_if (sv_unpriced v)),
        elem ''div''
          ([tag ''dt'' ''Month to date'',
            elem ''dd'' (loaded_or loaded [Money (Some (pv_monthToDateUsd period)) Cents False,
              tag ''span'' (''since '' @ utcDate (pv_periodStart period))])]
           @ (if loaded then note_if (pv_unpriced period) else [])),
        elem ''div''
          [tag ''dt'' ''Projected at period end'',
           elem ''dd'' (loaded_or loaded [Money (Some (pv_projectedUsd period)) Cents False,
             tag ''span'' (''by '' @ utcDate (pv_periodEnd period - 1))])],
        elem ''div''
          [tag ''dt'' ''Projection basis'',
           elem ''dd'' (loaded_or loaded
             ([Txt (''Month to date plus the trailing '' @
                 (if pv_trailingDays period < 7 then int_str (pv_trailingDays period) @ ''-day'' else ''7-day'') @ '' average of ''),
               Money (Some (pv_trailingDailyUsd period)) Cents False,
               Txt (''/day '' @ glyph_times @ '' '' @ to_fixed 1 (pv_remainingDays period)
                 @ '' days remaining in the UTC month. Assumes current prices.'')]
              @ only_if (truthy (pv_unpriced period)) (Txt '' Requests with no price add nothing to it.'')))]])"

definition SpendPage ::
  "(string \<Rightarrow> string \<Rightarrow> int) \<Rightarrow> (int \<Rightarrow> int) \<Rightarrow> data_mode \<Rightarrow> string \<Rightarrow> spend_view \<Rightarrow> bool \<Rightarrow> string \<Rightarrow> spend_dim
    \<Rightarrow> table_sort \<Rightarrow> bool \<Rightarrow> spend_action ui" where
  "SpendPage lc tz mode rng v loaded tab gdim so asTable =
     elem ''div''
      [PageHeader ''Spend''
         [Txt (''Attributed cost for '' @ rangeLabel rng @ '', from the 5-minute and daily aggregates of every receipt. ''
            @ ''In-flight requests are excluded until their usage arrives.'')]
         [El ''Button'' [(''disabled'', bool_str (\<not> loaded \<or> sv_rows v = []))] [(''onClick'', ExportCsv)]
            [icon ''Download'', Txt '' Export CSV'']]
         [summary_strip rng v loaded],
       Section None [] [] None
         [El ''Tabs'' [(''value'', tab)] [(''trend'', SetMode ''trend''), (''breakdown'', SetMode ''breakdown'')]
           [elem ''div''
             [El ''TabsList'' [(''aria-label'', ''Spend view'')] []
               [tag ''TabsTab'' ''Trend'', tag ''TabsTab'' ''Breakdown'', icon ''TabsIndicator''],
              DimSelect mode gdim (if tab = ''trend'' then ''Stack by'' else ''Group by'')],
            El ''TabsPanel'' [(''value'', ''trend'')] []
             ((if loaded then [map_ui Chart (TrendChart tz v gdim asTable)] else [icon ''Skeleton''])
              @ only_if (loaded \<and> truthy (tr_unpriced (sv_trend v)))
                  (tag ''p'' (unpricedNote (or_else (tr_unpriced (sv_trend v)) 0) ''these bars'' @ ''.''))
              @ only_if (trend_daily (sv_trend v) \<and> rng \<in> {''15m'', ''1h'', ''6h'', ''24h''})
                  (tag ''p'' (''Spend is charted at daily grain, so ranges under 7 days show the last ''
                    @ nat_str (length (tr_points (sv_trend v))) @ '' days for context. Totals above use ''
                    @ rangeLabel rng @ ''.''))),
            El ''TabsPanel'' [(''value'', ''breakdown'')] []
              [if \<not> loaded then icon ''Skeleton''
               else if sv_rows v \<noteq> [] then BreakdownTable lc mode (sv_rows v) gdim so
               else tag ''p'' (''No spend in '' @ rangeLabel rng @ ''.'')]]]]"

text \<open>What a click on a row does: the address it navigates to, if any.\<close>

definition on_drill :: "spend_dim \<Rightarrow> spend_row \<Rightarrow> string option" where
  "on_drill gdim r = trafficHref gdim r"

section \<open>Lemmas\<close>

lemma value_at_map:
  "distinct ks \<Longrightarrow> k \<in> set ks \<Longrightarrow> value_at (map (\<lambda>k. (k, f k)) ks @ xs) k = f k"
  by (induction ks) (auto simp: value_at_def)

lemma map_of_pairs_other: "k \<notin> set ks \<Longrightarrow> map_of (map (\<lambda>k. (k, f k)) ks @ xs) k = map_of xs k"
  by (induction ks) auto

lemma sum_filter_zero:
  "\<forall>x \<in> set xs. \<not> P x \<longrightarrow> f x = (0 :: rat) \<Longrightarrow> sum_list (map f (filter P xs)) = sum_list (map f xs)"
  by (induction xs) auto

lemma trend_series_keys:
  "map se_key (trend_series tr) = take 5 (trend_present tr) @ only_if (drop 5 (trend_present tr) \<noteq> []) ''__other''"
  by (simp add: trend_series_def Let_def o_def split_def only_if_def enumerate_eq_zip)

text \<open>
  Folding the small groups into one loses nothing: with no negative amounts, the bars of a point
  add up to what all ranked groups spent there.
\<close>

lemma trend_fold_total:
  assumes d: "distinct (tr_order tr)" and o: "''__other'' \<notin> set (tr_order tr)"
    and p: "p \<in> set (tr_points tr)"
    and nn: "\<forall>q \<in> set (tr_points tr). \<forall>k. 0 \<le> value_at (tp_values q) k"
  shows "series_total (trend_series tr) (trend_row tr p) =
    sum_list (map (value_at (tp_values p)) (tr_order tr))"
proof -
  let ?v = "value_at (tp_values p)"
  let ?pr = "trend_present tr"
  let ?top = "take 5 ?pr" and ?rest = "drop 5 ?pr"
  let ?row = "trend_row tr p"
  have dp: "distinct ?pr" using d by (simp add: trend_present_def)
  have sub: "set ?pr \<subseteq> set (tr_order tr)" by (auto simp: trend_present_def)
  have top: "value_at ?row k = ?v k" if "k \<in> set ?top" for k
    unfolding trend_row_def Let_def by (rule value_at_map) (use dp that in \<open>auto simp: distinct_take\<close>)
  have oth: "value_at ?row ''__other'' = sum_list (map ?v ?rest)" if "?rest \<noteq> []"
  proof -
    have "''__other'' \<notin> set ?top" using o sub by (auto dest: in_set_takeD)
    then have "map_of ?row ''__other'' = map_of (only_if (?rest \<noteq> []) (''__other'', sum_list (map ?v ?rest))) ''__other''"
      unfolding trend_row_def Let_def by (rule map_of_pairs_other)
    then show ?thesis using that by (simp add: value_at_def [of ?row])
  qed
  have "series_total (trend_series tr) ?row = sum_list (map (value_at ?row) (map se_key (trend_series tr)))"
    by (simp add: series_total_def o_def)
  also have "\<dots> = sum_list (map ?v ?top) + sum_list (map ?v ?rest)"
    unfolding trend_series_keys using oth
    by (cases "?rest = []") (simp_all add: top cong: map_cong)
  also have "\<dots> = sum_list (map ?v ?pr)"
    by (metis append_take_drop_id map_append sum_list_append)
  also have "\<dots> = sum_list (map ?v (tr_order tr))"
  proof -
    have "?v k = 0" if "k \<in> set (tr_order tr)" "\<not> list_ex (\<lambda>q. value_at (tp_values q) k > 0) (tr_points tr)" for k
    proof -
      have "\<not> 0 < ?v k" using that(2) p by (auto simp: list_ex_iff)
      moreover have "0 \<le> ?v k" using p nn by blast
      ultimately show ?thesis by linarith
    qed
    then show ?thesis unfolding trend_present_def by (intro sum_filter_zero) blast
  qed
  finally show ?thesis .
qed

lemma trend_series_count: "length (trend_series tr) \<le> 6"
proof -
  have "length (trend_series tr) = length (map se_key (trend_series tr))" by simp
  also have "\<dots> \<le> 6" unfolding trend_series_keys by (simp add: only_if_def)
  finally show ?thesis .
qed

lemma sorted_rows_perm: "mset (sorted_rows lc so rows) = mset rows"
  by (simp add: sorted_rows_def)

text \<open>Every column but the label compares by a total preorder, so the table is sorted and stable.\<close>

lemma sort_val_text: "k \<noteq> ByLabel \<Longrightarrow> sort_val k r \<noteq> SText t"
  by (cases k) (auto simp: sort_val_def split: option.splits)

lemma row_cmp_comparator: "so_key so \<noteq> ByLabel \<Longrightarrow> js_comparator (row_cmp lc so)"
proof
  assume k: "so_key so \<noteq> ByLabel"
  have c: "cmp_val lc x y \<le> 0 \<longleftrightarrow> \<not> cmp_val lc y x < 0 " "cmp_val lc x y = - cmp_val lc y x"
    if "\<forall>t. x \<noteq> SText t" "\<forall>t. y \<noteq> SText t" for x y
    using that by (cases x; cases y; auto)+
  have tr: "cmp_val lc x y \<le> 0 \<Longrightarrow> cmp_val lc y z \<le> 0 \<Longrightarrow> cmp_val lc x z \<le> 0"
    if "\<forall>t. x \<noteq> SText t" "\<forall>t. y \<noteq> SText t" "\<forall>t. z \<noteq> SText t" for x y z
    using that by (cases x; cases y; cases z) (auto split: if_splits)
  show "row_cmp lc so x y \<le> 0 \<or> row_cmp lc so y x \<le> 0" for x y
    using k c(2) [of "sort_val (so_key so) x" "sort_val (so_key so) y"]
    by (auto simp: row_cmp_def Let_def sort_val_text)
  show "row_cmp lc so x y \<le> 0 \<Longrightarrow> row_cmp lc so y z \<le> 0 \<Longrightarrow> row_cmp lc so x z \<le> 0" for x y z
    using k tr [of "sort_val (so_key so) x" "sort_val (so_key so) y" "sort_val (so_key so) z"]
      tr [of "sort_val (so_key so) z" "sort_val (so_key so) y" "sort_val (so_key so) x"]
      c(2) [of "sort_val (so_key so) x" "sort_val (so_key so) y"]
      c(2) [of "sort_val (so_key so) y" "sort_val (so_key so) z"]
      c(2) [of "sort_val (so_key so) x" "sort_val (so_key so) z"]
    by (auto simp: row_cmp_def Let_def sort_val_text split: if_splits)
qed

lemma sorted_rows_sorted:
  "so_key so \<noteq> ByLabel \<Longrightarrow> sorted_wrt (\<lambda>a b. row_cmp lc so a b \<le> 0) (sorted_rows lc so rows)"
  unfolding sorted_rows_def by (rule js_comparator.sorted_sort_cmp [OF row_cmp_comparator])

text \<open>A new column starts descending, the same column turns.\<close>

lemma click_head_twice:
  "so_key so \<noteq> k \<Longrightarrow> \<not> so_asc (click_head k so) \<and> so_asc (click_head k (click_head k so))
     \<and> \<not> so_asc (click_head k (click_head k (click_head k so)))"
  by (simp add: click_head_def)

lemma pctChange_sign: "pctChange a b = Some d \<Longrightarrow> (0 \<le> d \<longleftrightarrow> b \<le> a)"
  by (auto simp: pctChange_def zero_le_divide_iff zero_le_mult_iff split: if_splits)

text \<open>A row with unpriced requests only never shows as free.\<close>

lemma costPerRequest_none:
  "costPerRequest r = None \<longleftrightarrow> truthy (sw_unpriced r) \<and> sw_requests r \<le> or_else (sw_unpriced r) 0"
  by (simp add: costPerRequest_def Let_def)

text \<open>The link of a group carries its id under its dimension.\<close>

lemma trafficHref_query:
  "trafficHref gdim r = Some u \<Longrightarrow> \<exists>q. u = ''/traffic?'' @ q \<and> p_parse q = [(dim_name gdim, sw_id r)]"
  by (auto simp: trafficHref_def p_parse_string split: if_splits)

text \<open>Every row of a provider breakdown looks clickable and goes nowhere.\<close>

lemma provider_row_dead:
  "\<not> sw_noDrill r \<Longrightarrow> Drill r \<in> set (ui_actions (breakdown_tr DProvider tot p50 r)) \<and> on_drill DProvider r = None"
  by (simp add: breakdown_tr_def Let_def on_drill_def trafficHref_def only_if_def)

end
