(* ===== verification/TrafficPage.thy ===== *)
theory TrafficPage
  imports SpendPage
begin

text \<open>
  \<open>pages/traffic.tsx\<close>: the window of the list, filters in the URL, columns, freezing on interaction, the
  virtual table's arithmetic and keyboard moves, and the views.  Sizes are integers in pixels.
\<close>

section \<open>Dimensions and columns\<close>

record filter_dim =
  fd_dim :: dim
  fd_label :: string
  fd_values :: "(string \<times> string) list"

definition all_verdicts :: "verdict list" where
  "all_verdicts = [Allowed, Blocked, Truncated, Throttled]"

definition project_label :: "team list \<Rightarrow> project \<Rightarrow> string" where
  "project_label ts p = pj_name p @ '' '' @ glyph_middot @ '' '' @
     (case find_team ts (pj_team p) of None \<Rightarrow> pj_team p | Some t \<Rightarrow> tm_name t)"

definition traffic_dims :: "catalog \<Rightarrow> filter_dim list" where
  "traffic_dims c =
     [\<lparr>fd_dim = DimKey, fd_label = ''Key'', fd_values = map (\<lambda>k. (ak_name k, ak_name k)) (ct_keys c)\<rparr>,
      \<lparr>fd_dim = DimTeam, fd_label = ''Team'', fd_values = map (\<lambda>t. (tm_id t, tm_name t)) (ct_teams c)\<rparr>,
      \<lparr>fd_dim = DimProject, fd_label = ''Project'',
        fd_values = map (\<lambda>p. (pj_id p, project_label (ct_teams c) p)) (ct_projects c)\<rparr>,
      \<lparr>fd_dim = DimModel, fd_label = ''Model'', fd_values = map (\<lambda>m. (md_id m, md_id m)) (ct_models c)\<rparr>,
      \<lparr>fd_dim = DimVerdict, fd_label = ''Verdict'',
        fd_values = map (\<lambda>v. (verdict_str v, vi_label (verdictMeta v))) all_verdicts\<rparr>]"

definition primaryDims :: "dim list" where
  "primaryDims = [DimKey, DimTeam, DimModel, DimVerdict]"

definition allCols :: "(string \<times> string) list" where
  "allCols = [(''team'', ''Team''), (''model'', ''Model''), (''backend'', ''Backend''), (''tokens'', ''Tokens''),
     (''cost'', ''Cost''), (''ms'', ''Latency''), (''status'', ''Status'')]"

definition col_ids :: "string list" where
  "col_ids = map fst allCols"

definition defaultCols :: "string list" where
  "defaultCols = [''team'', ''model'', ''tokens'', ''cost'', ''ms'', ''status'']"

text \<open>What \<open>JSON.parse\<close> made of a text: an array of strings, or something else; None when it throws.\<close>

datatype json_value = JArray "string list" | JOther

definition loadCols :: "(string \<Rightarrow> json_value option) \<Rightarrow> storage \<Rightarrow> string list" where
  "loadCols parse st =
     (case get_item st ''gw:traffic-cols'' of
        Inl e \<Rightarrow> defaultCols
      | Inr None \<Rightarrow> defaultCols
      | Inr (Some s) \<Rightarrow> (case parse s of Some (JArray xs) \<Rightarrow> xs | _ \<Rightarrow> defaultCols))"

definition toggleCol :: "string \<Rightarrow> string list \<Rightarrow> string list" where
  "toggleCol i cols =
     (if i \<in> set cols then filter (\<lambda>c. c \<noteq> i) cols
      else filter (\<lambda>c. c = i \<or> c \<in> set cols) col_ids)"

text \<open>The click: the new columns are shown and written, and a storage that refuses the write is ignored.\<close>

definition toggleCol_click ::
  "(string list \<Rightarrow> string) \<Rightarrow> string \<Rightarrow> string list \<Rightarrow> storage \<Rightarrow> string list \<times> storage" where
  "toggleCol_click stringify i cols st =
     (let next' = toggleCol i cols
      in (next', case set_item st ''gw:traffic-cols'' (stringify next') of Inr st' \<Rightarrow> st' | Inl e \<Rightarrow> st))"

definition shown_cols :: "string list \<Rightarrow> (string \<times> string) list" where
  "shown_cols cols = filter (\<lambda>c. fst c \<in> set cols) allCols"

section \<open>The window\<close>

definition HOT_WINDOW_MS :: int where "HOT_WINDOW_MS = 30 * 86400000"
definition BUCKET_MS :: int where "BUCKET_MS = 5 * 60000"
definition OVERSCAN :: int where "OVERSCAN = 12"

text \<open>A numeric parameter: None is absent (or empty), \<open>Some None\<close> is NaN.\<close>

definition num_param :: "params \<Rightarrow> string \<Rightarrow> int option option" where
  "num_param ps k =
     (case p_get ps k of None \<Rightarrow> None | Some s \<Rightarrow> if s = [] then None else Some (js_number s))"

definition truthy_num :: "int option option \<Rightarrow> int option" where
  "truthy_num v = (case v of Some (Some n) \<Rightarrow> (if n \<noteq> 0 then Some n else None) | _ \<Rightarrow> None)"

definition is_day :: "string \<Rightarrow> bool" where
  "is_day s \<longleftrightarrow> (case s of
     [a, b, c, d, e] \<Rightarrow> is_digit_char a \<and> is_digit_char b \<and> c = CHR ''-'' \<and> is_digit_char d \<and> is_digit_char e
   | _ \<Rightarrow> False)"

definition useWindow ::
  "int \<Rightarrow> int \<Rightarrow> int option option \<Rightarrow> string option \<Rightarrow> int option option \<Rightarrow> traffic_window" where
  "useWindow now rangeMillis sinceParam day untilParam =
     (let since0 = (now - min rangeMillis HOT_WINDOW_MS) div BUCKET_MS * BUCKET_MS;
          since1 = (case truthy_num sinceParam of None \<Rightarrow> since0 | Some n \<Rightarrow> max since0 n);
          before1 = truthy_num untilParam
      in case day of
           None \<Rightarrow> \<lparr>tw_since = since1, tw_before = before1\<rparr>
         | Some dd \<Rightarrow>
             (if is_day dd
              then (let (m, d) = day_parts dd;
                        y = utc_full_year now;
                        start0 = date_utc y (m - 1) d;
                        start = (if start0 > now then date_utc (y - 1) (m - 1) d else start0)
                    in \<lparr>tw_since = max since1 start, tw_before = Some (start + 86400000)\<rparr>)
              else \<lparr>tw_since = since1, tw_before = before1\<rparr>))"

section \<open>Filters in the URL\<close>

definition dims_order :: "dim list" where
  "dims_order = [DimKey, DimTeam, DimProject, DimModel, DimVerdict]"

definition page_filters :: "params \<Rightarrow> filters" where
  "page_filters ps = map (\<lambda>d. (d, p_get_all ps (dim_str d))) dims_order"

text \<open>
  The page's filters are memoised on a text, the values of each dimension joined by commas: while the text is the same,
  the filters are the ones of the URL for which they were computed.
\<close>

definition filterKey :: "params \<Rightarrow> string" where
  "filterKey ps = join_str ''&'' (map (\<lambda>d. dim_str d @ ''='' @ join_str '','' (p_get_all ps (dim_str d))) dims_order)"

definition filters_memo :: "params \<Rightarrow> (string \<times> filters) option \<Rightarrow> string \<times> filters" where
  "filters_memo ps m =
     (case m of
        None \<Rightarrow> (filterKey ps, page_filters ps)
      | Some (k, f) \<Rightarrow> if k = filterKey ps then (k, f) else (filterKey ps, page_filters ps))"

text \<open>What the window is computed from, and its memo; \<open>now\<close> is the time of the render that computes it.\<close>

definition window_deps :: "string \<Rightarrow> params \<Rightarrow> string \<times> int option option \<times> string option \<times> int option option" where
  "window_deps rng ps = (rng, num_param ps ''since'', p_get ps ''day'', num_param ps ''until'')"

definition page_window :: "int \<Rightarrow> int \<Rightarrow> params \<Rightarrow> traffic_window" where
  "page_window now rangeMillis ps =
     useWindow now rangeMillis (num_param ps ''since'') (p_get ps ''day'') (num_param ps ''until'')"

definition setFilter :: "string \<Rightarrow> string list \<Rightarrow> params \<Rightarrow> params" where
  "setFilter k vs ps = fold (\<lambda>v q. p_append q k v) vs (p_delete ps k)"

definition clearAll :: "params \<Rightarrow> params" where
  "clearAll ps =
     (case p_get ps ''receipt'' of
        None \<Rightarrow> []
      | Some r \<Rightarrow> if r = [] then [] else p_set [] ''receipt'' r)"

definition shareView :: "string \<Rightarrow> params \<Rightarrow> params" where
  "shareView rng ps = p_set (p_delete ps ''receipt'') ''range'' rng"

definition hasFilters :: "filters \<Rightarrow> params \<Rightarrow> bool" where
  "hasFilters fl ps \<longleftrightarrow> list_ex (\<lambda>p. snd p \<noteq> []) fl \<or> num_param ps ''since'' \<noteq> None
     \<or> p_get ps ''day'' \<noteq> None"

definition activeDims :: "catalog \<Rightarrow> filters \<Rightarrow> filter_dim list" where
  "activeDims c fl = filter (\<lambda>d. fget fl (fd_dim d) \<noteq> [] \<or> fd_dim d \<in> set primaryDims) (traffic_dims c)"

definition extraDims :: "catalog \<Rightarrow> filters \<Rightarrow> filter_dim list" where
  "extraDims c fl = filter (\<lambda>d. fd_dim d \<notin> set primaryDims \<and> fget fl (fd_dim d) = []) (traffic_dims c)"

section \<open>Freezing and announcing\<close>

record traffic_ui =
  tu_live :: bool
  tu_hovering :: bool
  tu_focusWithin :: bool
  tu_frozenTop :: "int option"
  tu_cols :: "string list"
  tu_announce :: string
  tu_lastTop :: "string option"

definition is_frozen :: "traffic_ui \<Rightarrow> bool" where
  "is_frozen s \<longleftrightarrow> \<not> tu_live s \<or> tu_hovering s \<or> tu_focusWithin s"

definition freeze_effect :: "int \<Rightarrow> receipt list \<Rightarrow> traffic_ui \<Rightarrow> traffic_ui" where
  "freeze_effect now rows s =
     (if is_frozen s \<and> tu_frozenTop s = None
      then s\<lparr>tu_frozenTop := Some (case rows of [] \<Rightarrow> now | r # _ \<Rightarrow> rc_ts r)\<rparr>
      else if \<not> is_frozen s \<and> tu_frozenTop s \<noteq> None then s\<lparr>tu_frozenTop := None\<rparr>
      else s)"

definition visible_rows :: "int option \<Rightarrow> receipt list \<Rightarrow> receipt list" where
  "visible_rows tpos rows = (case tpos of None \<Rightarrow> rows | Some t \<Rightarrow> filter (\<lambda>r. rc_ts r \<le> t) rows)"

definition new_count :: "int option \<Rightarrow> receipt list \<Rightarrow> nat" where
  "new_count tpos rows = (case tpos of None \<Rightarrow> 0 | Some t \<Rightarrow> length rows - length (visible_rows tpos rows))"

definition resume :: "traffic_ui \<Rightarrow> traffic_ui" where
  "resume s = s\<lparr>tu_live := True, tu_hovering := False, tu_focusWithin := False, tu_frozenTop := None\<rparr>"

definition announce_tick :: "receipt list \<Rightarrow> traffic_ui \<Rightarrow> traffic_ui" where
  "announce_tick cur s =
     (let at' = (case tu_lastTop s of None \<Rightarrow> -1 | Some i \<Rightarrow> find_index (\<lambda>r. rc_id r = i) cur);
          delta = (if at' = -1 then int (length cur) else at');
          s1 = s\<lparr>tu_lastTop := map_option rc_id (head_opt cur)\<rparr>
      in if \<not> is_frozen s \<and> delta > 0 then s1\<lparr>tu_announce := int_str delta @ '' new requests''\<rparr> else s1)"

section \<open>The virtual table\<close>

record viewport =
  vw_top :: int
  vw_height :: int

definition ceil_div :: "int \<Rightarrow> int \<Rightarrow> int" where
  "ceil_div a b = - ((- a) div b)"

definition win_start :: "viewport \<Rightarrow> int \<Rightarrow> int" where
  "win_start v rowH = max 0 (vw_top v div rowH - OVERSCAN)"

definition win_end :: "viewport \<Rightarrow> int \<Rightarrow> int \<Rightarrow> int" where
  "win_end v rowH n = min n (ceil_div (vw_top v + vw_height v) rowH + OVERSCAN)"

definition near_end :: "bool \<Rightarrow> viewport \<Rightarrow> int \<Rightarrow> int \<Rightarrow> bool" where
  "near_end loaded v rowH n \<longleftrightarrow> loaded \<and> win_end v rowH n \<ge> n - OVERSCAN"

text \<open>New rows on top: the scroll offset that keeps the first row in view.\<close>

definition anchor_scroll :: "string option \<Rightarrow> receipt list \<Rightarrow> int \<Rightarrow> int \<Rightarrow> int" where
  "anchor_scroll prev rows rowH tpos =
     (case prev of
        None \<Rightarrow> tpos
      | Some p \<Rightarrow>
          (if p = [] \<or> tpos = 0 \<or> map_option rc_id (head_opt rows) = Some p then tpos
           else (let shift = find_index (\<lambda>r. rc_id r = p) rows
                 in if shift > 0 then tpos + shift * rowH else tpos)))"

record move_result =
  mv_scroll :: int
  mv_focus :: "int option"
  mv_view :: viewport

definition move_row :: "int \<Rightarrow> int \<Rightarrow> int \<Rightarrow> int \<Rightarrow> int \<Rightarrow> int \<Rightarrow> int \<Rightarrow> viewport \<Rightarrow> move_result" where
  "move_row rowH nrows hd_height clientH scroll i step v =
     (let n = i + step in
      if n < 0 \<or> n \<ge> nrows then \<lparr>mv_scroll = scroll, mv_focus = None, mv_view = v\<rparr>
      else (let y = n * rowH;
                s = (if y < scroll then y
                     else if y + rowH > scroll + clientH - hd_height then y + rowH - clientH + hd_height
                     else scroll)
            in \<lparr>mv_scroll = s, mv_focus = Some n, mv_view = \<lparr>vw_top = s, vw_height = clientH\<rparr>\<rparr>))"

section \<open>Views\<close>

datatype traffic_action = Share | PickDensity string | ToggleCol string | ToggleLive
  | SetFilter string "string list" | ClearAll | ReloadList | Resume | OpenRow string | MoveRow nat int
  | Hover bool | FocusWithin bool | Scroll

definition row_key :: "string \<Rightarrow> nat \<Rightarrow> string \<Rightarrow> traffic_action option" where
  "row_key i index key =
     (if key = ''Enter'' \<or> key = '' '' then Some (OpenRow i)
      else if key = ''ArrowDown'' then Some (MoveRow index 1)
      else if key = ''ArrowUp'' then Some (MoveRow index (-1))
      else None)"

definition refused :: "receipt \<Rightarrow> bool" where
  "refused r \<longleftrightarrow> rc_verdict r = Blocked \<or> rc_verdict r = Throttled"

definition row_label :: "(int \<Rightarrow> int) \<Rightarrow> receipt \<Rightarrow> string" where
  "row_label tz r =
     clock tz (rc_ts r) @ '' '' @ rc_keyName r @ '' '' @ rc_resolvedModel r @ '' '' @
     (if rc_inFlight r then ''streaming'' else vi_label (verdictMeta (rc_verdict r))) @
     (if failedAfterAllowed r then '', failed '' @ int_str (rc_status r) else [])"

definition row_cell :: "receipt \<Rightarrow> string \<Rightarrow> traffic_action ui list" where
  "row_cell r c =
     (if c = ''team'' then [tag ''td'' (rc_team r)]
      else if c = ''model''
      then [elem ''td'' (Txt (rc_resolvedModel r) #
             only_if (rc_requestedModel r \<noteq> rc_resolvedModel r)
               (El ''span'' [(''title'', ''Requested '' @ rc_requestedModel r)] []
                  [Txt (glyph_left_arrow @ '' '' @ rc_requestedModel r)]))]
      else if c = ''backend'' then [tag ''td'' (rc_backend r)]
      else if c = ''tokens''
      then [elem ''td''
             [if rc_inFlight r
              then El ''span'' [(''title'', ''Output tokens arrive at the end of the stream'')] []
                     (TokenCount (rc_inputTokens r) (rc_inputTokens r = 0) False #
                      only_if (rc_inputTokens r > 0) (El ''span'' [(''aria-label'', '' input so far'')] [] [Txt glyph_up_arrow]))
              else TokenCount (rc_inputTokens r + rc_outputTokens r + rc_reasoningTokens r) (refused r) False]]
      else if c = ''cost'' then [elem ''td'' [Money (rc_costUsd r) Micro (rc_inFlight r \<or> refused r)]]
      else if c = ''ms'' then [elem ''td'' [Duration (of_int (rc_durationMs r)) (rc_inFlight r)]]
      else if c = ''status'' then [tag ''td'' (if rc_inFlight r then glyph_ellipsis else int_str (rc_status r))]
      else [])"

definition TrafficRow :: "(int \<Rightarrow> int) \<Rightarrow> string list \<Rightarrow> int \<Rightarrow> nat \<Rightarrow> receipt \<Rightarrow> traffic_action ui" where
  "TrafficRow tz cols mountedAt index r =
     (let m = verdictMeta (rc_verdict r); isNew = (rc_ts r > mountedAt)
      in El ''tr''
        [(''tabIndex'', ''0''), (''data-index'', nat_str index), (''aria-rowindex'', nat_str (index + 2)),
         (''aria-label'', row_label tz r)]
        [(''onClick'', OpenRow (rc_id r)), (''Enter'', OpenRow (rc_id r)), ('' '', OpenRow (rc_id r)),
         (''ArrowDown'', MoveRow index 1), (''ArrowUp'', MoveRow index (-1))]
        ([elem ''td''
           (El ''span'' [(''aria-hidden'', ''true''),
              (''tone'', if rc_inFlight r then ''dashed''
                 else toneBar (if failedAfterAllowed r then ToneDegraded else vi_tone m))] [] []
            # only_if isNew (El ''span'' [(''aria-hidden'', ''true'')] [] [])),
          tag ''td'' (clock tz (rc_ts r)), tag ''td'' (rc_keyName r)]
         @ concat (map (row_cell r) cols) @
         [elem ''td''
           [if rc_inFlight r
            then elem ''span'' [El ''span'' [(''aria-hidden'', ''true'')] [] [Txt glyph_dots], Txt '' Streaming'']
            else El ''span'' [(''tone'', toneText (vi_tone m))] []
                   [El (vi_icon m) [(''aria-hidden'', ''true'')] [] [], Txt (vi_label m)]]]))"

definition spacer :: "int \<Rightarrow> 'e ui" where
  "spacer h = El ''tr'' [(''aria-hidden'', ''true''), (''height'', int_str h)] [] []"

definition VirtualTable ::
  "(int \<Rightarrow> int) \<Rightarrow> receipt list \<Rightarrow> bool \<Rightarrow> int option \<Rightarrow> (string \<times> string) list \<Rightarrow> int \<Rightarrow> viewport \<Rightarrow> int \<Rightarrow> string
     \<Rightarrow> traffic_action ui" where
  "VirtualTable tz rows loaded tot cols mountedAt v rowH footer =
     (let n = int (length rows); st = win_start v rowH; en = win_end v rowH n
      in El ''div'' [] [(''onMouseEnter'', Hover True), (''onMouseLeave'', Hover False), (''onFocus'', FocusWithin True),
           (''onBlur'', FocusWithin False), (''onScroll'', Scroll)]
        (El ''table''
          [(''aria-label'', ''Live traffic''),
           (''aria-rowcount'', case tot of None \<Rightarrow> ''-1'' | Some t \<Rightarrow> int_str (max t n + 1)),
           (''aria-busy'', bool_str (\<not> loaded))] []
          [elem ''thead'' [El ''tr'' [(''aria-rowindex'', ''1'')] []
             ([El ''th'' [(''aria-label'', ''Verdict marker'')] [] [], tag ''th'' ''Time'', tag ''th'' ''Key'']
              @ map (\<lambda>c. tag ''th'' (snd c)) cols @ [tag ''th'' ''Verdict''])],
           elem ''tbody''
            (if \<not> loaded
             then map (\<lambda>i. El ''tr'' [(''data-index'', nat_str i), (''aria-hidden'', ''true'')] []
                    [El ''td'' [(''colSpan'', nat_str (length cols + 4))] [] [icon ''span'']]) [0..<12]
             else only_if (st > 0) (spacer (st * rowH))
               @ map (\<lambda>(i, r). TrafficRow tz (map fst cols) mountedAt i r)
                   (enumerate (nat st) (slice (nat st) (nat en) rows))
               @ only_if (en < n) (spacer ((n - en) * rowH)))]
         # only_if loaded (tag ''p'' footer)))"

definition FilterMenu :: "string \<Rightarrow> string \<Rightarrow> (string \<times> string) list \<Rightarrow> string list \<Rightarrow> traffic_action ui" where
  "FilterMenu k label vals selected =
     (let active = (selected \<noteq> []) in
      elem ''DropdownMenu''
       [El ''DropdownMenuTrigger'' [(''variant'', if active then ''outline'' else ''ghost'')] []
          (Txt label # only_if active
             (tag ''span'' ('': '' @ (case selected of
                [v] \<Rightarrow> or_else (map_option snd (find (\<lambda>x. fst x = v) vals)) []
              | _ \<Rightarrow> nat_str (length selected) @ '' selected'')))),
        elem ''DropdownMenuContent''
          (map (\<lambda>v. El ''DropdownMenuCheckboxItem''
               [(''key'', fst v), (''checked'', bool_str (fst v \<in> set selected))]
               [(''check'', SetFilter k (selected @ [fst v])),
                (''uncheck'', SetFilter k (filter (\<lambda>s. s \<noteq> fst v) selected))]
               [tag ''span'' (snd v)]) vals
           @ (if active then [icon ''DropdownMenuSeparator'',
                El ''DropdownMenuItem'' [] [(''onClick'', SetFilter k [])] [Txt (''Clear '' @ to_lower label)]] else []))])"

definition capitalize :: "string \<Rightarrow> string" where
  "capitalize s = to_upper (take 1 s) @ drop 1 s"

definition DensityPicker :: "string \<Rightarrow> traffic_action ui" where
  "DensityPicker density =
     elem ''DropdownMenu''
       [El ''DropdownMenuTrigger'' [(''aria-label'', ''Density: '' @ density)] []
          [icon ''Rows3'', Txt ('' '' @ capitalize density)],
        elem ''DropdownMenuContent'' (map (\<lambda>d. El ''DropdownMenuCheckboxItem''
          [(''key'', d), (''checked'', bool_str (density = d))] [(''onCheckedChange'', PickDensity d)] [Txt (capitalize d)])
          [''comfortable'', ''compact'', ''dense''])]"

text \<open>What \<open>useTrafficFeed\<close> hands to the page.\<close>

record feed_view =
  fv_rows :: "receipt list"
  fv_loaded :: bool
  fv_loadingOlder :: bool
  fv_reachedEnd :: bool
  fv_count :: "int option"
  fv_dropped :: int
  fv_sampling :: "sampling option"
  fv_wasSampled :: bool

definition api_feed_view :: "api_key list \<Rightarrow> feed \<Rightarrow> int option \<Rightarrow> sampling option \<Rightarrow> feed_view" where
  "api_feed_view ks s n smp =
     (let cur = current ks s in
      \<lparr>fv_rows = fs_rows cur, fv_loaded = fs_loaded cur, fv_loadingOlder = fd_loadingOlder s,
       fv_reachedEnd = fs_reachedEnd cur, fv_count = n, fv_dropped = fd_dropped s,
       fv_sampling = smp, fv_wasSampled = was_sampled ks smp s\<rparr>)"

definition mock_feed_view :: "receipt list \<Rightarrow> feed_view" where
  "mock_feed_view rows =
     \<lparr>fv_rows = rows, fv_loaded = True, fv_loadingOlder = False, fv_reachedEnd = True,
      fv_count = Some (int (length rows)), fv_dropped = 0, fv_sampling = None, fv_wasSampled = False\<rparr>"

definition list_footer :: "(int \<Rightarrow> string) \<Rightarrow> int \<Rightarrow> traffic_window \<Rightarrow> feed_view \<Rightarrow> string" where
  "list_footer edge hotEdge w f =
     (if fv_loadingOlder f then ''Loading older receipts'' @ glyph_ellipsis
      else if \<not> fv_reachedEnd f then ''Older receipts load as you scroll.''
      else if tw_since w \<le> hotEdge + BUCKET_MS
      then ''That'' @ [char_apos] @ ''s everything back to the edge of the 30-day hot window ('' @ edge hotEdge
        @ ''). Older traffic keeps aggregates only.''
      else ''That'' @ [char_apos] @ ''s everything since '' @ edge (tw_since w)
        @ ''. Widen the time range to see older requests.'')"

definition param_chip :: "string \<Rightarrow> string \<Rightarrow> string \<Rightarrow> traffic_action ui" where
  "param_chip label text k =
     elem ''span'' [Txt (label @ '' ''), tag ''span'' text,
       El ''button'' [(''type'', ''button''), (''aria-label'', ''Remove '' @ k @ '' filter'')]
         [(''onClick'', SetFilter k [])] [icon ''X'']]"

definition sampling_notice :: "feed_view \<Rightarrow> traffic_action ui list" where
  "sampling_notice f =
     (case fv_sampling f of
        Some n \<Rightarrow>
          [El ''div'' [(''role'', ''status''), (''aria-label'', ''Stream sampling'')] []
            [tag ''span'' (''Sampling 1 in '' @ int_str (sg_oneIn n) @ ''. Add a filter to see everything matching.''),
             tag ''span'' (''About '' @ locale_int (math_round (sg_ratePerSec n)) @ '' requests a second match, more than the ''
               @ int_str (sg_thresholdPerSec n) @ '' a second this list shows in full. Only new live rows are ''
               @ ''sampled: counts and totals come from the database and stay exact.'')]]
      | None \<Rightarrow> only_if (fv_wasSampled f)
          (El ''div'' [(''role'', ''status''), (''aria-label'', ''Stream sampling'')] []
            [tag ''span'' ''The live rows were sampled for a while, so this list has gaps. Every receipt is stored.'',
             El ''Button'' [] [(''onClick'', ReloadList)] [icon ''RotateCw'', Txt '' Reload the list'']]))"

definition dropped_notice :: "feed_view \<Rightarrow> traffic_action ui list" where
  "dropped_notice f = only_if (fv_dropped f > 0)
     (El ''div'' [(''role'', ''status'')] []
       [tag ''span'' (''Missed '' @ locale_int (fv_dropped f) @ '' receipts while the stream was behind.''),
        tag ''span'' (''They'' @ [char_apos] @ ''re stored, but not in this list. Reload it to see everything, or add a filter to slow the stream.''),
        El ''Button'' [] [(''onClick'', ReloadList)] [icon ''RotateCw'', Txt '' Reload the list'']])"

definition resume_text :: "traffic_ui \<Rightarrow> feed_view \<Rightarrow> string" where
  "resume_text s f =
     (let n = new_count (tu_frozenTop s) (fv_rows f) in
      if n > 0 then nat_str n @ '' new'' @
        (case fv_sampling f of None \<Rightarrow> [] | Some x \<Rightarrow> '' (sampled 1 in '' @ int_str (sg_oneIn x) @ '')'')
        @ '' '' @ glyph_middot @ '' click to resume''
      else if tu_live s then ''Paused while you look''
      else ''Paused '' @ glyph_middot @ '' click to resume'')"

definition count_view :: "feed_view \<Rightarrow> 'e ui" where
  "count_view f =
     (case fv_count f of
        Some n \<Rightarrow> tag ''span'' (locale_int n @ '' matching'')
      | None \<Rightarrow> El ''span'' [(''title'', ''Filtered requests can'' @ [char_apos] @ ''t be counted, so this is what has loaded so far.''
            @ (if fv_wasSampled f then '' Live rows were sampled, so it is less than what happened.'' else []))] []
          [Txt (locale_int (int (length (fv_rows f))) @ '' loaded'')])"

definition toolbar ::
  "catalog \<Rightarrow> (int \<Rightarrow> int) \<Rightarrow> string \<Rightarrow> filters \<Rightarrow> params \<Rightarrow> traffic_ui \<Rightarrow> feed_view \<Rightarrow> traffic_action ui" where
  "toolbar c tz rng fl ps s f =
     El ''div'' [(''role'', ''toolbar''), (''aria-label'', ''Traffic filters'')] []
      ([El ''button'' [(''type'', ''button''), (''aria-pressed'', bool_str (tu_live s))] [(''onClick'', ToggleLive)]
          (if tu_live s then [icon ''span'', Txt '' Live '', icon ''Pause''] else [icon ''Play'', Txt '' Paused'']),
        tag ''span'' (rangeLabel rng), icon ''span'']
       @ map (\<lambda>d. FilterMenu (dim_str (fd_dim d)) (fd_label d) (fd_values d) (fget fl (fd_dim d))) (activeDims c fl)
       @ only_if (extraDims c fl \<noteq> [])
          (elem ''DropdownMenu'' [elem ''DropdownMenuTrigger'' [icon ''Plus'', Txt '' Filter''],
             elem ''DropdownMenuContent'' (map (\<lambda>d. El ''DropdownMenuItem'' [(''key'', dim_str (fd_dim d))]
               [(''onClick'', SetFilter (dim_str (fd_dim d)) [fst (hd (fd_values d))])] [Txt (fd_label d)])
               (filter (\<lambda>d. fd_values d \<noteq> []) (extraDims c fl)))])
       @ (case num_param ps ''since'' of None \<Rightarrow> []
          | Some n \<Rightarrow> [param_chip ''Since'' (case n of None \<Rightarrow> ''Invalid Date'' | Some t \<Rightarrow> clock tz t) ''since''])
       @ (case p_get ps ''day'' of None \<Rightarrow> [] | Some d \<Rightarrow> [param_chip ''Day'' d ''day''])
       @ only_if (hasFilters fl ps) (El ''Button'' [] [(''onClick'', ClearAll)] [Txt ''Clear filters''])
       @ [elem ''span'' [count_view f]])"

text \<open>Title, actions, filter bar and notices.\<close>

definition traffic_head ::
  "catalog \<Rightarrow> (int \<Rightarrow> int) \<Rightarrow> string \<Rightarrow> string \<Rightarrow> filters \<Rightarrow> params \<Rightarrow> traffic_ui \<Rightarrow> feed_view
    \<Rightarrow> traffic_action ui" where
  "traffic_head c tz rng density fl ps s f =
     elem ''div''
       ([elem ''div''
          [elem ''div'' [tag ''h1'' ''Traffic'',
             tag ''p'' (''Every request through the gateway, '' @ rangeLabel rng @ ''. Click a row to open its receipt.'')],
           elem ''div''
             [El ''Button'' [] [(''onClick'', Share)] [icon ''Link2'', Txt '' Share this view''],
              DensityPicker density,
              elem ''DropdownMenu''
               [El ''DropdownMenuTrigger'' [(''aria-label'', ''Columns'')] [] [icon ''Columns3'', Txt '' Columns''],
                elem ''DropdownMenuContent'' (tag ''DropdownMenuGroupLabel'' ''Time and key are pinned'' #
                  map (\<lambda>k. El ''DropdownMenuCheckboxItem'' [(''key'', fst k), (''checked'', bool_str (fst k \<in> set (tu_cols s)))]
                    [(''onCheckedChange'', ToggleCol (fst k))] [Txt (snd k)]) allCols)]]],
         toolbar c tz rng fl ps s f]
        @ sampling_notice f @ dropped_notice f)"

text \<open>The button that resumes a frozen list.\<close>

definition resume_button :: "traffic_ui \<Rightarrow> feed_view \<Rightarrow> traffic_action ui list" where
  "resume_button s f =
     (case tu_frozenTop s of None \<Rightarrow> []
      | Some t \<Rightarrow> [El ''button'' [(''type'', ''button'')] [(''onClick'', Resume)]
          [icon (if tu_live s then ''Pause'' else ''Play''), Txt (resume_text s f)]])"

text \<open>The list, or what is said when it is empty.\<close>

definition traffic_body ::
  "(int \<Rightarrow> int) \<Rightarrow> (int \<Rightarrow> string) \<Rightarrow> int \<Rightarrow> int \<Rightarrow> string \<Rightarrow> filters \<Rightarrow> params \<Rightarrow> traffic_window
    \<Rightarrow> traffic_ui \<Rightarrow> feed_view \<Rightarrow> viewport \<Rightarrow> int \<Rightarrow> traffic_action ui" where
  "traffic_body tz edge now mountedAt rng fl ps w s f v rowH =
     (let visible = visible_rows (tu_frozenTop s) (fv_rows f);
          hotEdge = now - HOT_WINDOW_MS
      in if fv_loaded f \<and> visible = []
         then EmptyState (if hasFilters fl ps then ''No requests match these filters in this window.''
                          else ''No traffic '' @ rangeLabel rng @ ''.'')
                (only_if (hasFilters fl ps) (El ''Button'' [] [(''onClick'', ClearAll)] [Txt ''Clear filters'']))
         else VirtualTable tz visible (fv_loaded f) (fv_count f) (shown_cols (tu_cols s)) mountedAt v rowH
                (list_footer edge hotEdge w f))"

definition TrafficPage ::
  "catalog \<Rightarrow> (int \<Rightarrow> int) \<Rightarrow> (int \<Rightarrow> string) \<Rightarrow> int \<Rightarrow> int \<Rightarrow> string \<Rightarrow> string \<Rightarrow> filters \<Rightarrow> params
    \<Rightarrow> traffic_window \<Rightarrow> traffic_ui \<Rightarrow> feed_view \<Rightarrow> viewport \<Rightarrow> int \<Rightarrow> traffic_action ui" where
  "TrafficPage c tz edge now mountedAt rng density fl ps w s f v rowH =
     elem ''div''
       [traffic_head c tz rng density fl ps s f,
        elem ''div''
         (resume_button s f
          @ [El ''div'' [(''aria-live'', ''polite'')] [] [Txt (tu_announce s)],
             traffic_body tz edge now mountedAt rng fl ps w s f v rowH])]"

section \<open>Lemmas: columns and filters\<close>

lemma toggleCol_mem: "i \<in> set col_ids \<Longrightarrow> set cols \<subseteq> set col_ids \<Longrightarrow>
    set (toggleCol i cols) = (if i \<in> set cols then set cols - {i} else insert i (set cols))"
  by (auto simp: toggleCol_def)

lemma col_ids_distinct: "distinct col_ids"
  by (simp add: col_ids_def allCols_def)

text \<open>Toggling twice gives the same columns, in the table's order.\<close>

lemma toggleCol_twice:
  assumes i: "i \<in> set col_ids" and c: "cols = filter (\<lambda>c. c \<in> S) col_ids"
  shows "toggleCol i (toggleCol i cols) = cols"
proof (cases "i \<in> S")
  case True
  with i c have "i \<in> set cols" by simp
  then have t: "toggleCol i cols = filter (\<lambda>c. c \<noteq> i) cols" by (simp add: toggleCol_def)
  have "toggleCol i (filter (\<lambda>c. c \<noteq> i) cols) = filter (\<lambda>x. x = i \<or> x \<in> set cols \<and> x \<noteq> i) col_ids"
    by (simp add: toggleCol_def)
  also have "\<dots> = filter (\<lambda>c. c \<in> S) col_ids"
    using True by (intro filter_cong) (auto simp: c)
  finally show ?thesis using t c by simp
next
  case False
  with c have ni: "i \<notin> set cols" by simp
  then have t: "toggleCol i cols = filter (\<lambda>x. x = i \<or> x \<in> set cols) col_ids" by (simp add: toggleCol_def)
  have "i \<in> set (toggleCol i cols)" using t i by simp
  then have "toggleCol i (toggleCol i cols) = filter (\<lambda>x. x \<noteq> i) (toggleCol i cols)" by (simp add: toggleCol_def)
  also have "\<dots> = filter (\<lambda>x. x \<in> S) col_ids"
    unfolding t filter_filter using False by (intro filter_cong) (auto simp: c)
  finally show ?thesis using c by simp
qed

text \<open>What a click stored is what the next visit shows, when the storage works.\<close>

lemma toggleCol_click_reload:
  assumes "parse (stringify (toggleCol i cols)) = Some (JArray (toggleCol i cols))" "st_read_ok st" "st_write_ok st"
  shows "loadCols parse (snd (toggleCol_click stringify i cols st)) = fst (toggleCol_click stringify i cols st)"
  using assms by (simp add: toggleCol_click_def loadCols_def set_item_def get_item_def Let_def)

lemma setFilter_replace: "setFilter k vs ps = sp.replace ps k vs"
  by (simp add: setFilter_def sp.replace_def)

lemma setFilter_get: "p_get_all (setFilter k vs ps) k = vs"
  by (simp add: setFilter_replace sp.get_all_replace)

lemma setFilter_other: "k' \<noteq> k \<Longrightarrow> p_get_all (setFilter k vs ps) k' = p_get_all ps k'"
  by (simp add: setFilter_replace sp.get_all_replace_other)

lemma dim_str_inj: "dim_str a = dim_str b \<Longrightarrow> a = b"
  by (cases a; cases b) (auto simp: dim_str_def)

lemma fget_page_filters [simp]: "fget (page_filters ps) d = p_get_all ps (dim_str d)"
  by (cases d) (simp_all add: fget_def page_filters_def dims_order_def)

text \<open>A filter change sets its dimension and leaves the others, the open receipt included.\<close>

lemma setFilter_filters:
  "fget (page_filters (setFilter (dim_str d) vs ps)) e = (if e = d then vs else fget (page_filters ps) e)"
  using dim_str_inj by (auto simp: setFilter_get intro: setFilter_other)

text \<open>Only the five dimensions are read, so any other parameter leaves the filters as they are.\<close>

lemma page_filters_ignore: "k \<notin> dim_str ` set dims_order \<Longrightarrow> page_filters ((k, v) # ps) = page_filters ps"
  by (auto simp: page_filters_def p_get_all_def)

text \<open>
  The memo is right for values that are not empty and have no comma and no ampersand: then the text determines them.
\<close>

definition plain_value :: "string \<Rightarrow> bool" where
  "plain_value v \<longleftrightarrow> v \<noteq> [] \<and> CHR '','' \<notin> set v \<and> CHR ''&'' \<notin> set v"

definition plain_url :: "params \<Rightarrow> bool" where
  "plain_url ps \<longleftrightarrow> list_all (\<lambda>d. list_all plain_value (p_get_all ps (dim_str d))) dims_order"

lemma join_plain_inj:
  assumes "list_all plain_value xs" and "list_all plain_value ys" and "join_str '','' xs = join_str '','' ys"
  shows "xs = ys"
proof -
  have split: "split_chars (\<lambda>c. c = CHR '','') (join_str '','' zs) = zs" if "zs \<noteq> []" "list_all plain_value zs" for zs
    using that by (intro split_chars_join) (auto simp: list_all_iff plain_value_def)
  have nonempty: "join_str '','' zs \<noteq> []" if "zs \<noteq> []" "list_all plain_value zs" for zs
    using that by (cases zs rule: list.exhaust [case_product list.exhaust, of _ "tl zs"]) (auto simp: plain_value_def join_str_Cons)
  show ?thesis
  proof (cases "xs = []")
    case True
    with assms nonempty [of ys] show ?thesis by auto
  next
    case False
    with assms(1,3) nonempty [of xs] have "ys \<noteq> []" by auto
    from split [OF False assms(1)] split [OF this assms(2)] show ?thesis unfolding assms(3) by (rule trans [OF sym])
  qed
qed

lemma filterKey_plain:
  assumes "plain_url p" and "plain_url q" and "filterKey p = filterKey q"
  shows "page_filters p = page_filters q"
proof -
  let ?part = "\<lambda>u d. dim_str d @ ''='' @ join_str '','' (p_get_all u (dim_str d))"
  have no_amp: "CHR ''&'' \<notin> set (?part u d)" if "plain_url u" "d \<in> set dims_order" for u d
  proof -
    have "CHR ''&'' \<notin> set v" if "v \<in> set (p_get_all u (dim_str d))" for v
      using that \<open>plain_url u\<close> \<open>d \<in> set dims_order\<close> by (auto simp: plain_url_def list_all_iff plain_value_def)
    moreover have "CHR ''&'' \<notin> set (dim_str d)" by (cases d) (simp_all add: dim_str_def)
    ultimately show ?thesis using set_join_str [of "'',''" "p_get_all u (dim_str d)"] by auto
  qed
  have split: "split_chars (\<lambda>c. c = CHR ''&'') (filterKey u) = map (?part u) dims_order" if "plain_url u" for u
    unfolding filterKey_def using no_amp [OF that] by (intro split_chars_join) (auto simp: dims_order_def)
  have "p_get_all p (dim_str d) = p_get_all q (dim_str d)" if "d \<in> set dims_order" for d
  proof (rule join_plain_inj)
    have "map (?part p) dims_order = map (?part q) dims_order"
      using split [OF assms(1)] split [OF assms(2)] unfolding assms(3) by (rule trans [OF sym])
    with that have "?part p d = ?part q d" unfolding map_eq_conv by blast
    then show "join_str '','' (p_get_all p (dim_str d)) = join_str '','' (p_get_all q (dim_str d))" by (simp only: same_append_eq)
  qed (use assms(1,2) that in \<open>simp_all add: plain_url_def list_all_iff\<close>)
  then show ?thesis by (simp add: page_filters_def)
qed

text \<open>Two values and one value with a comma have the same text, so the memo keeps the filters of the one for the other.\<close>

lemma filterKey_comma:
  "filters_memo [(''key'', ''a''), (''key'', ''b'')] (Some (filters_memo [(''key'', ''a,b'')] None)) =
     filters_memo [(''key'', ''a,b'')] None"
  "fget (page_filters [(''key'', ''a''), (''key'', ''b'')]) DimKey = [''a'', ''b'']"
  "fget (snd (filters_memo [(''key'', ''a,b'')] None)) DimKey = [''a,b'']"
  by (simp_all add: filters_memo_def filterKey_def dims_order_def dim_str_def p_get_all_def)

lemma clearAll_receipt: "p_get (clearAll ps) ''receipt'' = (case p_get ps ''receipt'' of Some r \<Rightarrow> if r = [] then None else Some r | None \<Rightarrow> None)"
  by (auto simp: clearAll_def p_get_def split: option.split)

lemma clearAll_clean: "\<not> hasFilters (page_filters (clearAll ps)) (clearAll ps)"
  by (auto simp: hasFilters_def clearAll_def page_filters_def dims_order_def dim_str_def p_get_all_def
      num_param_def p_get_def split: option.split)

lemma shareView_link:
  "p_get (shareView rng ps) ''range'' = Some rng" "p_get (shareView rng ps) ''receipt'' = None"
  "page_filters (shareView rng ps) = page_filters ps"
proof -
  show "p_get (shareView rng ps) ''range'' = Some rng" by (simp add: shareView_def p_get_set)
  show "p_get (shareView rng ps) ''receipt'' = None"
    by (simp add: shareView_def p_get_set_other p_get_delete)
  have "dim_str d \<noteq> ''range'' \<and> dim_str d \<noteq> ''receipt''" for d by (cases d) (simp_all add: dim_str_def)
  then show "page_filters (shareView rng ps) = page_filters ps"
    by (simp add: page_filters_def shareView_def p_get_all_set_other sp.get_all_del_other)
qed

section \<open>Lemmas: freezing\<close>

lemma freeze_effect_inv:
  "tu_frozenTop (freeze_effect now rows s) \<noteq> None \<longleftrightarrow> is_frozen s"
  by (auto simp: freeze_effect_def)

text \<open>Newer rows stay out of a frozen list.\<close>

lemma frozen_newer:
  "\<forall>r \<in> set new. rc_ts r > t \<Longrightarrow> visible_rows (Some t) (new @ rows) = visible_rows (Some t) rows"
  by (simp add: visible_rows_def filter_empty_conv not_le)

lemma new_count_newer:
  assumes "\<forall>r \<in> set new. rc_ts r > t" and "\<forall>r \<in> set rows. rc_ts r \<le> t"
  shows "new_count (Some t) (new @ rows) = length new"
proof -
  have "filter (\<lambda>r. rc_ts r \<le> t) new = []"
    using assms(1) by (simp add: filter_empty_conv not_le)
  moreover have "filter (\<lambda>r. rc_ts r \<le> t) rows = rows" using assms(2) by simp
  ultimately have "visible_rows (Some t) (new @ rows) = rows" by (simp add: visible_rows_def)
  then show ?thesis by (simp add: new_count_def)
qed

section \<open>Lemmas: the virtual table\<close>

lemma div_below: "0 < (b::int) \<Longrightarrow> a < (a div b + 1) * b"
proof -
  assume b: "0 < b"
  have "a div b * b + a mod b = a" by simp
  moreover have "a mod b < b" using b by simp
  moreover have "(a div b + 1) * b = a div b * b + b" by (simp add: distrib_right)
  ultimately show ?thesis by linarith
qed

lemma div_le_of_less: "0 < (b::int) \<Longrightarrow> a < (i + 1) * b \<Longrightarrow> a div b \<le> i"
proof -
  assume b: "0 < b" and a: "a < (i + 1) * b"
  have "a div b * b \<le> a" using pos_mod_sign [OF b, of a] div_mult_mod_eq [of a b] by linarith
  with a have "a div b * b < (i + 1) * b" by linarith
  with b have "a div b < i + 1" by (simp add: mult_less_cancel_right)
  then show ?thesis by simp
qed

lemma ceil_div_range: "0 < b \<Longrightarrow> a \<le> ceil_div a b * b \<and> ceil_div a b * b < a + b"
proof -
  assume b: "0 < b"
  have "(- a) div b * b + (- a) mod b = - a" by simp
  moreover have "0 \<le> (- a) mod b" "(- a) mod b < b" using b by simp_all
  ultimately have "(- a) div b * b \<le> - a" "- a - b < (- a) div b * b" by linarith+
  then show ?thesis by (simp add: ceil_div_def)
qed

text \<open>Every row that touches the viewport is among the rendered ones.\<close>

lemma window_covers:
  assumes h: "0 < rowH" and i: "0 \<le> i" "i < n"
    and touch: "i * rowH < vw_top v + vw_height v" "vw_top v < (i + 1) * rowH"
  shows "win_start v rowH \<le> i \<and> i < win_end v rowH n"
proof -
  have "vw_top v div rowH < i + 1"
    using div_le_of_less [OF h touch(2)] by simp
  moreover have "i < ceil_div (vw_top v + vw_height v) rowH"
  proof (rule ccontr)
    assume "\<not> i < ceil_div (vw_top v + vw_height v) rowH"
    then have "ceil_div (vw_top v + vw_height v) rowH * rowH \<le> i * rowH"
      using h by (intro mult_right_mono) auto
    then show False using touch(1) ceil_div_range [OF h, of "vw_top v + vw_height v"] by linarith
  qed
  ultimately show ?thesis using i by (auto simp: win_start_def win_end_def OVERSCAN_def)
qed

text \<open>The spacers and the rendered rows are together as high as all rows.\<close>

lemma window_height:
  assumes "0 < rowH" "win_start v rowH \<le> win_end v rowH (int (length rows))"
  shows "win_start v rowH * rowH
      + int (length (slice (nat (win_start v rowH)) (nat (win_end v rowH (int (length rows)))) rows)) * rowH
      + (int (length rows) - win_end v rowH (int (length rows))) * rowH = int (length rows) * rowH"
proof -
  let ?s = "win_start v rowH" and ?e = "win_end v rowH (int (length rows))"
  have s: "0 \<le> ?s" by (simp add: win_start_def)
  have e: "?e \<le> int (length rows)" by (simp add: win_end_def)
  have "length (slice (nat ?s) (nat ?e) rows) = nat ?e - nat ?s"
    using s e assms(2) by (simp add: length_slice)
  then have "int (length (slice (nat ?s) (nat ?e) rows)) = ?e - ?s"
    using s assms(2) by simp
  then show ?thesis by (simp only: flip: distrib_right) simp
qed

text \<open>The number of rendered rows depends on the viewport, not on the list.\<close>

lemma window_size:
  assumes h: "0 < rowH" and "0 \<le> vw_height v" "0 \<le> vw_top v"
  shows "win_end v rowH n - win_start v rowH \<le> vw_height v div rowH + 2 + 2 * OVERSCAN"
proof -
  let ?c = "ceil_div (vw_top v + vw_height v) rowH" and ?f = "vw_top v div rowH"
  have "?c * rowH < vw_top v + vw_height v + rowH" using ceil_div_range [OF h] by simp
  moreover have "vw_top v < (?f + 1) * rowH"
    by (rule div_below [OF h])
  moreover have "vw_height v < (vw_height v div rowH + 1) * rowH"
    by (rule div_below [OF h])
  ultimately have "?c * rowH < (?f + vw_height v div rowH + 3) * rowH"
    by (simp add: algebra_simps)
  then have "?c < ?f + vw_height v div rowH + 3" using h by simp
  then show ?thesis by (simp add: win_end_def win_start_def)
qed

text \<open>An arrow key leaves the focused row inside the viewport, below the header, and rendered.\<close>

lemma move_row_visible:
  assumes "0 < rowH" "0 \<le> hh" "rowH \<le> clientH - hh" "mv_focus (move_row rowH n hh clientH scroll i step v) = Some k"
  shows "let m = move_row rowH n hh clientH scroll i step v in
    k = i + step \<and> 0 \<le> k \<and> k < n \<and> mv_scroll m \<le> k * rowH \<and> k * rowH + rowH \<le> mv_scroll m + clientH - hh \<and>
    win_start (mv_view m) rowH \<le> k \<and> k < win_end (mv_view m) rowH n"
proof -
  let ?m = "move_row rowH n hh clientH scroll i step v"
  have k: "k = i + step" "0 \<le> k" "k < n"
    using assms(4) by (auto simp: move_row_def Let_def split: if_splits)
  have s: "mv_scroll ?m \<le> k * rowH" "k * rowH + rowH \<le> mv_scroll ?m + clientH - hh"
    using assms k by (auto simp: move_row_def Let_def)
  have v: "mv_view ?m = \<lparr>vw_top = mv_scroll ?m, vw_height = clientH\<rparr>"
    using k by (auto simp: move_row_def Let_def)
  have "win_start (mv_view ?m) rowH \<le> k \<and> k < win_end (mv_view ?m) rowH n"
    using k s assms by (intro window_covers) (auto simp: v algebra_simps)
  with k s show ?thesis by (simp add: Let_def)
qed

text \<open>Rows that arrive on top do not move the first row the reader had.\<close>

lemma find_index_append:
  "\<forall>x \<in> set xs. \<not> p x \<Longrightarrow> p y \<Longrightarrow> find_index p (xs @ y # ys) = int (length xs)"
  by (induction xs) (auto simp: Let_def)

lemma anchor_scroll_keeps:
  assumes t: "tpos \<noteq> 0" and i: "rc_id r \<noteq> []" and n: "new \<noteq> []" and d: "\<forall>x \<in> set new. rc_id x \<noteq> rc_id r"
  shows "anchor_scroll (Some (rc_id r)) (new @ r # rows) rowH tpos - int (length new) * rowH = tpos"
proof -
  have f: "find_index (\<lambda>x. rc_id x = rc_id r) (new @ r # rows) = int (length new)"
    using d by (intro find_index_append) auto
  obtain x xs where x: "new = x # xs" using n by (cases new) auto
  have h: "head_opt (new @ r # rows) = Some x" by (simp add: x head_opt_def)
  have "rc_id x \<noteq> rc_id r" using d x by simp
  then show ?thesis using t i n by (simp add: anchor_scroll_def Let_def f h)
qed

end
