(* ===== verification/FrozenList.thy ===== *)
theory FrozenList
  imports LiveList TrafficPage
begin

text \<open>
  Looking at a list that moves (\<open>pages/traffic.tsx\<close> over \<open>state/traffic-feed.ts\<close>): the Traffic page freezes its list
  while the reader points at it, has the focus in it or has paused it.  The events of the page and of the feed as
  steps on the rows and the page's state, with the effect that freezes after each of them.
\<close>

section \<open>Events\<close>

definition hover_rows :: "bool \<Rightarrow> traffic_ui \<Rightarrow> traffic_ui" where
  "hover_rows b s = s\<lparr>tu_hovering := b\<rparr>"

definition focus_rows :: "bool \<Rightarrow> traffic_ui \<Rightarrow> traffic_ui" where
  "focus_rows b s = s\<lparr>tu_focusWithin := b\<rparr>"

definition toggle_live :: "traffic_ui \<Rightarrow> traffic_ui" where
  "toggle_live s = s\<lparr>tu_live := \<not> tu_live s\<rparr>"

definition traffic_ui_mount :: "string list \<Rightarrow> receipt list \<Rightarrow> traffic_ui" where
  "traffic_ui_mount cols rows =
     \<lparr>tu_live = True, tu_hovering = False, tu_focusWithin = False, tu_frozenTop = None, tu_cols = cols,
      tu_announce = [], tu_lastTop = map_option rc_id (head_opt rows)\<rparr>"

datatype view_event =
    HoverRows bool
  | FocusRows bool
  | TogglePause
  | ResumeList
  | AnnounceTick
  | BatchOf "receipt list"
  | OlderRows "receipt list"

text \<open>An event on the rows and the page; the effect sees the rows that are rendered then.\<close>

definition view_event_act :: "view_event \<Rightarrow> receipt list \<times> traffic_ui \<Rightarrow> receipt list \<times> traffic_ui" where
  "view_event_act ev st = (case st of (rows, s) \<Rightarrow>
     (case ev of
        HoverRows b \<Rightarrow> (rows, hover_rows b s)
      | FocusRows b \<Rightarrow> (rows, focus_rows b s)
      | TogglePause \<Rightarrow> (rows, toggle_live s)
      | ResumeList \<Rightarrow> (rows, resume s)
      | AnnounceTick \<Rightarrow> (rows, announce_tick rows s)
      | BatchOf batch \<Rightarrow> (applyLive rows batch, s)
      | OlderRows older \<Rightarrow> (rows @ older, s)))"

definition view_apply :: "int \<Rightarrow> view_event \<Rightarrow> receipt list \<times> traffic_ui \<Rightarrow> receipt list \<times> traffic_ui" where
  "view_apply now ev st = (case view_event_act ev st of (rows, s) \<Rightarrow> (rows, freeze_effect now rows s))"

fun view_run :: "(int \<times> view_event) list \<Rightarrow> receipt list \<times> traffic_ui \<Rightarrow> receipt list \<times> traffic_ui" where
  "view_run [] st = st"
| "view_run ((now, ev) # evs) st = view_run evs (view_apply now ev st)"

text \<open>
  What leaves a list that is frozen at \<open>t\<close> still: rows that are new to it are newer than \<open>t\<close>, a copy of a known row has
  its time, older rows are unknown, and the list has room.
\<close>

definition quiet_batch :: "int \<Rightarrow> receipt list \<Rightarrow> receipt list \<Rightarrow> bool" where
  "quiet_batch t rows batch \<longleftrightarrow>
     list_all (\<lambda>r. case index_by rc_id rows (rc_id r) of None \<Rightarrow> t < rc_ts r | Some x \<Rightarrow> rc_ts r = rc_ts x) batch \<and>
     length rows + length batch \<le> MAX_ROWS"

definition quiet_event :: "int \<Rightarrow> view_event \<Rightarrow> receipt list \<times> traffic_ui \<Rightarrow> bool" where
  "quiet_event t ev st =
     (case ev of BatchOf batch \<Rightarrow> quiet_batch t (fst st) batch
      | OlderRows older \<Rightarrow> distinct (map rc_id (fst st @ older))
      | _ \<Rightarrow> True)"

fun stays_still :: "int \<Rightarrow> (int \<times> view_event) list \<Rightarrow> receipt list \<times> traffic_ui \<Rightarrow> bool" where
  "stays_still t [] st = True"
| "stays_still t ((now, ev) # evs) st =
     (quiet_event t ev st \<and> tu_frozenTop (snd (view_apply now ev st)) \<noteq> None \<and> stays_still t evs (view_apply now ev st))"

section \<open>Lemmas\<close>

text \<open>After every event the list is frozen exactly when the reader holds it.\<close>

lemma view_apply_frozen: "tu_frozenTop (snd (view_apply now ev st)) \<noteq> None \<longleftrightarrow> is_frozen (snd (view_apply now ev st))"
proof -
  have "is_frozen (freeze_effect now rows s) = is_frozen s" for rows s
    by (simp add: freeze_effect_def is_frozen_def)
  then show ?thesis
    by (simp add: view_apply_def freeze_effect_inv split: prod.split del: not_None_eq)
qed

lemma view_run_frozen:
  "evs \<noteq> [] \<Longrightarrow> tu_frozenTop (snd (view_run evs st)) \<noteq> None \<longleftrightarrow> is_frozen (snd (view_run evs st))"
proof (induction evs arbitrary: st)
  case (Cons e evs)
  then show ?case using view_apply_frozen by (cases e; cases "evs = []") (simp_all del: not_None_eq)
qed simp

text \<open>While it stays frozen, the place where it was frozen does not change.\<close>

lemma frozenTop_kept:
  assumes "tu_frozenTop s = Some t" and "tu_frozenTop (snd (view_apply now ev (rows, s))) \<noteq> None"
  shows "tu_frozenTop (snd (view_apply now ev (rows, s))) = Some t"
proof -
  have announce: "tu_frozenTop (announce_tick r s) = tu_frozenTop s" for r by (simp add: announce_tick_def Let_def)
  have fr: "tu_frozenTop s' = Some t \<Longrightarrow> tu_frozenTop (freeze_effect now r s') \<noteq> None \<Longrightarrow>
      tu_frozenTop (freeze_effect now r s') = Some t" for s' r
    by (auto simp: freeze_effect_def split: if_splits)
  have res: "tu_frozenTop (freeze_effect now r (resume s)) = None" for r
    by (simp add: freeze_effect_def resume_def is_frozen_def)
  from assms show ?thesis
    by (cases ev) (auto simp: view_apply_def view_event_act_def hover_rows_def focus_rows_def toggle_live_def announce res
      intro: fr simp del: not_None_eq)
qed

lemma new_count_eq: "new_count (Some t) rows = length (filter (\<lambda>r. t < rc_ts r) rows)"
  using sum_length_filter_compl [of "\<lambda>r. rc_ts r \<le> t" rows] by (simp add: new_count_def visible_rows_def not_le)

text \<open>A quiet batch: the rows in view are the same ones, in their newest form, and the others are counted.\<close>

lemma quiet_batch_rows:
  assumes d: "distinct (map rc_id rows)" and q: "quiet_batch t rows batch"
  shows "applyLive rows batch = live_new rows batch @ map (newest batch) rows"
    and "r \<in> set (live_new rows batch) \<Longrightarrow> t < rc_ts r"
    and "x \<in> set rows \<Longrightarrow> rc_ts (newest batch x) = rc_ts x"
proof -
  show "applyLive rows batch = live_new rows batch @ map (newest batch) rows"
    using applyLive_room [OF d] q by (simp add: quiet_batch_def)
  have at: "\<And>r. r \<in> set batch \<Longrightarrow> (case index_by rc_id rows (rc_id r) of None \<Rightarrow> t < rc_ts r | Some x \<Rightarrow> rc_ts r = rc_ts x)"
    using q by (simp add: quiet_batch_def list_all_iff)
  show "t < rc_ts r" if "r \<in> set (live_new rows batch)"
  proof -
    have "r \<in> set batch" "index_by rc_id rows (rc_id r) = None"
      using that live_new_subset [of rows batch] by (auto simp: set_live_new index_by_None)
    with at [of r] show ?thesis by simp
  qed
  show "rc_ts (newest batch x) = rc_ts x" if "x \<in> set rows"
  proof (cases "index_by rc_id batch (rc_id x)")
    case (Some r)
    then have r: "r \<in> set batch" "rc_id r = rc_id x" by (auto dest: index_by_Some)
    have "index_by rc_id rows (rc_id r) = Some x" using index_by_distinct [OF d that] r by simp
    with at [OF r(1)] Some show ?thesis by (simp add: newest_def)
  qed (simp add: newest_def)
qed

lemma quiet_batch_view:
  assumes d: "distinct (map rc_id rows)" and q: "quiet_batch t rows batch"
  shows "visible_rows (Some t) (applyLive rows batch) = map (newest batch) (visible_rows (Some t) rows)"
    and "new_count (Some t) (applyLive rows batch) = new_count (Some t) rows + length (live_new rows batch)"
proof -
  note Q = quiet_batch_rows [OF d q]
  have "filter (\<lambda>r. rc_ts r \<le> t) (live_new rows batch) = []" using Q(2) by (auto simp: filter_empty_conv not_le)
  moreover have "filter (\<lambda>r. rc_ts r \<le> t) (map (newest batch) rows) = map (newest batch) (filter (\<lambda>r. rc_ts r \<le> t) rows)"
    unfolding filter_map by (intro arg_cong [where f = "map (newest batch)"] filter_cong) (simp_all add: Q(3))
  ultimately show v: "visible_rows (Some t) (applyLive rows batch) = map (newest batch) (visible_rows (Some t) rows)"
    by (simp add: visible_rows_def Q(1))
  have "length (visible_rows (Some t) rows) \<le> length rows" by (simp add: visible_rows_def)
  with v show "new_count (Some t) (applyLive rows batch) = new_count (Some t) rows + length (live_new rows batch)"
    by (simp add: new_count_def Q(1))
qed

lemma quiet_event_view:
  assumes d: "distinct (map rc_id rows)" and q: "quiet_event t ev (rows, s)" and v: "view_apply now ev (rows, s) = (rows', s')"
  shows "distinct (map rc_id rows') \<and>
    (\<exists>more. map rc_id (visible_rows (Some t) rows') = map rc_id (visible_rows (Some t) rows) @ more) \<and>
    new_count (Some t) rows \<le> new_count (Some t) rows'"
proof -
  have rows': "rows' = fst (view_event_act ev (rows, s))"
    using v by (auto simp: view_apply_def split: prod.splits)
  show ?thesis
  proof (cases ev)
    case (BatchOf batch)
    with q have b: "quiet_batch t rows batch" by (simp add: quiet_event_def)
    from BatchOf quiet_batch_view [OF d b] applyLive_distinct [OF d] show ?thesis
      by (simp add: rows' view_event_act_def)
  next
    case (OlderRows older)
    with q show ?thesis
      by (simp add: rows' view_event_act_def quiet_event_def visible_rows_def new_count_eq)
  qed (simp_all add: rows' view_event_act_def d)
qed

text \<open>However long the reader looks: the rows in view keep their places, at most older ones follow below.\<close>

lemma frozen_view:
  assumes "distinct (map rc_id rows)" and "tu_frozenTop s = Some t" and "stays_still t evs (rows, s)"
    and "view_run evs (rows, s) = (rows', s')"
  shows "tu_frozenTop s' = Some t \<and>
    (\<exists>more. map rc_id (visible_rows (Some t) rows') = map rc_id (visible_rows (Some t) rows) @ more) \<and>
    new_count (Some t) rows \<le> new_count (Some t) rows'"
  using assms
proof (induction evs arbitrary: rows s)
  case (Cons e evs)
  obtain now ev where e: "e = (now, ev)" by (cases e)
  obtain rows1 s1 where v: "view_apply now ev (rows, s) = (rows1, s1)" by (cases "view_apply now ev (rows, s)")
  from Cons.prems e v have q: "quiet_event t ev (rows, s)" "tu_frozenTop s1 \<noteq> None" "stays_still t evs (rows1, s1)"
    "view_run evs (rows1, s1) = (rows', s')" by simp_all
  note E = quiet_event_view [OF Cons.prems(1) q(1) v]
  have "tu_frozenTop s1 = Some t" using frozenTop_kept [OF Cons.prems(2), of now ev rows] v q(2) by simp
  from Cons.IH [OF conjunct1 [OF E] this q(3,4)] E show ?case by auto
qed simp

end
