(* ===== verification/TrafficScreen.thy ===== *)
theory TrafficScreen
  imports StreamReaders FrozenList
begin

text \<open>
  The Traffic page as a whole: the URL says what is filtered, the list on the stream has the receipts, the page draws
  them, and a click goes back to the URL, to the page's own state or to the drawer (\<open>pages/traffic.tsx\<close> over
  \<open>state/traffic-feed.ts\<close> and \<open>state/app-state.tsx\<close>).
\<close>

section \<open>What the page reads and what its clicks do\<close>

definition useTrafficFeed :: "data_mode \<Rightarrow> feed_view \<Rightarrow> feed_view \<Rightarrow> feed_view" where
  "useTrafficFeed mode api1 mock1 = (if mode = Api then api1 else mock1)"

text \<open>The handlers of the page, on the app state (which has the URL) and the page's own.\<close>

definition traffic_act ::
  "(string list \<Rightarrow> string) \<Rightarrow> traffic_action \<Rightarrow> app \<times> traffic_ui \<Rightarrow> app \<times> traffic_ui" where
  "traffic_act stringify x st =
     (case st of (a, s) \<Rightarrow>
       (case x of
          SetFilter k vs \<Rightarrow> (a\<lparr>ap_params := setFilter k vs (ap_params a)\<rparr>, s)
        | ClearAll \<Rightarrow> (a\<lparr>ap_params := clearAll (ap_params a)\<rparr>, s)
        | PickDensity d \<Rightarrow> (setDensity d a, s)
        | ToggleCol i \<Rightarrow>
            (let r = toggleCol_click stringify i (tu_cols s) (ap_storage a)
             in (a\<lparr>ap_storage := snd r\<rparr>, s\<lparr>tu_cols := fst r\<rparr>))
        | ToggleLive \<Rightarrow> (a, toggle_live s)
        | Resume \<Rightarrow> (a, resume s)
        | Hover b \<Rightarrow> (a, hover_rows b s)
        | FocusWithin b \<Rightarrow> (a, focus_rows b s)
        | OpenRow i \<Rightarrow> (openReceipt i a, s)
        | _ \<Rightarrow> (a, s)))"

text \<open>
  The page for a list, with what the polled count and the sampling say.  Its filters are the memoised ones, with which the
  list was rendered.
\<close>

definition traffic_screen ::
  "catalog \<Rightarrow> (int \<Rightarrow> int) \<Rightarrow> (int \<Rightarrow> string) \<Rightarrow> int \<Rightarrow> int \<Rightarrow> app \<Rightarrow> traffic_ui \<Rightarrow> api_key list \<Rightarrow> feed
    \<Rightarrow> int option \<Rightarrow> sampling option \<Rightarrow> receipt list \<Rightarrow> viewport \<Rightarrow> int \<Rightarrow> traffic_action ui" where
  "traffic_screen c tz edge now mountedAt a s ks fd cnt smp all v rowH =
     TrafficPage c tz edge now mountedAt (ap_range a) (ap_density a) (fd_filters fd) (ap_params a) (fd_window fd) s
       (useTrafficFeed Api (api_feed_view ks fd cnt smp) (mock_feed_view (mock_feed_rows None (fd_window fd) all))) v rowH"

section \<open>What can be clicked\<close>

text \<open>The rows are the only place where a receipt is opened; the rest of the page changes the URL or the page.\<close>

lemma ui_actions_only_if [simp]: "concat (map ui_actions (only_if b u)) = (if b then ui_actions u else [])"
  by (simp add: only_if_def)

lemma plain_actions [simp]:
  "ui_actions (Money m p u) = []" "ui_actions (TokenCount n u e) = []" "ui_actions (Duration ms u) = []"
  "ui_actions (spacer h) = []" "ui_actions (count_view f) = []"
  by (simp_all add: Money_def TokenCount_def Duration_def unknown_view_def spacer_def count_view_def Let_def split: option.split)

lemma row_cell_actions [simp]: "concat (map ui_actions (row_cell r c)) = []"
  by (simp add: row_cell_def)

lemma row_actions:
  "set (ui_actions (TrafficRow tz cols m i r)) = {OpenRow (rc_id r), MoveRow i 1, MoveRow i (-1)}"
proof -
  have "concat (map ui_actions (concat (map (row_cell r) cols))) = []" by (induction cols) simp_all
  then show ?thesis by (auto simp: TrafficRow_def Let_def)
qed

definition row_opens_only :: "receipt list \<Rightarrow> traffic_action ui \<Rightarrow> bool" where
  "row_opens_only rows u \<longleftrightarrow> (\<forall>i. OpenRow i \<in> set (ui_actions u) \<longrightarrow> i \<in> rc_id ` set rows)"

lemma set_enumerate_snd: "(i, x) \<in> set (enumerate n xs) \<Longrightarrow> x \<in> set xs"
  unfolding enumerate_eq_zip by (rule set_zip_rightD)

lemma table_opens: "row_opens_only rows (VirtualTable tz rows ld tot cols m v rowH ft)"
proof -
  let ?drawn = "enumerate (nat (win_start v rowH)) (slice (nat (win_start v rowH)) (nat (win_end v rowH (int (length rows)))) rows)"
  have "r \<in> set rows" if "(i, r) \<in> set ?drawn" for i r
    using set_enumerate_snd [OF that] by (rule subsetD [OF set_slice])
  then have rows: "\<forall>p \<in> set ?drawn. \<forall>i. OpenRow i \<in> set (ui_actions (case p of (j, r) \<Rightarrow> TrafficRow tz (map fst cols) m j r)) \<longrightarrow>
      i \<in> rc_id ` set rows"
    by (auto simp: row_actions)
  show ?thesis
    unfolding row_opens_only_def VirtualTable_def Let_def
    using rows by (cases ld) (auto simp: only_if_def)
qed

lemma head_opens: "OpenRow i \<notin> set (ui_actions (traffic_head c tz rng density fl ps s f))"
  by (auto simp: traffic_head_def DensityPicker_def toolbar_def FilterMenu_def param_chip_def sampling_notice_def
      dropped_notice_def only_if_def Let_def split: option.splits)

lemma page_opens:
  "row_opens_only (visible_rows (tu_frozenTop s) (fv_rows f)) (TrafficPage c tz edge now m rng density fl ps w s f v rowH)"
  using head_opens table_opens
  by (auto simp: TrafficPage_def row_opens_only_def traffic_body_def resume_button_def EmptyState_def only_if_def Let_def
      split: option.splits)

text \<open>A row that can be clicked answers the filters of the page, and the drawer finds it.\<close>

lemma screen_row:
  assumes run: "tab_run ks sat seed t" and cap: "length seed \<le> ROWS_CAP" and fd: "ll_feed (tb_list t) = Some fd"
    and row: "OpenRow i \<in> set (ui_actions (traffic_screen c tz edge now m a s ks fd cnt smp all v rowH))"
  shows "\<exists>r. rc_id r = i \<and> sat (tail_query ks (fd_filters fd)) r \<and> in_window (fd_window fd) r \<and>
      (\<forall>top. tu_frozenTop s = Some top \<longrightarrow> rc_ts r \<le> top)"
    and "length (st_byId (ll_stream (tb_list t))) < BYID_CAP \<Longrightarrow> i \<noteq> [] \<Longrightarrow>
      \<exists>r. tb_drawer (change_app (fst (traffic_act stringify (OpenRow i) (a, s))) t) = Some r \<and> rc_id r = i"
proof -
  have run': "list_run ks sat seed (tb_list t)" using run by (rule tab_run_list)
  from row page_opens obtain r where
    r: "r \<in> set (visible_rows (tu_frozenTop s) (fs_rows (current ks fd)))" "rc_id r = i"
    by (fastforce simp: traffic_screen_def row_opens_only_def useTrafficFeed_def api_feed_view_def Let_def)
  then have mem: "r \<in> set (fs_rows (current ks fd))" by (auto simp: visible_rows_def split: option.splits)
  from r list_rows_answer(2) [OF run' cap fd mem] show
    "\<exists>r. rc_id r = i \<and> sat (tail_query ks (fd_filters fd)) r \<and> in_window (fd_window fd) r \<and>
      (\<forall>top. tu_frozenTop s = Some top \<longrightarrow> rc_ts r \<le> top)"
    by (auto simp: visible_rows_def)
  assume "length (st_byId (ll_stream (tb_list t))) < BYID_CAP" "i \<noteq> []"
  from row_opens [OF run' cap fd this(1) mem] r(2) this(2) show
    "\<exists>r. tb_drawer (change_app (fst (traffic_act stringify (OpenRow i) (a, s))) t) = Some r \<and> rc_id r = i"
    by (auto simp: change_app_def render_readers_def traffic_act_def)
qed

section \<open>What the filter bar does\<close>

definition filter_actions :: "filter_dim \<Rightarrow> string list \<Rightarrow> traffic_action list" where
  "filter_actions d sel =
     map (\<lambda>v. SetFilter (dim_str (fd_dim d)) (sel @ [fst v])) (fd_values d) @
     map (\<lambda>v. SetFilter (dim_str (fd_dim d)) (filter (\<lambda>x. x \<noteq> fst v) sel)) (fd_values d) @ [SetFilter (dim_str (fd_dim d)) []]"

lemma FilterMenu_actions:
  "set (ui_actions (FilterMenu (dim_str (fd_dim d)) l (fd_values d) sel)) \<subseteq> set (filter_actions d sel)"
  by (auto simp: FilterMenu_def filter_actions_def only_if_def Let_def)

text \<open>A filter that the bar offers is one more value, one less, none, or the first value of a dimension not yet filtered.\<close>

definition offered_filter :: "catalog \<Rightarrow> filters \<Rightarrow> dim \<Rightarrow> string list \<Rightarrow> bool" where
  "offered_filter c fl d vs \<longleftrightarrow>
     (let sel = fget fl d in
      vs = [] \<or> (\<exists>x \<in> set (traffic_dims c). fd_dim x = d \<and>
        (\<exists>v \<in> fst ` set (fd_values x). vs = sel @ [v] \<or> vs = filter (\<lambda>y. y \<noteq> v) sel)))"

lemma toolbar_filters:
  assumes "SetFilter k vs \<in> set (ui_actions (toolbar c tz rng fl ps s f))"
  shows "(\<exists>d. k = dim_str d \<and> offered_filter c fl d vs) \<or> k \<in> {''since'', ''day''} \<and> vs = []"
proof -
  have menu: "\<exists>d. k = dim_str d \<and> offered_filter c fl d vs"
    if "SetFilter k vs \<in> set (ui_actions (FilterMenu (dim_str (fd_dim d)) (fd_label d) (fd_values d) (fget fl (fd_dim d))))"
      "d \<in> set (activeDims c fl)" for d
    using FilterMenu_actions that by (fastforce simp: filter_actions_def offered_filter_def activeDims_def Let_def)
  have more: "\<exists>d. k = dim_str d \<and> offered_filter c fl d vs"
    if "d \<in> set (extraDims c fl)" "fd_values d \<noteq> []" "k = dim_str (fd_dim d)" "vs = [fst (hd (fd_values d))]" for d
  proof -
    have "fst (hd (fd_values d)) \<in> fst ` set (fd_values d)" using that(2) by simp
    with that show ?thesis by (fastforce simp: offered_filter_def extraDims_def Let_def)
  qed
  have "(\<exists>d \<in> set (activeDims c fl). SetFilter k vs \<in> set (ui_actions
        (FilterMenu (dim_str (fd_dim d)) (fd_label d) (fd_values d) (fget fl (fd_dim d))))) \<or>
      (\<exists>d \<in> set (extraDims c fl). fd_values d \<noteq> [] \<and> k = dim_str (fd_dim d) \<and> vs = [fst (hd (fd_values d))]) \<or>
      k \<in> {''since'', ''day''} \<and> vs = []"
    using assms by (auto simp: toolbar_def param_chip_def only_if_def split: option.splits if_splits)
  with menu more show ?thesis by blast
qed

lemma receipt_no_dim: "dim_str d \<noteq> ''receipt''"
  by (cases d) (simp_all add: dim_str_def)

lemma dim_no_other: "dim_str d \<notin> {''since'', ''day'', ''until'', ''range'', ''receipt''}"
  by (cases d) (simp_all add: dim_str_def)

lemma setFilter_get_other: "k' \<noteq> k \<Longrightarrow> p_get (setFilter k vs ps) k' = p_get ps k'"
  by (simp add: p_get_first setFilter_other)

text \<open>The rest of the page offers no filter.\<close>

lemma page_filters_offered:
  assumes "SetFilter k vs \<in> set (ui_actions (TrafficPage c tz edge now m rng density fl ps w s f v rowH))"
  shows "SetFilter k vs \<in> set (ui_actions (toolbar c tz rng fl ps s f))"
proof -
  have table: "SetFilter k vs \<notin> set (ui_actions (VirtualTable tz rows ld tot cols m v rowH ft))" for rows ld tot cols ft
    unfolding VirtualTable_def Let_def by (cases ld) (auto simp: only_if_def row_actions)
  have body: "SetFilter k vs \<notin> set (ui_actions (traffic_body tz edge now m rng fl ps w s f v rowH))"
    using table by (auto simp: traffic_body_def EmptyState_def only_if_def Let_def)
  have head: "SetFilter k vs \<in> set (ui_actions (toolbar c tz rng fl ps s f))"
    if "SetFilter k vs \<in> set (ui_actions (traffic_head c tz rng density fl ps s f))"
    using that by (auto simp: traffic_head_def DensityPicker_def sampling_notice_def dropped_notice_def only_if_def
      split: option.splits if_splits)
  from assms body head show ?thesis
    by (cases "tu_frozenTop s") (auto simp: TrafficPage_def resume_button_def)
qed

lemma filter_click:
  assumes "SetFilter k vs \<in> set (ui_actions (traffic_screen c tz edge now m a s ks fd cnt smp all v rowH))"
    and a': "a' = fst (traffic_act stringify (SetFilter k vs) (a, s))"
  shows "receiptId a' = receiptId a" (is ?receipt)
    and "(\<exists>d. k = dim_str d \<and> offered_filter c (fd_filters fd) d vs \<and>
        (\<forall>e. fget (page_filters (ap_params a')) e = (if e = d then vs else fget (page_filters (ap_params a)) e))) \<or>
      k \<in> {''since'', ''day''} \<and> p_get (ap_params a') k = None \<and> page_filters (ap_params a') = page_filters (ap_params a)"
      (is ?filters)
proof -
  from assms(1) have offered: "(\<exists>d. k = dim_str d \<and> offered_filter c (fd_filters fd) d vs) \<or> k \<in> {''since'', ''day''} \<and> vs = []"
    unfolding traffic_screen_def by (intro toolbar_filters page_filters_offered)
  then have "k \<noteq> ''receipt''" by (auto simp: receipt_no_dim receipt_no_dim [THEN not_sym])
  then show ?receipt by (simp add: a' traffic_act_def receiptId_def setFilter_get_other)
  have other: "page_filters (setFilter k vs (ap_params a)) = page_filters (ap_params a)" if "k \<in> {''since'', ''day''}"
    using that dim_no_other by (auto simp: page_filters_def intro!: setFilter_other)
  have none: "p_get (setFilter k [] (ap_params a)) k = None" by (simp add: p_get_first setFilter_get head_opt_def)
  have p: "ap_params a' = setFilter k vs (ap_params a)" by (simp add: a' traffic_act_def)
  from offered show ?filters
  proof (elim disjE exE conjE)
    fix d assume "k = dim_str d" "offered_filter c (fd_filters fd) d vs"
    then show ?filters unfolding p by (intro disjI1 exI [of _ d]) (simp add: setFilter_filters del: fget_page_filters)
  next
    assume "k \<in> {''since'', ''day''}" "vs = []"
    with other none show ?filters unfolding p by simp
  qed
qed

section \<open>The page in the tab\<close>

text \<open>
  The page while it is open: the tab, the page's own state, the memo of its filters, and the time at which the window was
  computed.  The window is a memo too, of the range and the parameters \<open>since\<close>, \<open>day\<close> and \<open>until\<close>.  \<open>tt_visited\<close> records the
  URLs the page has had.  A range that is none of the menu's gives NaN, which is left out.
\<close>

record traffic_tab =
  tt_tab :: tab
  tt_ui :: traffic_ui
  tt_memo :: "string \<times> filters"
  tt_at :: int
  tt_visited :: "params list"

definition range_of :: "app \<Rightarrow> int" where
  "range_of a = or_else (rangeMs (ap_range a)) 0"

definition tab_window :: "int \<Rightarrow> app \<Rightarrow> traffic_window" where
  "tab_window at' a = page_window at' (range_of a) (ap_params a)"

text \<open>The page is opened: the first render, then the effects.\<close>

definition visit_page :: "api_key list \<Rightarrow> int \<Rightarrow> int \<Rightarrow> traffic_ui \<Rightarrow> tab \<Rightarrow> traffic_tab" where
  "visit_page ks at' now s t =
     (let a = tb_app t; m = filters_memo (ap_params a) None
      in \<lparr>tt_tab = tell_readers (list_mount ks now (snd m) (tab_window at' a) (tb_list t)) t,
          tt_ui = s, tt_memo = m, tt_at = at', tt_visited = [ap_params a]\<rparr>)"

text \<open>The app's state changes, the URL with it: everything renders again, the page with its memos.\<close>

definition goto_page :: "api_key list \<Rightarrow> int \<Rightarrow> int \<Rightarrow> app \<Rightarrow> traffic_tab \<Rightarrow> traffic_tab" where
  "goto_page ks at' now a p =
     (let old = tb_app (tt_tab p); t = change_app a (tt_tab p); m = filters_memo (ap_params a) (Some (tt_memo p));
          at1 = (if window_deps (ap_range a) (ap_params a) = window_deps (ap_range old) (ap_params old) then tt_at p else at')
      in case ll_feed (tb_list t) of
           None \<Rightarrow> p
         | Some fd \<Rightarrow>
             p\<lparr>tt_tab := tell_readers (list_render ks now (snd m) (tab_window at1 a) fd (tb_list t)) t,
               tt_memo := m, tt_at := at1, tt_visited := tt_visited p @ [ap_params a]\<rparr>)"

text \<open>
  Besides, everything that happens to the list and the stream while the page stays as it is rendered (replies, receipts,
  timers, reloads, paging), and any change of the page's own state (clicks, freezing, announcements).
\<close>

definition keeps_args :: "live_list \<Rightarrow> live_list \<Rightarrow> bool" where
  "keeps_args L L' \<longleftrightarrow> (\<exists>fd fd'. ll_feed L = Some fd \<and> ll_feed L' = Some fd' \<and>
     fd_filters fd' = fd_filters fd \<and> fd_window fd' = fd_window fd)"

inductive page_step :: "api_key list \<Rightarrow> (string \<Rightarrow> receipt \<Rightarrow> bool) \<Rightarrow> traffic_tab \<Rightarrow> traffic_tab \<Rightarrow> bool" for ks sat where
  Goto: "rangeMs (ap_range a) \<noteq> None \<Longrightarrow> page_step ks sat p (goto_page ks at' now a p)"
| Listed: "list_step ks sat (tb_list (tt_tab p)) L' \<Longrightarrow> keeps_args (tb_list (tt_tab p)) L' \<Longrightarrow>
    page_step ks sat p (p\<lparr>tt_tab := tell_readers L' (tt_tab p)\<rparr>)"
| Ui: "page_step ks sat p (p\<lparr>tt_ui := s\<rparr>)"

inductive page_run :: "api_key list \<Rightarrow> (string \<Rightarrow> receipt \<Rightarrow> bool) \<Rightarrow> receipt list \<Rightarrow> traffic_tab \<Rightarrow> bool" for ks sat seed where
  Visit: "tab_run ks sat seed t \<Longrightarrow> ll_feed (tb_list t) = None \<Longrightarrow> rangeMs (ap_range (tb_app t)) \<noteq> None \<Longrightarrow>
    page_run ks sat seed (visit_page ks at' now s t)"
| Step: "page_run ks sat seed p \<Longrightarrow> page_step ks sat p p' \<Longrightarrow> page_run ks sat seed p'"

lemma page_run_tab: "page_run ks sat seed p \<Longrightarrow> tab_run ks sat seed (tt_tab p)"
proof (induction rule: page_run.induct)
  case (Visit t at' now s)
  then show ?case
    by (auto simp: visit_page_def Let_def intro!: tab_run.Step [OF Visit(1)] tab_step.ListStep list_step.Mount)
next
  case (Step p p')
  from Step(2) show ?case
  proof cases
    case (Goto a at' now)
    have "tab_run ks sat seed (change_app a (tt_tab p))" by (rule tab_run.Step [OF Step(3) tab_step.AppStep])
    then have "tab_run ks sat seed (tell_readers (list_render ks now f w fd (tb_list (tt_tab p))) (change_app a (tt_tab p)))"
      if "ll_feed (tb_list (tt_tab p)) = Some fd" for f w fd
      by (rule tab_run.Step [OF _ tab_step.ListStep]) (simp add: list_step.Render [OF that])
    with Step(3) show ?thesis unfolding Goto(1) goto_page_def Let_def by (simp split: option.split)
  qed (use Step(3) in \<open>auto intro: tab_run.Step tab_step.ListStep\<close>)
qed

section \<open>The list is rendered for the URL\<close>

lemma hand_args:
  "fd_filters (hand_over b fd) = fd_filters fd \<and> fd_window (hand_over b fd) = fd_window fd"
  "fd_filters (hand_drop d fd) = fd_filters fd \<and> fd_window (hand_drop d fd) = fd_window fd"
  by (auto simp: hand_over_def hand_drop_def on_receipts_def on_drop_def Let_def split: prod.split option.split)

lemma args_kept [simp]:
  "fd_filters (fold hand_over bs fd) = fd_filters fd" "fd_window (fold hand_over bs fd) = fd_window fd"
  "fd_filters (fold hand_drop ds fd) = fd_filters fd" "fd_window (fold hand_drop ds fd) = fd_window fd"
proof -
  show "fd_filters (fold hand_over bs fd) = fd_filters fd" "fd_window (fold hand_over bs fd) = fd_window fd"
    by (induction bs arbitrary: fd) (simp_all add: hand_args)
  show "fd_filters (fold hand_drop ds fd) = fd_filters fd" "fd_window (fold hand_drop ds fd) = fd_window fd"
    by (induction ds arbitrary: fd) (simp_all add: hand_args)
qed

definition rendered_with :: "filters \<Rightarrow> traffic_window \<Rightarrow> live_list \<Rightarrow> bool" where
  "rendered_with f w L \<longleftrightarrow> (\<exists>fd. ll_feed L = Some fd \<and> fd_filters fd = f \<and> fd_window fd = w)"

lemma rendered_open: "rendered_with (fd_filters fd) (fd_window fd) (open_tail fd L)"
  by (auto simp: rendered_with_def open_tail_def on_stream_def Let_def split: option.split)

lemma rendered_mount: "rendered_with f w (list_mount ks now f w L)"
  using rendered_open [of "mount ks now f w" L] by (simp add: list_mount_def mount_first)

lemma rendered_render: "rendered_with f w (list_render ks now f w fd L)"
proof -
  have "fd_filters (render ks now f w fd) = f" "fd_window (render ks now f w fd) = w"
    by (simp_all add: render_def run_effect_def Let_def)
  then show ?thesis
    using rendered_open [of "render ks now f w fd" "cleanup fd L"] by (auto simp: list_render_def rendered_with_def)
qed

text \<open>The memo holds the filters of a URL that the page had, with the text of the present one.\<close>

definition page_memo :: "traffic_tab \<Rightarrow> bool" where
  "page_memo p \<longleftrightarrow>
     (let a = tb_app (tt_tab p)
      in rendered_with (snd (tt_memo p)) (tab_window (tt_at p) a) (tb_list (tt_tab p)) \<and>
         ap_params a \<in> set (tt_visited p) \<and> fst (tt_memo p) = filterKey (ap_params a) \<and>
         (\<exists>u \<in> set (tt_visited p). filterKey u = fst (tt_memo p) \<and> page_filters u = snd (tt_memo p)))"

lemma page_memo_goto:
  assumes "page_memo p"
  shows "page_memo (goto_page ks at' now a p)"
proof -
  let ?m = "filters_memo (ap_params a) (Some (tt_memo p))"
  obtain fd where fd: "ll_feed (tb_list (tt_tab p)) = Some fd" using assms by (auto simp: page_memo_def rendered_with_def Let_def)
  have m: "fst ?m = filterKey (ap_params a)" by (simp add: filters_memo_def split: prod.split)
  have "\<exists>u \<in> insert (ap_params a) (set (tt_visited p)). filterKey u = fst ?m \<and> page_filters u = snd ?m"
    using assms by (auto simp: page_memo_def filters_memo_def Let_def split: prod.splits)
  with m show ?thesis
    by (simp add: goto_page_def page_memo_def fd rendered_render Let_def)
qed

lemma page_run_memo: "page_run ks sat seed p \<Longrightarrow> page_memo p"
proof (induction rule: page_run.induct)
  case (Visit t at' now s)
  show ?case by (simp add: visit_page_def page_memo_def filters_memo_def rendered_mount Let_def)
next
  case (Step p p')
  from Step(2) show ?case
  proof cases
    case (Listed L')
    then show ?thesis using Step(3) by (auto simp: page_memo_def rendered_with_def keeps_args_def Let_def)
  next
    case (Ui s)
    then show ?thesis using Step(3) by (auto simp: page_memo_def Let_def)
  qed (simp add: page_memo_goto [OF Step(3)])
qed

text \<open>With plain values in every URL that the page had, the list is rendered for the URL.\<close>

lemma page_run_url:
  assumes "page_run ks sat seed p" and "list_all plain_url (tt_visited p)" and "ll_feed (tb_list (tt_tab p)) = Some fd"
  shows "fd_filters fd = page_filters (ap_params (tb_app (tt_tab p)))"
    and "fd_window fd = tab_window (tt_at p) (tb_app (tt_tab p))"
proof -
  from page_run_memo [OF assms(1)] assms(3) obtain u where
    u: "u \<in> set (tt_visited p)" "filterKey u = filterKey (ap_params (tb_app (tt_tab p)))" "page_filters u = fd_filters fd"
      "ap_params (tb_app (tt_tab p)) \<in> set (tt_visited p)"
    and w: "fd_window fd = tab_window (tt_at p) (tb_app (tt_tab p))"
    by (auto simp: page_memo_def rendered_with_def Let_def)
  with assms(2) filterKey_plain [OF _ _ u(2)] show "fd_filters fd = page_filters (ap_params (tb_app (tt_tab p)))"
    by (simp add: list_all_iff)
  from w show "fd_window fd = tab_window (tt_at p) (tb_app (tt_tab p))" .
qed

text \<open>Without, it can be rendered for another one: the memo takes two values for one that has a comma.\<close>

lemma comma_goto:
  assumes "tab_run ks sat seed t" and "ll_feed (tb_list t) = None" and "rangeMs (ap_range (tb_app t)) \<noteq> None"
    and "ap_params (tb_app t) = [(''key'', ''a,b'')]"
    and p_def: "p = goto_page ks at' now ((tb_app t)\<lparr>ap_params := [(''key'', ''a''), (''key'', ''b'')]\<rparr>) (visit_page ks at' now s t)"
  shows "page_run ks sat seed p" and "ap_params (tb_app (tt_tab p)) = [(''key'', ''a''), (''key'', ''b'')]"
    and "\<exists>fd. ll_feed (tb_list (tt_tab p)) = Some fd \<and> fget (fd_filters fd) DimKey = [''a,b'']"
proof -
  let ?v = "visit_page ks at' now s t"
  have run: "page_run ks sat seed ?v" by (rule page_run.Visit [OF assms(1-3)])
  then show "page_run ks sat seed p"
    unfolding p_def by (rule page_run.Step) (rule page_step.Goto, use assms(3) in simp)
  then have memo: "page_memo p" by (rule page_run_memo)
  obtain fd where fd: "ll_feed (tb_list (tt_tab ?v)) = Some fd"
    using page_run_memo [OF run] by (auto simp: page_memo_def rendered_with_def Let_def)
  then show "ap_params (tb_app (tt_tab p)) = [(''key'', ''a''), (''key'', ''b'')]" by (simp add: p_def goto_page_def Let_def)
  have "tt_memo ?v = filters_memo [(''key'', ''a,b'')] None" by (simp add: visit_page_def assms(4) Let_def)
  with fd have "tt_memo p = filters_memo [(''key'', ''a,b'')] None"
    by (simp add: p_def goto_page_def filterKey_comma(1) Let_def)
  with memo filterKey_comma(3) show "\<exists>fd. ll_feed (tb_list (tt_tab p)) = Some fd \<and> fget (fd_filters fd) DimKey = [''a,b'']"
    by (auto simp: page_memo_def rendered_with_def Let_def)
qed

end
