(* ===== verification/Palette.thy ===== *)
theory Palette
  imports AppState
begin

text \<open>
  \<open>components/shell/command-palette.tsx\<close>: what a query finds, and the dialog as a state machine.  The list of
  results is memoised: it is computed when the query or the router's location changes, not when receipts arrive.
\<close>

section \<open>Results\<close>

datatype palette_run = RunReceipt string | RunNavigate string

record palette_result =
  pr_id :: string
  pr_label :: string
  pr_hint :: string
  pr_icon :: string
  pr_run :: palette_run

text \<open>\<open>/^[0-9a-f-]{6,}$/\<close>.\<close>

definition is_trace_char :: "char \<Rightarrow> bool" where
  "is_trace_char c \<longleftrightarrow> is_digit_char c \<or> c \<in> set ''abcdef-''"

definition looks_like_trace :: "string \<Rightarrow> bool" where
  "looks_like_trace s \<longleftrightarrow> 6 \<le> length s \<and> list_all is_trace_char s"

definition needle_of :: "string \<Rightarrow> string" where
  "needle_of q = to_lower (js_trim q)"

definition receipt_matches :: "string \<Rightarrow> receipt \<Rightarrow> bool" where
  "receipt_matches needle r \<longleftrightarrow> starts_with needle (rc_traceId r) \<or> starts_with needle (rc_id r)"

definition receipt_result :: "receipt \<Rightarrow> palette_result" where
  "receipt_result r =
     \<lparr>pr_id = CHR ''r'' # rc_id r, pr_label = ''Receipt '' @ rc_id r,
      pr_hint = rc_keyName r @ '' '' @ glyph_middot @ '' '' @ rc_resolvedModel r @ '' '' @ glyph_middot @ '' ''
        @ verdict_str (rc_verdict r),
      pr_icon = ''FileText'', pr_run = RunReceipt (rc_id r)\<rparr>"

text \<open>The loop over the cache, which stops with the fifth result.\<close>

fun trace_results :: "string \<Rightarrow> receipt list \<Rightarrow> palette_result list \<Rightarrow> palette_result list" where
  "trace_results needle [] out = out"
| "trace_results needle (r # rs) out =
     (if receipt_matches needle r
      then (let out' = out @ [receipt_result r] in if length out' > 4 then out' else trace_results needle rs out')
      else trace_results needle rs out)"

definition key_result :: "api_key \<Rightarrow> palette_result" where
  "key_result k =
     \<lparr>pr_id = CHR ''k'' # ak_id k, pr_label = ak_name k,
      pr_hint = ''Key '' @ glyph_middot @ '' '' @ ak_prefix k @ glyph_ellipsis @ '' '' @ glyph_middot @ '' '' @ ak_team k,
      pr_icon = ''KeyRound'', pr_run = RunNavigate (''/keys?key='' @ ak_id k)\<rparr>"

definition model_result :: "model \<Rightarrow> palette_result" where
  "model_result m =
     \<lparr>pr_id = CHR ''m'' # md_id m, pr_label = md_id m, pr_hint = ''Model '' @ glyph_middot @ '' '' @ md_provider m,
      pr_icon = ''Boxes'', pr_run = RunNavigate (''/traffic?model='' @ md_id m)\<rparr>"

definition result_matches :: "string \<Rightarrow> palette_result \<Rightarrow> bool" where
  "result_matches needle i \<longleftrightarrow>
     needle = [] \<or> includes_str needle (to_lower (pr_label i)) \<or> includes_str needle (to_lower (pr_hint i))"

definition palette_results :: "api_key list \<Rightarrow> model list \<Rightarrow> receipt list \<Rightarrow> string \<Rightarrow> palette_result list" where
  "palette_results ks ms cached q =
     (let needle = needle_of q;
          out = (if looks_like_trace needle then trace_results needle cached [] else [])
      in take 12 (out @ filter (result_matches needle) (map key_result ks)
                      @ filter (result_matches needle) (map model_result ms)))"

section \<open>The dialog\<close>

record palette =
  pa_open :: bool
  pa_q :: string
  pa_active :: int
  pa_results :: "palette_result list"
  pa_ran :: "palette_run list"

record palette_env =
  pe_keys :: "api_key list"
  pe_models :: "model list"
  pe_cached :: "receipt list"

definition results_in :: "palette_env \<Rightarrow> string \<Rightarrow> palette_result list" where
  "results_in e q = palette_results (pe_keys e) (pe_models e) (pe_cached e) q"

definition palette_mount :: "palette_env \<Rightarrow> palette" where
  "palette_mount e = \<lparr>pa_open = False, pa_q = [], pa_active = 0, pa_results = results_in e [], pa_ran = []\<rparr>"

definition on_query :: "palette_env \<Rightarrow> string \<Rightarrow> palette \<Rightarrow> palette" where
  "on_query e q s =
     s\<lparr>pa_q := q, pa_active := 0, pa_results := (if q = pa_q s then pa_results s else results_in e q)\<rparr>"

definition on_located :: "palette_env \<Rightarrow> palette \<Rightarrow> palette" where
  "on_located e s = s\<lparr>pa_results := results_in e (pa_q s)\<rparr>"

definition result_at :: "palette \<Rightarrow> int \<Rightarrow> palette_result option" where
  "result_at s i =
     (if 0 \<le> i \<and> i < int (length (pa_results s)) then Some (pa_results s ! nat i) else None)"

text \<open>\<open>run\<close>: the dialog closes, the query is cleared (a new query, so the results follow), and the result runs.\<close>

definition run_result :: "palette_env \<Rightarrow> palette_result \<Rightarrow> palette \<Rightarrow> palette" where
  "run_result e r s =
     s\<lparr>pa_open := False, pa_q := [], pa_results := (if pa_q s = [] then pa_results s else results_in e []),
       pa_ran := pa_ran s @ [pr_run r]\<rparr>"

definition arrow_down :: "palette \<Rightarrow> palette" where
  "arrow_down s = s\<lparr>pa_active := min (int (length (pa_results s)) - 1) (pa_active s + 1)\<rparr>"

definition arrow_up :: "palette \<Rightarrow> palette" where
  "arrow_up s = s\<lparr>pa_active := max 0 (pa_active s - 1)\<rparr>"

definition press_enter :: "palette_env \<Rightarrow> palette \<Rightarrow> palette" where
  "press_enter e s = (case result_at s (pa_active s) of None \<Rightarrow> s | Some r \<Rightarrow> run_result e r s)"

definition hover :: "int \<Rightarrow> palette \<Rightarrow> palette" where
  "hover i s = s\<lparr>pa_active := i\<rparr>"

definition set_open :: "bool \<Rightarrow> palette \<Rightarrow> palette" where
  "set_open b s = s\<lparr>pa_open := b\<rparr>"

inductive palette_step :: "palette \<Rightarrow> palette \<Rightarrow> bool" where
  Query: "palette_step s (on_query e q s)"
| Located: "palette_step s (on_located e s)"
| Down: "palette_step s (arrow_down s)"
| Up: "palette_step s (arrow_up s)"
| Enter: "palette_step s (press_enter e s)"
| Hover: "result_at s i = Some r \<Longrightarrow> palette_step s (hover i s)"
| Click: "r \<in> set (pa_results s) \<Longrightarrow> palette_step s (run_result e r s)"
| Open: "palette_step s (set_open b s)"

inductive palette_run_to :: "palette \<Rightarrow> bool" where
  Mount: "palette_run_to (palette_mount e)"
| Step: "palette_run_to s \<Longrightarrow> palette_step s s' \<Longrightarrow> palette_run_to s'"

text \<open>What the list shows; \<open>aria-activedescendant\<close> names the highlighted row.\<close>

datatype palette_event = TypeQuery | MoveKeys | HoverRow int | ClickRow palette_result

definition palette_row :: "palette \<Rightarrow> nat \<Rightarrow> palette_result \<Rightarrow> palette_event ui" where
  "palette_row s i r =
     El ''li''
       [(''key'', pr_id r), (''id'', ''pal-'' @ pr_id r), (''role'', ''option''),
        (''aria-selected'', bool_str (int i = pa_active s))]
       [(''onMouseEnter'', HoverRow (int i)), (''onClick'', ClickRow r)]
       [El (pr_icon r) [(''aria-hidden'', ''true'')] [] [], tag ''span'' (pr_label r), tag ''span'' (pr_hint r)]"

definition CommandPalette :: "palette \<Rightarrow> palette_event ui" where
  "CommandPalette s =
     El ''Dialog'' [(''open'', bool_str (pa_open s))] []
       [elem ''DialogContent''
         [tag ''DialogTitle'' ''Jump to'',
          El ''input''
            ([(''value'', pa_q s), (''placeholder'', ''Jump to a key or model, or paste a trace ID''), (''role'', ''combobox''),
              (''aria-expanded'', ''true''), (''aria-controls'', ''palette-results'')]
             @ opt_attr ''aria-activedescendant'' (map_option (\<lambda>r. ''pal-'' @ pr_id r) (result_at s (pa_active s))))
            [(''onChange'', TypeQuery), (''onKeyDown'', MoveKeys)] [],
          El ''ul'' [(''id'', ''palette-results''), (''role'', ''listbox'')] []
            ((if pa_results s = []
              then [tag ''li'' (''Nothing matches '' @ glyph_ldquo @ pa_q s @ glyph_rdquo @ ''.'')] else [])
             @ map (\<lambda>(i, r). palette_row s i r) (enumerate 0 (pa_results s))),
          tag ''div'' (glyph_up_arrow @ glyph_down_arrow @ '' to move '' @ glyph_middot @ '' Enter to open ''
            @ glyph_middot @ '' Esc to close'')]]"

section \<open>Lemmas\<close>

lemma trace_results_prefix: "\<exists>more. trace_results needle rs out = out @ more"
proof (induction rs arbitrary: out)
  case (Cons r rs)
  obtain m1 where "trace_results needle rs out = out @ m1" using Cons by blast
  moreover obtain m2 where "trace_results needle rs (out @ [receipt_result r]) = (out @ [receipt_result r]) @ m2"
    using Cons by blast
  ultimately show ?case by (auto simp: Let_def)
qed simp

text \<open>The loop is: the first five matches of the cache.\<close>

lemma trace_results_eq:
  "length out \<le> 4 \<Longrightarrow>
     trace_results needle rs out = take 5 (out @ map receipt_result (filter (receipt_matches needle) rs))"
proof (induction rs arbitrary: out)
  case (Cons r rs)
  show ?case
  proof (cases "receipt_matches needle r \<and> length out = 4")
    case True
    then show ?thesis by (simp add: Let_def)
  next
    case False
    show ?thesis
    proof (cases "receipt_matches needle r")
      case True
      with False Cons.prems have "length (out @ [receipt_result r]) \<le> 4" by simp
      from Cons.IH [OF this] True False Cons.prems show ?thesis by (simp add: Let_def)
    qed (use Cons in simp)
  qed
qed simp

lemma palette_results_bound: "length (palette_results ks ms cached q) \<le> 12"
  by (simp add: palette_results_def Let_def)

text \<open>Pasting a trace id finds its receipt first, when no other cached receipt starts like it.\<close>

lemma palette_finds_trace:
  assumes "looks_like_trace (needle_of q)" and "filter (receipt_matches (needle_of q)) cached = [r]"
  shows "\<exists>rest. palette_results ks ms cached q = receipt_result r # rest"
  using assms by (simp add: palette_results_def trace_results_eq Let_def)

definition palette_inv :: "palette \<Rightarrow> bool" where
  "palette_inv s \<longleftrightarrow> -1 \<le> pa_active s \<and> length (pa_results s) \<le> 12 \<and> pa_active s \<le> 11"

lemma palette_inv_step: "palette_step s s' \<Longrightarrow> palette_inv s \<Longrightarrow> palette_inv s'"
proof (induction rule: palette_step.induct)
  case (Enter s e)
  then show ?case
    by (auto simp: palette_inv_def press_enter_def run_result_def results_in_def palette_results_bound split: option.split)
qed (auto simp: palette_inv_def on_query_def on_located_def arrow_down_def arrow_up_def hover_def set_open_def
    run_result_def results_in_def palette_results_bound result_at_def split: if_splits)

lemma palette_run_inv: "palette_run_to s \<Longrightarrow> palette_inv s"
proof (induction rule: palette_run_to.induct)
  case (Mount e)
  show ?case by (simp add: palette_mount_def palette_inv_def results_in_def palette_results_bound)
qed (rule palette_inv_step)

text \<open>
  Every result that ran was offered by a list computed from some cache, and what Enter runs is the row that is
  announced as active.
\<close>

lemma enter_runs_active:
  "press_enter e s = s \<or>
     (\<exists>r. result_at s (pa_active s) = Some r \<and> r \<in> set (pa_results s) \<and> \<not> pa_open (press_enter e s) \<and>
        pa_q (press_enter e s) = [] \<and> pa_ran (press_enter e s) = pa_ran s @ [pr_run r])"
  by (auto simp: press_enter_def run_result_def result_at_def split: option.split)

text \<open>
  What the code's comment calls a trace id has at least eight hexadecimal characters (and may have dashes); the pattern
  takes shorter texts as well.
\<close>

definition is_hex_char :: "char \<Rightarrow> bool" where
  "is_hex_char c \<longleftrightarrow> is_digit_char c \<or> c \<in> set ''abcdef''"

definition trace_id_text :: "string \<Rightarrow> bool" where
  "trace_id_text s \<longleftrightarrow> 8 \<le> length (filter is_hex_char s) \<and> list_all (\<lambda>c. is_hex_char c \<or> c = CHR ''-'') s"

lemma trace_id_looks: "trace_id_text s \<Longrightarrow> looks_like_trace s"
proof -
  assume t: "trace_id_text s"
  then have "6 \<le> length s" using length_filter_le [of is_hex_char s] unfolding trace_id_text_def by linarith
  with t show "looks_like_trace s"
    by (auto simp: trace_id_text_def looks_like_trace_def list_all_iff is_hex_char_def is_trace_char_def)
qed

text \<open>Typing a trace id and pressing Enter runs the receipt that matches first.\<close>

lemma enter_runs_first:
  assumes "q \<noteq> pa_q s" and "looks_like_trace (needle_of q)"
    and "filter (receipt_matches (needle_of q)) (pe_cached e) = r # rest"
  shows "pa_ran (press_enter e (on_query e q s)) = pa_ran s @ [RunReceipt (rc_id r)] \<and>
    \<not> pa_open (press_enter e (on_query e q s)) \<and> pa_q (press_enter e (on_query e q s)) = []"
proof -
  obtain more where "results_in e q = receipt_result r # more"
    using assms by (simp add: results_in_def palette_results_def trace_results_eq Let_def)
  then show ?thesis
    using assms(1) by (simp add: on_query_def press_enter_def result_at_def run_result_def receipt_result_def)
qed

text \<open>Typing the same text again does not look at the cache again: a receipt that came in meanwhile is not found.\<close>

lemma palette_stale: "pa_results (on_query e (pa_q s) s) = pa_results s"
  by (simp add: on_query_def)

end
