(* ===== verification/Panels.thy ===== *)
theory Panels
  imports Browser
begin

text \<open>
  The usage console's panels: \<open>components/ui/drawer.tsx\<close> (the drawer's side and swipe direction, resolved
  into each other, and its parts) and \<open>components/ui/sidebar.tsx\<close> (the collapsible sidebar, in its controlled and
  uncontrolled forms).  Class names are left out; what a part does outside its root, which throws, is None.
\<close>

section \<open>Drawer\<close>

datatype drawer_side = SideTop | SideRight | SideBottom | SideLeft
datatype swipe_direction = SwipeUp | SwipeRight | SwipeDown | SwipeLeft

definition sideToSwipeDirection :: "drawer_side \<Rightarrow> swipe_direction" where
  "sideToSwipeDirection s = (case s of SideTop \<Rightarrow> SwipeUp | SideRight \<Rightarrow> SwipeRight | SideBottom \<Rightarrow> SwipeDown
     | SideLeft \<Rightarrow> SwipeLeft)"

definition getDrawerSide :: "swipe_direction \<Rightarrow> drawer_side" where
  "getDrawerSide d = (case d of SwipeUp \<Rightarrow> SideTop | SwipeRight \<Rightarrow> SideRight | SwipeLeft \<Rightarrow> SideLeft
     | SwipeDown \<Rightarrow> SideBottom)"

definition side_str :: "drawer_side \<Rightarrow> string" where
  "side_str s = (case s of SideTop \<Rightarrow> ''top'' | SideRight \<Rightarrow> ''right'' | SideBottom \<Rightarrow> ''bottom'' | SideLeft \<Rightarrow> ''left'')"

definition swipe_str :: "swipe_direction \<Rightarrow> string" where
  "swipe_str d = (case d of SwipeUp \<Rightarrow> ''up'' | SwipeRight \<Rightarrow> ''right'' | SwipeDown \<Rightarrow> ''down'' | SwipeLeft \<Rightarrow> ''left'')"

record drawer_context =
  dc_hasSnapPoints :: bool
  dc_modal :: string
  dc_showSwipeHandle :: bool
  dc_side :: drawer_side
  dc_swipeDirection :: swipe_direction

text \<open>The properties of the root; \<open>modal\<close> is \<open>true\<close>, \<open>false\<close> or \<open>trap-focus\<close>, by its text.\<close>

record drawer_props =
  dp_modal :: "string option"
  dp_showSwipeHandle :: "bool option"
  dp_side :: "drawer_side option"
  dp_snapPoints :: "rat list option"
  dp_swipeDirection :: "swipe_direction option"

definition drawer_resolve :: "drawer_props \<Rightarrow> drawer_context" where
  "drawer_resolve p =
     (let d = (case dp_swipeDirection p of Some d \<Rightarrow> d | None \<Rightarrow> sideToSwipeDirection (or_else (dp_side p) SideRight))
      in \<lparr>dc_hasSnapPoints = (case dp_snapPoints p of None \<Rightarrow> False | Some xs \<Rightarrow> length xs > 0),
          dc_modal = or_else (dp_modal p) ''true'',
          dc_showSwipeHandle = (case dp_showSwipeHandle p of Some b \<Rightarrow> b | None \<Rightarrow> d = SwipeDown),
          dc_side = getDrawerSide d, dc_swipeDirection = d\<rparr>)"

definition Drawer :: "drawer_props \<Rightarrow> attrs \<Rightarrow> (drawer_context option \<Rightarrow> 'e ui list) option \<Rightarrow> 'e ui" where
  "Drawer p props children =
     (let c = drawer_resolve p in
      El ''DrawerRoot''
        (spread [(''modal'', dc_modal c), (''swipeDirection'', swipe_str (dc_swipeDirection c))] props) []
        (case children of
           Some f \<Rightarrow> f (Some c)
         | None \<Rightarrow> [El ''span'' [(''data-slot'', ''drawer''), (''hidden'', ''true'')] [] []]))"

definition useDrawerContext :: "drawer_context option \<Rightarrow> string \<Rightarrow> string + drawer_context" where
  "useDrawerContext context component =
     (case context of
        None \<Rightarrow> Inl (''<'' @ component @ ''> must be used within a <Drawer>.'')
      | Some c \<Rightarrow> Inr c)"

definition DrawerTrigger :: "attrs \<Rightarrow> 'e ui list \<Rightarrow> 'e ui" where
  "DrawerTrigger props cs = El ''DrawerTrigger'' (spread [(''data-slot'', ''drawer-trigger'')] props) [] cs"

definition DrawerPortal :: "attrs \<Rightarrow> 'e ui list \<Rightarrow> 'e ui" where
  "DrawerPortal props cs = El ''DrawerPortal'' (spread [(''data-slot'', ''drawer-portal'')] props) [] cs"

definition DrawerClose :: "attrs \<Rightarrow> 'e ui list \<Rightarrow> 'e ui" where
  "DrawerClose props cs = El ''DrawerClose'' (spread [(''data-slot'', ''drawer-close'')] props) [] cs"

definition DrawerOverlay :: "attrs \<Rightarrow> 'e ui" where
  "DrawerOverlay props = El ''DrawerOverlay'' (spread [(''data-slot'', ''drawer-overlay'')] props) [] []"

definition DrawerSwipeHandle :: "attrs \<Rightarrow> 'e ui" where
  "DrawerSwipeHandle props =
     El ''div'' (spread [(''aria-hidden'', ''true''), (''data-slot'', ''drawer-swipe-handle'')] props) [] []"

definition swipe_axis :: "swipe_direction \<Rightarrow> string" where
  "swipe_axis d = (if d = SwipeDown \<or> d = SwipeUp then ''y'' else ''x'')"

definition snap_attr :: "bool \<Rightarrow> attrs" where
  "snap_attr b = (if b then [(''data-snap-points'', [])] else [])"

text \<open>\<open>initialFocus\<close> defaults to the close button when there is one.\<close>

definition initial_focus :: "string option \<Rightarrow> bool \<Rightarrow> string option" where
  "initial_focus f showClose = (case f of Some x \<Rightarrow> Some x | None \<Rightarrow> if showClose then Some ''closeButton'' else None)"

definition DrawerContent ::
  "drawer_context option \<Rightarrow> bool option \<Rightarrow> string option \<Rightarrow> attrs \<Rightarrow> attrs \<Rightarrow> 'e ui list \<Rightarrow> string + 'e ui" where
  "DrawerContent context showCloseButton initialFocus portalProps props children =
     (case useDrawerContext context ''DrawerContent'' of
        Inl e \<Rightarrow> Inl e
      | Inr c \<Rightarrow>
         (let showClose = or_else showCloseButton True in
          Inr (DrawerPortal portalProps
            (only_if (dc_modal c = ''true'') (DrawerOverlay (snap_attr (dc_hasSnapPoints c)))
             @ [El ''DrawerViewport'' [(''data-modal'', dc_modal c), (''data-slot'', ''drawer-viewport'')] []
                 [El ''DrawerPopup''
                   (spread ([(''data-side'', side_str (dc_side c)), (''data-slot'', ''drawer-content''),
                             (''data-swipe-axis'', swipe_axis (dc_swipeDirection c))]
                            @ snap_attr (dc_hasSnapPoints c)
                            @ opt_attr ''initialFocus'' (initial_focus initialFocus showClose)) props) []
                   (only_if (dc_showSwipeHandle c) (DrawerSwipeHandle [])
                    @ [El ''DrawerContentInner'' [(''data-slot'', ''drawer-content-inner'')] []
                        (only_if showClose (DrawerClose [] [El ''XIcon'' [(''aria-hidden'', ''true'')] [] [], tag ''span'' ''Close''])
                         @ children)])]]))))"

definition slot_div :: "string \<Rightarrow> attrs \<Rightarrow> 'e ui list \<Rightarrow> 'e ui" where
  "slot_div slot props cs = El ''div'' (spread [(''data-slot'', slot)] props) [] cs"

definition DrawerHeader :: "attrs \<Rightarrow> 'e ui list \<Rightarrow> 'e ui" where
  "DrawerHeader props cs = slot_div ''drawer-header'' props cs"

definition DrawerBody :: "attrs \<Rightarrow> 'e ui list \<Rightarrow> 'e ui" where
  "DrawerBody props cs = slot_div ''drawer-body'' props cs"

definition DrawerFooter :: "attrs \<Rightarrow> 'e ui list \<Rightarrow> 'e ui" where
  "DrawerFooter props cs = slot_div ''drawer-footer'' props cs"

definition DrawerTitle :: "attrs \<Rightarrow> 'e ui list \<Rightarrow> 'e ui" where
  "DrawerTitle props cs = El ''DrawerTitle'' (spread [(''data-slot'', ''drawer-title'')] props) [] cs"

definition DrawerDescription :: "attrs \<Rightarrow> 'e ui list \<Rightarrow> 'e ui" where
  "DrawerDescription props cs = El ''DrawerDescription'' (spread [(''data-slot'', ''drawer-description'')] props) [] cs"

section \<open>Sidebar\<close>

text \<open>
  The provider: its own state, and what its owner passes.  \<open>sb_reported\<close> is what \<open>onCollapsedChange\<close> was told.
  A controlled sidebar (\<open>collapsed\<close> given) changes only when its owner passes another value.
\<close>

record sidebar =
  sb_uncontrolled :: bool
  sb_prop :: "bool option"
  sb_reported :: "bool list"

definition sidebar_init :: "bool option \<Rightarrow> bool option \<Rightarrow> sidebar" where
  "sidebar_init collapsedProp defaultCollapsed =
     \<lparr>sb_uncontrolled = or_else defaultCollapsed False, sb_prop = collapsedProp, sb_reported = []\<rparr>"

definition sb_collapsed :: "sidebar \<Rightarrow> bool" where
  "sb_collapsed s = or_else (sb_prop s) (sb_uncontrolled s)"

definition sb_state :: "sidebar \<Rightarrow> string" where
  "sb_state s = (if sb_collapsed s then ''collapsed'' else ''expanded'')"

definition setCollapsed :: "(bool \<Rightarrow> bool) \<Rightarrow> sidebar \<Rightarrow> sidebar" where
  "setCollapsed next s =
     (let n = next (sb_collapsed s);
          s1 = (if sb_prop s = None then s\<lparr>sb_uncontrolled := n\<rparr> else s)
      in s1\<lparr>sb_reported := sb_reported s1 @ [n]\<rparr>)"

definition toggle :: "sidebar \<Rightarrow> sidebar" where
  "toggle s = setCollapsed (\<lambda>previous. \<not> previous) s"

text \<open>The owner of a controlled sidebar that passes on what it is told.\<close>

definition follow :: "sidebar \<Rightarrow> sidebar" where
  "follow s = (case (sb_prop s, last_opt (sb_reported s)) of (Some p, Some b) \<Rightarrow> s\<lparr>sb_prop := Some b\<rparr> | _ \<Rightarrow> s)"

definition SidebarNav :: "sidebar \<Rightarrow> string option \<Rightarrow> attrs \<Rightarrow> 'e ui list \<Rightarrow> 'e ui" where
  "SidebarNav s variant props cs =
     El ''nav''
       (spread [(''data-slot'', ''sidebar''), (''data-state'', sb_state s), (''data-variant'', or_else variant ''default'')] props) []
       cs"

definition SidebarTrigger :: "sidebar \<Rightarrow> 'e \<Rightarrow> attrs \<Rightarrow> 'e ui" where
  "SidebarTrigger s click props =
     El ''button''
       (spread [(''type'', ''button''), (''aria-expanded'', bool_str (sb_state s = ''expanded'')),
                (''aria-label'', if sb_state s = ''collapsed'' then ''Expand sidebar'' else ''Collapse sidebar''),
                (''data-slot'', ''sidebar-trigger''), (''data-state'', sb_state s)] props)
       [(''onClick'', click)] [icon ''PanelLeft'']"

text \<open>The click: the caller's handler runs first and may prevent the toggle.\<close>

definition trigger_click :: "bool \<Rightarrow> sidebar \<Rightarrow> sidebar" where
  "trigger_click defaultPrevented s = (if defaultPrevented then s else toggle s)"

definition SidebarHeader :: "attrs \<Rightarrow> 'e ui list \<Rightarrow> 'e ui" where
  "SidebarHeader props cs = slot_div ''sidebar-header'' props cs"

definition SidebarContent :: "attrs \<Rightarrow> 'e ui list \<Rightarrow> 'e ui" where
  "SidebarContent props cs = slot_div ''sidebar-content'' props cs"

definition SidebarFooter :: "attrs \<Rightarrow> 'e ui list \<Rightarrow> 'e ui" where
  "SidebarFooter props cs = slot_div ''sidebar-footer'' props cs"

definition SidebarGroup :: "attrs \<Rightarrow> 'e ui list \<Rightarrow> 'e ui" where
  "SidebarGroup props cs = slot_div ''sidebar-group'' props cs"

definition SidebarGroupLabel :: "attrs \<Rightarrow> 'e ui list \<Rightarrow> 'e ui" where
  "SidebarGroupLabel props cs = slot_div ''sidebar-group-label'' props cs"

definition SidebarMenu :: "attrs \<Rightarrow> 'e ui list \<Rightarrow> 'e ui" where
  "SidebarMenu props cs = El ''ul'' (spread [(''data-slot'', ''sidebar-menu'')] props) [] cs"

definition SidebarMenuItem :: "attrs \<Rightarrow> 'e ui list \<Rightarrow> 'e ui" where
  "SidebarMenuItem props cs = El ''li'' (spread [(''data-slot'', ''sidebar-menu-item'')] props) [] cs"

record menu_button =
  mb_active :: bool
  mb_size :: "string option"
  mb_variant :: "string option"
  mb_tooltip :: "string option"

definition SidebarMenuButton :: "sidebar \<Rightarrow> menu_button \<Rightarrow> attrs \<Rightarrow> 'e ui list \<Rightarrow> 'e ui" where
  "SidebarMenuButton s m props cs =
     (let button = El ''button''
        (spread ((if mb_active m then [(''aria-current'', ''page''), (''data-active'', ''true'')] else [])
           @ [(''data-size'', or_else (mb_size m) ''default''), (''data-slot'', ''sidebar-menu-button''),
              (''data-variant'', or_else (mb_variant m) ''default'')]) props) [] cs
      in case mb_tooltip m of
           None \<Rightarrow> button
         | Some t \<Rightarrow> El ''Tooltip'' [(''disabled'', bool_str (sb_state s = ''expanded''))] []
             [El ''TooltipTrigger'' [(''data-slot'', ''sidebar-menu-button'')] [] [button],
              El ''TooltipContent'' [(''side'', ''right'')] [] [Txt t]])"

definition SidebarMenuLabel :: "attrs \<Rightarrow> 'e ui list \<Rightarrow> 'e ui" where
  "SidebarMenuLabel props cs = El ''span'' (spread [(''data-slot'', ''sidebar-menu-label'')] props) [] cs"

definition SidebarMenuDescription :: "attrs \<Rightarrow> 'e ui list \<Rightarrow> 'e ui" where
  "SidebarMenuDescription props cs = El ''span'' (spread [(''data-slot'', ''sidebar-menu-description'')] props) [] cs"

definition SidebarMenuSub :: "attrs \<Rightarrow> 'e ui list \<Rightarrow> 'e ui" where
  "SidebarMenuSub props cs = El ''ul'' (spread [(''data-slot'', ''sidebar-menu-sub'')] props) [] cs"

definition SidebarMenuSubItem :: "attrs \<Rightarrow> 'e ui list \<Rightarrow> 'e ui" where
  "SidebarMenuSubItem props cs = El ''li'' (spread [(''data-slot'', ''sidebar-menu-sub-item'')] props) [] cs"

definition SidebarSeparator :: "attrs \<Rightarrow> 'e ui" where
  "SidebarSeparator props = El ''hr'' (spread [(''data-slot'', ''sidebar-separator'')] props) [] []"

section \<open>Lemmas\<close>

lemma side_swipe_inverse [simp]:
  "getDrawerSide (sideToSwipeDirection s) = s" "sideToSwipeDirection (getDrawerSide d) = d"
  by (cases s; simp add: sideToSwipeDirection_def getDrawerSide_def)
    (cases d; simp add: sideToSwipeDirection_def getDrawerSide_def)

text \<open>The resolved side is the one asked for, unless a swipe direction overrides it; the two always belong together.\<close>

lemma drawer_resolve_sides:
  "dc_swipeDirection (drawer_resolve p) = sideToSwipeDirection (dc_side (drawer_resolve p))"
  "dp_swipeDirection p = None \<Longrightarrow> dc_side (drawer_resolve p) = or_else (dp_side p) SideRight"
  "dp_showSwipeHandle p = None \<Longrightarrow> dc_showSwipeHandle (drawer_resolve p) \<longleftrightarrow> dc_side (drawer_resolve p) = SideBottom"
proof -
  have b: "getDrawerSide d = SideBottom \<longleftrightarrow> d = SwipeDown" for d by (cases d) (simp_all add: getDrawerSide_def)
  show "dc_swipeDirection (drawer_resolve p) = sideToSwipeDirection (dc_side (drawer_resolve p))"
    by (simp add: drawer_resolve_def Let_def)
  show "dp_swipeDirection p = None \<Longrightarrow> dc_side (drawer_resolve p) = or_else (dp_side p) SideRight"
    by (simp add: drawer_resolve_def Let_def)
  show "dp_showSwipeHandle p = None \<Longrightarrow> dc_showSwipeHandle (drawer_resolve p) \<longleftrightarrow> dc_side (drawer_resolve p) = SideBottom"
    by (simp add: drawer_resolve_def Let_def b)
qed

lemma toggle_twice:
  "sb_collapsed (toggle s) = (if sb_prop s = None then \<not> sb_collapsed s else sb_collapsed s)"
  "sb_reported (toggle s) = sb_reported s @ [\<not> sb_collapsed s]"
  by (auto simp: toggle_def setCollapsed_def sb_collapsed_def Let_def split: option.split)

text \<open>With an owner that follows, a controlled sidebar behaves like an uncontrolled one.\<close>

lemma toggle_follow: "sb_collapsed (follow (toggle s)) = (\<not> sb_collapsed s)"
  by (auto simp: toggle_def setCollapsed_def follow_def sb_collapsed_def last_opt_def Let_def split: option.splits)

end
