(* ===== verification/Toasts.thy ===== *)
theory Toasts
  imports Browser
begin

text \<open>
  \<open>components/ui/toast.tsx\<close>: the accessibility rules that the console puts between its code and the toast
  library, and what is rendered for an item.  A field of an item or of an update is absent, given, or set to
  \<open>undefined\<close> (or \<open>null\<close>), which is not the same: spread over an item, an absent field keeps the old value and an
  undefined one erases it.  The library's manager is a parameter.  A component takes its own attributes, over which the
  caller's attributes are spread.
\<close>

section \<open>Toast options\<close>

datatype toast_type = TDefault | TSuccess | TWarning | TError | TInfo | TLoading

definition toast_type_str :: "toast_type \<Rightarrow> string" where
  "toast_type_str t = (case t of TDefault \<Rightarrow> ''default'' | TSuccess \<Rightarrow> ''success'' | TWarning \<Rightarrow> ''warning''
     | TError \<Rightarrow> ''error'' | TInfo \<Rightarrow> ''info'' | TLoading \<Rightarrow> ''loading'')"

definition toastIconVariants :: "toast_type \<Rightarrow> string" where
  "toastIconVariants t = (case t of TDefault \<Rightarrow> ''text-muted-foreground'' | TSuccess \<Rightarrow> ''text-success-foreground''
     | TWarning \<Rightarrow> ''text-warning-foreground'' | TError \<Rightarrow> ''text-destructive-foreground''
     | TInfo \<Rightarrow> ''text-info-foreground'' | TLoading \<Rightarrow> ''text-muted-foreground'')"

definition getToastType :: "string option \<Rightarrow> toast_type" where
  "getToastType type =
     (case type of
        None \<Rightarrow> TDefault
      | Some s \<Rightarrow>
          (if s = ''success'' then TSuccess else if s = ''warning'' then TWarning else if s = ''error'' then TError
           else if s = ''info'' then TInfo else if s = ''loading'' then TLoading else TDefault))"

definition assertiveToastTypes :: "toast_type list" where
  "assertiveToastTypes = [TWarning, TError]"

datatype toast_priority = PLow | PHigh

datatype 'a js_prop = Absent | Undef | Given 'a

primrec prop_get :: "'a js_prop \<Rightarrow> 'a option" where
  "prop_get Absent = None"
| "prop_get Undef = None"
| "prop_get (Given x) = Some x"

text \<open>\<open>{...old, ...new}\<close>, for one field.\<close>

definition spread_prop :: "'a js_prop \<Rightarrow> 'a js_prop \<Rightarrow> 'a js_prop" where
  "spread_prop old new = (if new = Absent then old else new)"

record toast_data =
  td_showIcon :: "bool option"
  td_dismissible :: "bool option"

text \<open>\<open>to_action\<close> stands for \<open>actionProps\<close>, by the label of the action.\<close>

record toast_options =
  to_title :: "string js_prop"
  to_description :: "string js_prop"
  to_type :: "string js_prop"
  to_priority :: "toast_priority js_prop"
  to_timeout :: "int js_prop"
  to_action :: "string js_prop"
  to_data :: "toast_data js_prop"

definition withToastA11yDefaults :: "toast_options \<Rightarrow> toast_options" where
  "withToastA11yDefaults o' =
     (let p1 = (if prop_get (to_priority o') = None \<and> prop_get (to_type o') \<noteq> None
                then Given (if getToastType (prop_get (to_type o')) \<in> set assertiveToastTypes then PHigh else PLow) else Absent);
          p2 = (if prop_get (to_action o') \<noteq> None then Given 0 else Absent)
      in o'\<lparr>to_priority := spread_prop (to_priority o') p1, to_timeout := spread_prop (to_timeout o') p2\<rparr>)"

text \<open>A state of a promise toast: a description, options, or a function of the promise's result.\<close>

datatype promise_state = StText string | StOptions toast_options | StFun "string \<Rightarrow> promise_state"

primrec withPromiseStateA11yDefaults :: "promise_state \<Rightarrow> promise_state" where
  "withPromiseStateA11yDefaults (StText s) = StText s"
| "withPromiseStateA11yDefaults (StOptions o') = StOptions (withToastA11yDefaults o')"
| "withPromiseStateA11yDefaults (StFun f) = StFun (\<lambda>x. withPromiseStateA11yDefaults (f x))"

record promise_options =
  po_loading :: promise_state
  po_success :: promise_state
  po_error :: promise_state

definition withPromiseA11yDefaults :: "promise_options \<Rightarrow> promise_options" where
  "withPromiseA11yDefaults o' =
     \<lparr>po_loading = withPromiseStateA11yDefaults (po_loading o'),
      po_success = withPromiseStateA11yDefaults (po_success o'),
      po_error = withPromiseStateA11yDefaults (po_error o')\<rparr>"

section \<open>The manager\<close>

text \<open>The library's manager by its three operations (\<open>add\<close> gives the id of the item), and the wrapper around it.\<close>

record 'm toast_manager =
  mg_add :: "toast_options \<Rightarrow> 'm \<Rightarrow> string \<times> 'm"
  mg_update :: "string \<Rightarrow> toast_options \<Rightarrow> 'm \<Rightarrow> 'm"
  mg_promise :: "promise_options \<Rightarrow> 'm \<Rightarrow> 'm"

definition createToastManager :: "'m toast_manager \<Rightarrow> 'm toast_manager" where
  "createToastManager manager =
     \<lparr>mg_add = (\<lambda>o'. mg_add manager (withToastA11yDefaults o')),
      mg_update = (\<lambda>i u. mg_update manager i (withToastA11yDefaults u)),
      mg_promise = (\<lambda>o'. mg_promise manager (withPromiseA11yDefaults o'))\<rparr>"

definition useToastManager :: "'m toast_manager \<Rightarrow> 'm toast_manager" where
  "useToastManager manager = createToastManager manager"

section \<open>Rendering\<close>

definition ToastIcon :: "string option \<Rightarrow> 'e ui" where
  "ToastIcon type =
     (let variant = getToastType type in
      El ''span'' [(''data-slot'', ''toast-icon''), (''data-variant'', toast_type_str variant),
                   (''tone'', toastIconVariants variant)] []
        [El (case variant of TSuccess \<Rightarrow> ''CircleCheck'' | TWarning \<Rightarrow> ''TriangleAlert'' | TError \<Rightarrow> ''CircleX''
               | TInfo \<Rightarrow> ''Info'' | TLoading \<Rightarrow> ''LoaderCircle'' | TDefault \<Rightarrow> ''Bell'')
           [(''aria-hidden'', ''true'')] [] []])"

definition ToastTitle :: "toast_options \<Rightarrow> attrs \<Rightarrow> 'e ui" where
  "ToastTitle item props = El ''ToastTitle'' (spread [(''data-slot'', ''toast-title'')] props) [] [Txt (or_else (prop_get (to_title item)) [])]"

definition ToastDescription :: "toast_options \<Rightarrow> attrs \<Rightarrow> 'e ui" where
  "ToastDescription item props =
     El ''ToastDescription'' (spread [(''data-slot'', ''toast-description'')] props) [] [Txt (or_else (prop_get (to_description item)) [])]"

text \<open>The library draws an action only for an item that has one.\<close>

definition ToastAction :: "toast_options \<Rightarrow> attrs \<Rightarrow> 'e ui list" where
  "ToastAction item props =
     (case prop_get (to_action item) of
        None \<Rightarrow> []
      | Some l \<Rightarrow> [El ''ToastAction'' (spread [(''data-slot'', ''toast-action'')] props) [] [Txt l]])"

definition ToastClose :: "string option \<Rightarrow> 'e ui list option \<Rightarrow> attrs \<Rightarrow> 'e ui" where
  "ToastClose ariaLabel children props =
     El ''ToastClose''
       (spread [(''data-slot'', ''toast-close''), (''aria-label'', or_else ariaLabel ''Dismiss'')] props) []
       (case children of Some cs \<Rightarrow> cs | None \<Rightarrow> [El ''X'' [(''aria-hidden'', ''true'')] [] []])"

definition ToastContent :: "attrs \<Rightarrow> 'e ui list \<Rightarrow> 'e ui" where
  "ToastContent props children = El ''ToastContent'' (spread [(''data-slot'', ''toast-content'')] props) [] children"

definition Toast :: "int option \<Rightarrow> toast_options option \<Rightarrow> attrs \<Rightarrow> 'e ui list \<Rightarrow> 'e ui" where
  "Toast tabIndex item props children =
     (let variant = getToastType (case item of None \<Rightarrow> None | Some i \<Rightarrow> prop_get (to_type i)) in
      case item of
        None \<Rightarrow> El ''div'' [(''data-slot'', ''toast''), (''data-variant'', toast_type_str variant), (''hidden'', ''true'')] [] []
      | Some i \<Rightarrow>
          El ''ToastRoot''
            (spread ([(''data-slot'', ''toast''), (''data-variant'', toast_type_str variant)]
               @ (if variant = TLoading then [(''aria-busy'', ''true'')] else [])
               @ [(''tabIndex'', int_str (or_else tabIndex (-1)))]) props) []
            children)"

definition toast_showIcon :: "toast_options \<Rightarrow> bool" where
  "toast_showIcon item \<longleftrightarrow> (case prop_get (to_data item) of None \<Rightarrow> True | Some d \<Rightarrow> td_showIcon d \<noteq> Some False)"

definition toast_dismissible :: "toast_options \<Rightarrow> bool" where
  "toast_dismissible item \<longleftrightarrow> prop_get (to_action item) \<noteq> None
     \<or> (case prop_get (to_data item) of None \<Rightarrow> True | Some d \<Rightarrow> td_dismissible d \<noteq> Some False)"

definition toast_view :: "toast_options \<Rightarrow> 'e ui" where
  "toast_view item =
     Toast None (Some item) []
       [ToastContent []
         (only_if (toast_showIcon item) (ToastIcon (prop_get (to_type item)))
          @ [elem ''div'' [ToastTitle item [], ToastDescription item []]]
          @ ToastAction item []
          @ only_if (toast_dismissible item) (ToastClose None None []))]"

definition ToastList :: "toast_options list \<Rightarrow> 'e ui list" where
  "ToastList toasts = map toast_view toasts"

definition ToastProvider :: "attrs \<Rightarrow> 'e ui list \<Rightarrow> 'e ui" where
  "ToastProvider props children = El ''ToastProvider'' props [] children"

definition ToastPortal :: "attrs \<Rightarrow> 'e ui list \<Rightarrow> 'e ui" where
  "ToastPortal props children = El ''ToastPortal'' (spread [(''data-slot'', ''toast-portal'')] props) [] children"

definition ToastViewport :: "attrs \<Rightarrow> 'e ui list \<Rightarrow> 'e ui" where
  "ToastViewport props children = El ''ToastViewport'' (spread [(''data-slot'', ''toast-viewport'')] props) [] children"

definition Toaster :: "int option \<Rightarrow> attrs \<Rightarrow> attrs \<Rightarrow> attrs \<Rightarrow> toast_options list \<Rightarrow> 'e ui list \<Rightarrow> 'e ui" where
  "Toaster limit portalProps viewportProps props toasts children =
     ToastProvider (spread [(''limit'', int_str (or_else limit 5))] props)
       (children @ [ToastPortal portalProps [ToastViewport viewportProps (ToastList toasts)]])"

section \<open>Lemmas\<close>

lemma spread_prop_simps [simp]:
  "spread_prop old Absent = old" "spread_prop old Undef = Undef" "spread_prop old (Given x) = Given x"
  by (simp_all add: spread_prop_def)

lemma a11y_fields [simp]:
  "to_title (withToastA11yDefaults o') = to_title o'" "to_description (withToastA11yDefaults o') = to_description o'"
  "to_type (withToastA11yDefaults o') = to_type o'" "to_action (withToastA11yDefaults o') = to_action o'"
  "to_data (withToastA11yDefaults o') = to_data o'"
  "to_timeout (withToastA11yDefaults o') = (if prop_get (to_action o') = None then to_timeout o' else Given 0)"
  by (auto simp: withToastA11yDefaults_def Let_def)

lemma a11y_priority:
  "to_priority (withToastA11yDefaults o') =
     (if prop_get (to_priority o') \<noteq> None then to_priority o'
      else case prop_get (to_type o') of
        None \<Rightarrow> to_priority o'
      | Some t \<Rightarrow> Given (if t = ''warning'' \<or> t = ''error'' then PHigh else PLow))"
  by (auto simp: withToastA11yDefaults_def Let_def getToastType_def assertiveToastTypes_def split: option.split)

lemma a11y_idem: "withToastA11yDefaults (withToastA11yDefaults o') = withToastA11yDefaults o'"
  by (rule toast_options.equality) (simp_all add: a11y_priority split: option.split)

text \<open>The outcome of a promise toast: functions are applied to the result until there is something to show.\<close>

primrec settle_state :: "string \<Rightarrow> promise_state \<Rightarrow> string + toast_options" where
  "settle_state x (StText s) = Inl s"
| "settle_state x (StOptions o') = Inr o'"
| "settle_state x (StFun f) = settle_state x (f x)"

lemma promise_state_defaults:
  "settle_state x (withPromiseStateA11yDefaults st) = map_sum (\<lambda>s. s) withToastA11yDefaults (settle_state x st)"
  by (induction st) simp_all

section \<open>An item with an action\<close>

text \<open>
  What the code relies on of the library's manager, and says in its comments: an added item has the options it was given,
  an update is spread over the item it names, field by field, and leaves the other items alone.  \<open>item\<close> is how an item is
  read from the manager.
\<close>

definition spread_options :: "toast_options \<Rightarrow> toast_options \<Rightarrow> toast_options" where
  "spread_options old u =
     \<lparr>to_title = spread_prop (to_title old) (to_title u), to_description = spread_prop (to_description old) (to_description u),
      to_type = spread_prop (to_type old) (to_type u), to_priority = spread_prop (to_priority old) (to_priority u),
      to_timeout = spread_prop (to_timeout old) (to_timeout u), to_action = spread_prop (to_action old) (to_action u),
      to_data = spread_prop (to_data old) (to_data u)\<rparr>"

definition shallow_manager :: "'m toast_manager \<Rightarrow> ('m \<Rightarrow> string \<Rightarrow> toast_options option) \<Rightarrow> bool" where
  "shallow_manager M item \<longleftrightarrow>
     (\<forall>o' m i m'. mg_add M o' m = (i, m') \<longrightarrow> item m' i = Some o') \<and>
     (\<forall>i u m. item (mg_update M i u m) i = map_option (\<lambda>x. spread_options x u) (item m i)) \<and>
     (\<forall>i j u m. i \<noteq> j \<longrightarrow> item (mg_update M i u m) j = item m j)"

definition action_waits :: "toast_options \<Rightarrow> bool" where
  "action_waits item \<longleftrightarrow> prop_get (to_action item) = None \<or> to_timeout item = Given 0"

text \<open>An update that says anything of the timeout has to restate the action, as the comment in the code says.\<close>

definition restates :: "toast_options \<Rightarrow> bool" where
  "restates u \<longleftrightarrow> to_timeout u = Absent \<or> prop_get (to_action u) \<noteq> None"

lemma action_waits_spread:
  "action_waits item \<Longrightarrow> restates u \<Longrightarrow> action_waits (spread_options item (withToastA11yDefaults u))"
  by (cases "to_action u") (auto simp: action_waits_def restates_def spread_options_def)

lemma updates_wait:
  assumes "shallow_manager M item" and "list_all (\<lambda>(j, u). j = i \<longrightarrow> restates u) us"
    and "item m i = Some x" and "action_waits x"
    and "item (fold (\<lambda>(j, u). mg_update (createToastManager M) j u) us m) i = Some it"
  shows "action_waits it"
  using assms(2-5)
proof (induction us arbitrary: m x)
  case (Cons p us)
  obtain j u where p: "p = (j, u)" by (cases p)
  let ?m = "mg_update M j (withToastA11yDefaults u) m"
  have "\<exists>y. item ?m i = Some y \<and> action_waits y"
  proof (cases "j = i")
    case True
    with Cons.prems(1-3) p have "item ?m i = Some (spread_options x (withToastA11yDefaults u))" "restates u"
      using assms(1) by (simp_all add: shallow_manager_def)
    with Cons.prems(3) show ?thesis by (simp add: action_waits_spread)
  next
    case False
    with Cons.prems(2,3) show ?thesis using assms(1) by (auto simp: shallow_manager_def)
  qed
  then obtain y where "item ?m i = Some y" "action_waits y" by blast
  with Cons.IH [of ?m y] Cons.prems(1,4) p show ?case by (simp add: createToastManager_def)
qed simp

lemma wrapped_action_waits:
  assumes "shallow_manager M item" and "mg_add (createToastManager M) o' m = (i, m1)"
    and "list_all (\<lambda>(j, u). j = i \<longrightarrow> restates u) us"
    and "item (fold (\<lambda>(j, u). mg_update (createToastManager M) j u) us m1) i = Some it"
  shows "action_waits it"
proof (rule updates_wait [OF assms(1,3) _ _ assms(4)])
  show "item m1 i = Some (withToastA11yDefaults o')"
    using assms(1,2) by (auto simp: shallow_manager_def createToastManager_def)
  show "action_waits (withToastA11yDefaults o')" by (simp add: action_waits_def)
qed

lemma ToastClose_shown: "toast_dismissible item \<longleftrightarrow> ui_find ''ToastClose'' (toast_view item :: 'e ui) \<noteq> []"
proof -
  have i: "filter (\<lambda>x. ui_name x = ''ToastClose'') (ui_nodes (ToastIcon t :: 'e ui)) = []" for t
    by (cases "getToastType t") (simp_all add: ToastIcon_def Let_def)
  have a: "filter (\<lambda>x. ui_name x = ''ToastClose'') (concat (map ui_nodes (ToastAction item [] :: 'e ui list))) = []"
    by (simp add: ToastAction_def split: option.split)
  show ?thesis
    by (simp add: toast_view_def Toast_def ToastContent_def ToastTitle_def ToastDescription_def ToastClose_def ui_find_def i a only_if_def Let_def)
qed

end
