(* ===== verification/Mock.thy ===== *)
theory Mock
  imports SpendData "HOL-Library.Word" "HOL-Library.State_Monad"
begin

text \<open>
  The demo tenant of \<open>data/mock.ts\<close>: the seeded generator on 32-bit words, the fixtures, and the receipt
  generator as a state monad over any source of random numbers, so the order of the draws is the code's.
  A property read of \<open>undefined\<close>, which throws, is None.  \<open>Math.sin\<close> enters as \<open>sin_turns\<close>, the sine of a
  fraction of a turn, and the viewer's clock as parameters.
\<close>

unbundle bit_operations_syntax

section \<open>The generator\<close>

definition mulberry_mix :: "32 word \<Rightarrow> 32 word" where
  "mulberry_mix s =
     (let t = (s XOR drop_bit 15 s) * (1 OR s);
          u = (t + (t XOR drop_bit 7 t) * (61 OR t)) XOR t
      in u XOR drop_bit 14 u)"

definition mulberry32 :: "(32 word, rat) state" where
  "mulberry32 = State (\<lambda>seed.
     (let s = seed + 0x6d2b79f5 in (of_nat (unat (mulberry_mix s)) / 4294967296, s)))"

definition rand_seed :: "32 word" where
  "rand_seed = 20260924"

text \<open>The first draws of the seed, as the reference implementation of the generator gives them.\<close>

lemma mulberry32_first:
  "fst (run_state (do { x \<leftarrow> mulberry32; y \<leftarrow> mulberry32; State_Monad.return [x, y] }) rand_seed) =
     [2310916596 / 4294967296, 2889406783 / 4294967296]"
  by (simp add: mulberry32_def mulberry_mix_def rand_seed_def Let_def)

text \<open>\<open>xs[i]\<close>, None for \<open>undefined\<close>.\<close>

definition js_at :: "'a list \<Rightarrow> int \<Rightarrow> 'a option" where
  "js_at xs i = (if 0 \<le> i \<and> i < int (length xs) then Some (xs ! nat i) else None)"

definition pick :: "'a list \<Rightarrow> ('s, rat) state \<Rightarrow> ('s, 'a option) state" where
  "pick arr r = do { x \<leftarrow> r; State_Monad.return (js_at arr \<lfloor>x * of_nat (length arr)\<rfloor>) }"

text \<open>One digit of \<open>toString(16)\<close>: a draw below one gives a number below sixteen.\<close>

definition hex_digit :: "nat \<Rightarrow> char" where
  "hex_digit n = (if n < 10 then digit_char n else char_of (87 + n))"

fun hex :: "nat \<Rightarrow> ('s, rat) state \<Rightarrow> ('s, string) state" where
  "hex 0 r = State_Monad.return []"
| "hex (Suc n) r = do {
     x \<leftarrow> r;
     rest \<leftarrow> hex n r;
     State_Monad.return (hex_digit (nat \<lfloor>x * 16\<rfloor>) # rest) }"

section \<open>The catalog of the demo tenant\<close>

definition mk_team :: "string \<Rightarrow> string \<Rightarrow> string \<Rightarrow> team" where
  "mk_team i n c = \<lparr>tm_id = i, tm_name = n, tm_costCenter = c\<rparr>"

definition mock_teams :: "team list" where
  "mock_teams =
     [mk_team ''support'' ''Support'' ''CC-4100'',
      mk_team ''agents'' ''Agents platform'' ''CC-4230'',
      mk_team ''batch'' ''Data batch'' ''CC-5010'',
      mk_team ''web'' ''Web app'' ''CC-4100'',
      mk_team ''research'' ''Research'' ''CC-7000'',
      mk_team ''security'' ''Security'' ''CC-9100'']"

definition mk_model :: "string \<Rightarrow> string \<Rightarrow> rat \<Rightarrow> rat \<Rightarrow> rat \<Rightarrow> rat \<Rightarrow> mock_model" where
  "mk_model i p a b c d =
     \<lparr>md_id = i, md_provider = p, mm_inPerM = a, mm_outPerM = b, mm_cachedPerM = c, mm_reasoningPerM = d\<rparr>"

definition mock_models :: "mock_model list" where
  "mock_models =
     [mk_model ''gpt-5-mini'' ''OpenAI'' (25/100) 2 (25/1000) 2,
      mk_model ''gpt-5.5'' ''OpenAI'' (125/100) 10 (125/1000) 10,
      mk_model ''claude-sonnet-5'' ''Anthropic'' 3 15 (3/10) 15,
      mk_model ''claude-opus-4-1'' ''Anthropic'' 15 75 (15/10) 75,
      mk_model ''claude-haiku-4-5'' ''Bedrock'' 1 5 (1/10) 5,
      mk_model ''llama-3.3-70b'' ''Self-hosted'' (12/100) (3/10) (12/100) (3/10)]"

definition mock_modelById :: "string \<Rightarrow> mock_model option" where
  "mock_modelById = index_by md_id mock_models"

record resource_info =
  ri_backend :: string
  ri_p50 :: rat

definition resources :: "string \<Rightarrow> resource_info option" where
  "resources = map_of
     [(''OpenAI'', \<lparr>ri_backend = ''openai'', ri_p50 = 412\<rparr>),
      (''Anthropic'', \<lparr>ri_backend = ''anthropic'', ri_p50 = 980\<rparr>),
      (''Bedrock'', \<lparr>ri_backend = ''bedrock'', ri_p50 = 640\<rparr>),
      (''Self-hosted'', \<lparr>ri_backend = ''vllm-internal'', ri_p50 = 220\<rparr>)]"

record seed_key =
  sk_id :: string
  sk_name :: string
  sk_prefix :: string
  sk_team :: string
  sk_project :: string
  sk_lastUsed :: string
  sk_requests24h :: int

definition mk_key :: "string \<Rightarrow> string \<Rightarrow> string \<Rightarrow> string \<Rightarrow> string \<Rightarrow> string \<Rightarrow> int \<Rightarrow> seed_key" where
  "mk_key i n p t pr l q =
     \<lparr>sk_id = i, sk_name = n, sk_prefix = p, sk_team = t, sk_project = pr, sk_lastUsed = l, sk_requests24h = q\<rparr>"

definition seedKeys :: "seed_key list" where
  "seedKeys =
     [mk_key ''k1'' ''support-bot'' ''ngw_live_7f3a'' ''support'' ''helpdesk'' ''12s ago'' 18240,
      mk_key ''k2'' ''agents-prod'' ''ngw_live_c19e'' ''agents'' ''orchestrator'' ''3s ago'' 9812,
      mk_key ''k3'' ''batch-summarize'' ''ngw_live_02bd'' ''batch'' ''nightly-digest'' ''41s ago'' 4406,
      mk_key ''k4'' ''web-chat'' ''ngw_live_9a0c'' ''web'' ''assistant'' ''1s ago'' 22019,
      mk_key ''k5'' ''research'' ''ngw_live_e55f'' ''research'' ''evals'' ''6m ago'' 1204,
      mk_key ''k6'' ''secops-triage'' ''ngw_live_41d2'' ''security'' ''soc'' ''2h ago'' 88]"

definition keyModels :: "(string \<times> string list) list" where
  "keyModels =
     [(''k1'', [''gpt-5-mini'', ''claude-sonnet-5'']),
      (''k2'', [''claude-sonnet-5'', ''claude-opus-4-1'', ''gpt-5.5'']),
      (''k3'', [''gpt-5-mini'', ''claude-opus-4-1'', ''llama-3.3-70b'']),
      (''k4'', [''gpt-5-mini'', ''claude-haiku-4-5'']),
      (''k5'', [''claude-opus-4-1'', ''gpt-5.5'', ''claude-sonnet-5'']),
      (''k6'', [''llama-3.3-70b'', ''claude-haiku-4-5''])]"

text \<open>Requests per hour of a key; \<open>hour\<close> is the viewer's current hour.\<close>

definition hourly :: "int \<Rightarrow> (rat \<Rightarrow> rat) \<Rightarrow> seed_key \<Rightarrow> int list" where
  "hourly hour sin_turns k =
     (let seed = int (sum_list (map of_char (sk_id k)));
          base = of_int (sk_requests24h k) / 24
      in map (\<lambda>i.
           (let h = (hour - 23 + i + 24) mod 24;
                diurnal = 1/2 + 1/2 * sin_turns ((of_int h - 7) / 24);
                jitter = 85/100 + of_int ((seed * (i + 3)) mod 30) / 100
            in math_round (base * (4/10 + diurnal) * jitter))) [0..23])"

definition mockProjectId :: "string \<Rightarrow> string \<Rightarrow> string" where
  "mockProjectId t n = ''p-'' @ t @ ''-'' @ n"

definition mockKeyOwners :: "string \<Rightarrow> string option" where
  "mockKeyOwners = map_of [(''k2'', ''marco@acme.dev''), (''k3'', ''sam@acme.dev''), (''k6'', ''marco@acme.dev'')]"

definition mock_key :: "int \<Rightarrow> (rat \<Rightarrow> rat) \<Rightarrow> seed_key \<Rightarrow> api_key" where
  "mock_key hour sin_turns k =
     \<lparr>ak_id = sk_id k, ak_name = sk_name k, ak_prefix = sk_prefix k, ak_team = sk_team k,
      ak_project = sk_project k, ak_projectId = mockProjectId (sk_team k) (sk_project k),
      ak_lastUsed = sk_lastUsed k, ak_requests24h = sk_requests24h k,
      ak_hourly24h = hourly hour sin_turns k, ak_spend24hUsd = None, ak_unpriced24h = None,
      ak_owner = or_else (mockKeyOwners (sk_id k)) ''priya@acme.dev''\<rparr>"

definition mock_keys :: "int \<Rightarrow> (rat \<Rightarrow> rat) \<Rightarrow> api_key list" where
  "mock_keys hour sin_turns = map (mock_key hour sin_turns) seedKeys"

definition mock_projects :: "api_key list \<Rightarrow> project list" where
  "mock_projects ks = om_values (om_of (map (\<lambda>k.
     (ak_projectId k, \<lparr>pj_id = ak_projectId k, pj_team = ak_team k, pj_name = ak_project k\<rparr>)) ks))"

section \<open>Receipts\<close>

definition keyWeights :: "(string \<times> rat) list" where
  "keyWeights = [(''k1'', 30), (''k2'', 22), (''k3'', 10), (''k4'', 30), (''k5'', 5), (''k6'', 3)]"

fun weighted_loop :: "(string \<times> rat) list \<Rightarrow> rat \<Rightarrow> string option" where
  "weighted_loop [] x = None"
| "weighted_loop ((k, w) # rest) x = (if x - w < 0 then Some k else weighted_loop rest (x - w))"

definition weightedKey :: "api_key list \<Rightarrow> ('s, rat) state \<Rightarrow> ('s, api_key option) state" where
  "weightedKey ks r = do {
     x \<leftarrow> r;
     let tot = sum_list (map snd keyWeights);
     State_Monad.return (index_by ak_id ks (or_else (weighted_loop keyWeights (x * tot)) ''k1'')) }"

definition cost :: "mock_model \<Rightarrow> int \<Rightarrow> int \<Rightarrow> int \<Rightarrow> int \<Rightarrow> rat" where
  "cost m inTok cached out reasoning =
     (of_int (inTok - cached) * mm_inPerM m + of_int cached * mm_cachedPerM m + of_int out * mm_outPerM m
        + of_int reasoning * mm_reasoningPerM m) / 1000000"

definition actors :: "string option list" where
  "actors = [Some ''u_4412'', Some ''u_0981'', Some ''u_2231'', Some ''svc-digest'', Some ''u_7713'', None, None]"

text \<open>Reading a property of a value that may be \<open>undefined\<close>.\<close>

definition need :: "'a option \<Rightarrow> ('a \<Rightarrow> ('s, 'b option) state) \<Rightarrow> ('s, 'b option) state" where
  "need v f = (case v of None \<Rightarrow> State_Monad.return None | Some x \<Rightarrow> f x)"

definition verdict_of_roll :: "rat \<Rightarrow> verdict" where
  "verdict_of_roll roll =
     (if roll < 3/100 then Blocked else if roll < 34/1000 then Throttled
      else if roll < 4/100 then Truncated else Allowed)"

text \<open>The object that is returned, from the values computed before it and the draws made inside it.\<close>

definition built_receipt ::
  "int \<Rightarrow> bool \<Rightarrow> api_key \<Rightarrow> mock_model \<Rightarrow> resource_info \<Rightarrow> verdict \<Rightarrow> int \<Rightarrow> int \<Rightarrow> int \<Rightarrow> int \<Rightarrow> int \<Rightarrow>
   string \<Rightarrow> string \<Rightarrow> string option \<Rightarrow> string option option \<Rightarrow> receipt" where
  "built_receipt ts inFlight key model resource verdict inputTokens cachedInputTokens outputTokens reasoningTokens
       durationMs i trace sess actor =
     (let refused = (verdict = Blocked \<or> verdict = Throttled) in
       \<lparr>rc_id = i, rc_traceId = trace, rc_sessionId = sess, rc_ts = ts,
        rc_durationMs = durationMs, rc_keyId = ak_id key, rc_keyName = ak_name key, rc_team = ak_team key,
        rc_project = ak_project key, rc_projectId = Some (ak_projectId key), rc_actor = or_else actor None,
        rc_requestedModel = md_id model, rc_resolvedModel = md_id model, rc_backend = ri_backend resource,
        rc_inputTokens = inputTokens, rc_cachedInputTokens = cachedInputTokens,
        rc_outputTokens = (if refused \<or> verdict = Truncated then 0 else outputTokens),
        rc_reasoningTokens = (if refused then 0 else reasoningTokens), rc_cacheWriteTokens = None,
        rc_costUsd = (if refused then Some 0 else if verdict = Truncated then None
          else Some (cost model inputTokens cachedInputTokens outputTokens reasoningTokens)),
        rc_verdict = verdict,
        rc_status = (if verdict = Blocked then 403 else if verdict = Throttled then 429 else 200),
        rc_errorCode = (case verdict of Blocked \<Rightarrow> Some ''refused'' | Throttled \<Rightarrow> Some ''rate_limited''
          | Truncated \<Rightarrow> Some ''no_usage_reported'' | Allowed \<Rightarrow> None),
        rc_errorDetail = (case verdict of
            Blocked \<Rightarrow> Some ''The gateway refused this request (HTTP 403).''
          | Truncated \<Rightarrow> Some ''The gateway reported no token counts for this request.'' | _ \<Rightarrow> None),
        rc_inFlight = inFlight\<rparr>)"

text \<open>The draws of a receipt after its key and model, in the order the code makes them.\<close>

definition receipt_body ::
  "int \<Rightarrow> bool \<Rightarrow> api_key \<Rightarrow> mock_model \<Rightarrow> resource_info \<Rightarrow> ('s, rat) state \<Rightarrow> ('s, receipt option) state" where
  "receipt_body ts inFlight key model resource r = do {
     roll \<leftarrow> r;
     let verdict = verdict_of_roll roll;
     x \<leftarrow> r;
     let inputTokens = math_round (200 + x ^ 2 * (if ak_team key = ''batch'' then 40000 else 9000));
     c \<leftarrow> r;
     cachedInputTokens \<leftarrow> (if c < 4/10
       then do { x \<leftarrow> r; State_Monad.return (math_round (of_int inputTokens * x * (7/10))) }
       else State_Monad.return 0);
     x \<leftarrow> r;
     let outputTokens = math_round (40 + x * (if ak_team key = ''agents'' then 2400 else 900));
     reasoningTokens \<leftarrow> (if starts_with ''gpt-5'' (md_id model)
       then do {
         c \<leftarrow> r;
         if c < 1/2 then do { x \<leftarrow> r; State_Monad.return (math_round (x * 3000)) }
         else State_Monad.return 0 }
       else State_Monad.return 0);
     x \<leftarrow> r;
     let durationMs = (if verdict = Blocked \<or> verdict = Throttled then math_round (18 + x * 30)
       else math_round (ri_p50 resource * (1/2 + x * (18/10)) + of_int outputTokens * (6/10)));
     id1 \<leftarrow> hex 8 r;
     id2 \<leftarrow> hex 4 r;
     trace \<leftarrow> hex 32 r;
     sess \<leftarrow> (if ak_team key = ''agents''
       then do { h \<leftarrow> hex 6 r; State_Monad.return (Some (''sess_'' @ h)) }
       else State_Monad.return None);
     actor \<leftarrow> pick actors r;
     State_Monad.return (Some (built_receipt ts inFlight key model resource verdict inputTokens cachedInputTokens
       outputTokens reasoningTokens durationMs (id1 @ ''-'' @ id2) trace sess actor)) }"

definition makeReceipt :: "api_key list \<Rightarrow> int \<Rightarrow> ('s, rat) state \<Rightarrow> bool \<Rightarrow> ('s, receipt option) state" where
  "makeReceipt ks ts r inFlight = do {
     k \<leftarrow> weightedKey ks r;
     need k (\<lambda>key. need (map_of keyModels (ak_id key)) (\<lambda>ms. do {
       m \<leftarrow> pick ms r;
       need m (\<lambda>resolved. need (mock_modelById resolved) (\<lambda>model.
         need (resources (md_provider model)) (\<lambda>resource. receipt_body ts inFlight key model resource r))) })) }"

definition seed_receipt :: "api_key list \<Rightarrow> int \<Rightarrow> ('s, rat) state \<Rightarrow> nat \<Rightarrow> ('s, receipt option) state" where
  "seed_receipt ks now r i = do {
     x \<leftarrow> r;
     makeReceipt ks (now - int i * 1400 - \<lfloor>x * 900\<rfloor>) r False }"

definition seedReceipts :: "api_key list \<Rightarrow> int \<Rightarrow> ('s, rat) state \<Rightarrow> ('s, receipt option list) state" where
  "seedReceipts ks now r = State_Monad.traverse_list (seed_receipt ks now r) [0..<240]"

text \<open>
  One tick of the simulator in \<open>state/app-state.tsx\<close>: the new receipt, the delay after which it settles when it is
  streaming, and the delay to the next tick.
\<close>

definition sim_draw :: "api_key list \<Rightarrow> int \<Rightarrow> ('s, rat) state \<Rightarrow> ('s, receipt option \<times> rat option \<times> rat) state" where
  "sim_draw ks now r = do {
     x \<leftarrow> r;
     let streaming = (x < 35/100);
     rec \<leftarrow> makeReceipt ks now r streaming;
     settle \<leftarrow> (if streaming then do { y \<leftarrow> r; State_Monad.return (Some (1800 + y * 2600)) }
                else State_Monad.return None);
     z \<leftarrow> r;
     State_Monad.return (rec, settle, 700 + z * 1400) }"

section \<open>Series\<close>

definition traffic_point :: "int \<Rightarrow> (rat \<Rightarrow> rat) \<Rightarrow> ('s, rat) state \<Rightarrow> nat \<Rightarrow> ('s, series_point) state" where
  "traffic_point now sin_turns r i = do {
     x \<leftarrow> r;
     let h0 = of_nat i / 2 + 8;
     let hour = h0 - 24 * of_int \<lfloor>h0 / 24\<rfloor>;
     let diurnal = 55/100 + 45/100 * sin_turns ((hour - 6) / 24);
     let base = math_round (2400 * diurnal + x * 300);
     State_Monad.return
       \<lparr>sr_t = now - (47 - int i) * 30 * 60000,
        sr_allowed = math_round (of_int base * (96/100)),
        sr_blocked = math_round (of_int base * (3/100)),
        sr_truncated = math_round (of_int base * (5/1000)),
        sr_throttled = math_round (of_int base * (4/1000))\<rparr> }"

definition trafficSeries :: "int \<Rightarrow> (rat \<Rightarrow> rat) \<Rightarrow> ('s, rat) state \<Rightarrow> ('s, series_point list) state" where
  "trafficSeries now sin_turns r = State_Monad.traverse_list (traffic_point now sin_turns r) [0..<48]"

text \<open>\<open>d.getDay()\<close> in the viewer's zone, and \<open>toISOString().slice(5, 10)\<close> in UTC.\<close>

definition local_weekday :: "(int \<Rightarrow> int) \<Rightarrow> int \<Rightarrow> int" where
  "local_weekday tz t = ((t + tz t) div DAY_MS + 4) mod 7"

definition spend_point_at :: "int \<Rightarrow> (int \<Rightarrow> int) \<Rightarrow> ('s, rat) state \<Rightarrow> nat \<Rightarrow> ('s, spend_point) state" where
  "spend_point_at now tz r i = do {
     let d = now - (29 - int i) * 86400000;
     let weekend = (local_weekday tz d = 0 \<or> local_weekday tz d = 6);
     let surge = (if i \<ge> 24 then 29/10 else (1::rat));
     x1 \<leftarrow> r; x2 \<leftarrow> r; x3 \<leftarrow> r; x4 \<leftarrow> r; x5 \<leftarrow> r; x6 \<leftarrow> r;
     State_Monad.return
       \<lparr>sp_day = iso_month_day d,
        sp_byTeam =
          [(''support'', (if weekend then 180 else 310) * surge + x1 * 40),
           (''agents'', (if weekend then 900 else 1250) + x2 * 180),
           (''batch'', 110 + x3 * 30),
           (''web'', (if weekend then 260 else 340) + x4 * 50),
           (''research'', 420 + x5 * 300),
           (''security'', 6 + x6 * 4)]\<rparr> }"

definition spendSeries :: "int \<Rightarrow> (int \<Rightarrow> int) \<Rightarrow> ('s, rat) state \<Rightarrow> ('s, spend_point list) state" where
  "spendSeries now tz r = State_Monad.traverse_list (spend_point_at now tz r) [0..<30]"

definition mock_session :: session where
  "mock_session =
     \<lparr>ss_tenantId = ''acme'', ss_tenantName = ''acme'', ss_environment = ''production'',
      ss_actor = \<lparr>ac_email = ''priya@acme.dev'', ac_name = Some ''Priya Shah'', ac_roles = [''admin'']\<rparr>,
      ss_authMode = AuthOidc, ss_signOutUrl = Some ''/logout'', ss_controlPlane = ''0.1''\<rparr>"

definition seriesRequests :: "series_point list \<Rightarrow> int" where
  "seriesRequests ps = fold (\<lambda>p a. a + sr_allowed p + sr_blocked p + sr_truncated p + sr_throttled p) ps 0"

definition mock_summary :: "int \<Rightarrow> series_point list \<Rightarrow> summary" where
  "mock_summary now ps =
     \<lparr>sm_range = ''24h'', sm_from = now - 86400000, sm_to = now,
      sm_current = \<lparr>wt_requests = seriesRequests ps, wt_spendUsd = 318462 / 100, wt_unpriced = None\<rparr>,
      sm_previous = \<lparr>wt_requests = math_round (of_int (seriesRequests ps) / (1062 / 1000)),
                     wt_spendUsd = (318462 / 100) / (1418 / 1000), wt_unpriced = None\<rparr>,
      sm_topTeamIncrease = Some (''support'', 940)\<rparr>"

text \<open>The module as it is evaluated: receipts, traffic and spend share the one seeded generator, in this order.\<close>

definition mock_series ::
  "api_key list \<Rightarrow> int \<Rightarrow> (int \<Rightarrow> int) \<Rightarrow> (rat \<Rightarrow> rat) \<Rightarrow> ('s, rat) state \<Rightarrow>
   ('s, receipt option list \<times> series_point list \<times> spend_point list) state" where
  "mock_series ks now tz sin_turns r = do {
     receipts \<leftarrow> seedReceipts ks now r;
     traffic \<leftarrow> trafficSeries now sin_turns r;
     spend \<leftarrow> spendSeries now tz r;
     State_Monad.return (receipts, traffic, spend) }"

definition mock_fixtures :: "int \<Rightarrow> int \<Rightarrow> (int \<Rightarrow> int) \<Rightarrow> (rat \<Rightarrow> rat) \<Rightarrow> fixtures" where
  "mock_fixtures hour now tz sin_turns =
     (let ks = mock_keys hour sin_turns in
      \<lparr>fx_teams = mock_teams, fx_keys = ks, fx_keyModels = keyModels, fx_models = mock_models,
       fx_spendSeries = snd (snd (fst (run_state (mock_series ks now tz sin_turns mulberry32) rand_seed))),
       fx_now = now\<rparr>)"

section \<open>What a computation with draws can yield\<close>

definition yields :: "('s, 'a) state \<Rightarrow> ('a \<Rightarrow> bool) \<Rightarrow> bool" where
  "yields m P \<longleftrightarrow> (\<forall>s. P (fst (run_state m s)))"

lemma yields_return: "P a \<Longrightarrow> yields (State_Monad.return a) P"
  by (simp add: yields_def)

lemma yields_bind:
  "yields m Q \<Longrightarrow> (\<And>a. Q a \<Longrightarrow> yields (f a) P) \<Longrightarrow> yields (m \<bind> f) P"
  by (auto simp: yields_def split: prod.split) (metis fst_conv)

lemma yields_mono: "yields m Q \<Longrightarrow> (\<And>a. Q a \<Longrightarrow> P a) \<Longrightarrow> yields m P"
  by (simp add: yields_def)

lemma yields_if: "(b \<Longrightarrow> yields m P) \<Longrightarrow> (\<not> b \<Longrightarrow> yields n P) \<Longrightarrow> yields (if b then m else n) P"
  by simp

lemma yields_need: "v = Some x \<Longrightarrow> yields (f x) P \<Longrightarrow> yields (need v f) P"
  by (simp add: need_def)

lemma yields_traverse:
  "(\<And>x. x \<in> set xs \<Longrightarrow> yields (f x) (P x)) \<Longrightarrow> yields (State_Monad.traverse_list f xs) (list_all2 P xs)"
proof (induction xs)
  case (Cons x xs)
  show ?case
    unfolding State_Monad.traverse_list.simps
    by (rule yields_bind [where Q = "P x"])
      (auto intro!: Cons.prems yields_bind [OF Cons.IH] yields_return)
qed (simp add: yields_return)

lemma math_round_ge: "of_int a \<le> x \<Longrightarrow> a \<le> math_round x"
  unfolding math_round_def by (simp add: le_floor_iff)

lemma math_round_le: "x \<le> of_int b \<Longrightarrow> math_round x \<le> b"
  unfolding math_round_def by (simp add: floor_le_iff)

definition is_hex :: "char \<Rightarrow> bool" where
  "is_hex c \<longleftrightarrow> is_digit_char c \<or> c \<in> set ''abcdef''"

lemma hex_digit_hex: "k < 16 \<Longrightarrow> is_hex (hex_digit k)"
proof (cases "k < 10")
  case False
  assume "k < 16"
  with False consider "k = 10" | "k = 11" | "k = 12" | "k = 13" | "k = 14" | "k = 15" by linarith
  then show ?thesis
    by cases (simp_all add: is_hex_def hex_digit_def char_of_def bit_Suc bit_0)
qed (simp add: is_hex_def hex_digit_def)

text \<open>
  What the generator makes.  Not all of it is what a receipt should be: a truncated one has token counts although its
  error says that none were reported, and reasoning tokens are drawn apart from the output that should include them.
  \<open>demo_receipt_ok\<close> is the part that agrees with the rest of the program.
\<close>

definition verdict_ok :: "receipt \<Rightarrow> bool" where
  "verdict_ok x = (case rc_verdict x of
     Blocked \<Rightarrow> rc_status x = 403 \<and> rc_outputTokens x = 0 \<and> rc_reasoningTokens x = 0 \<and> rc_costUsd x = Some 0
       \<and> rc_errorDetail x \<noteq> None
   | Throttled \<Rightarrow> rc_status x = 429 \<and> rc_outputTokens x = 0 \<and> rc_reasoningTokens x = 0 \<and> rc_costUsd x = Some 0
   | Truncated \<Rightarrow> rc_status x = 200 \<and> rc_outputTokens x = 0 \<and> rc_costUsd x = None \<and> rc_errorCode x \<noteq> None
   | Allowed \<Rightarrow> rc_status x = 200 \<and> 40 \<le> rc_outputTokens x \<and> rc_errorCode x = None
       \<and> (case rc_costUsd x of None \<Rightarrow> False | Some c \<Rightarrow> 0 < c))"

definition receipt_ok :: "receipt \<Rightarrow> bool" where
  "receipt_ok x \<longleftrightarrow> 0 \<le> rc_cachedInputTokens x \<and> rc_cachedInputTokens x \<le> rc_inputTokens x
     \<and> 200 \<le> rc_inputTokens x \<and> rc_inputTokens x \<le> 40200 \<and> 0 \<le> rc_reasoningTokens x \<and> 0 < rc_durationMs x
     \<and> length (rc_id x) = 13 \<and> length (rc_traceId x) = 32 \<and> list_all is_hex (rc_traceId x)
     \<and> (rc_sessionId x \<noteq> None \<longleftrightarrow> rc_team x = ''agents'') \<and> verdict_ok x"

definition demo_receipt_ok :: "receipt \<Rightarrow> bool" where
  "demo_receipt_ok x \<longleftrightarrow> 0 < rc_durationMs x
     \<and> length (rc_id x) = 13 \<and> length (rc_traceId x) = 32 \<and> list_all is_hex (rc_traceId x)
     \<and> (rc_sessionId x \<noteq> None \<longleftrightarrow> rc_team x = ''agents'')
     \<and> (case rc_verdict x of
          Blocked \<Rightarrow> rc_status x = 403 \<and> rc_outputTokens x = 0 \<and> rc_reasoningTokens x = 0 \<and> rc_costUsd x = Some 0
            \<and> rc_errorDetail x \<noteq> None
        | Throttled \<Rightarrow> rc_status x = 429 \<and> rc_outputTokens x = 0 \<and> rc_reasoningTokens x = 0 \<and> rc_costUsd x = Some 0
        | Truncated \<Rightarrow> rc_status x = 200 \<and> rc_costUsd x = None \<and> rc_errorCode x \<noteq> None
        | Allowed \<Rightarrow> rc_status x = 200 \<and> rc_errorCode x = None \<and> 0 < rc_outputTokens x
            \<and> 0 \<le> rc_cachedInputTokens x \<and> rc_cachedInputTokens x \<le> rc_inputTokens x
            \<and> (case rc_costUsd x of None \<Rightarrow> False | Some c \<Rightarrow> 0 < c))"

lemma receipt_ok_demo: "receipt_ok x \<Longrightarrow> demo_receipt_ok x"
  by (auto simp: receipt_ok_def verdict_ok_def demo_receipt_ok_def split: verdict.splits)

definition served_by :: "api_key \<Rightarrow> mock_model \<Rightarrow> receipt \<Rightarrow> bool" where
  "served_by key model x \<longleftrightarrow> rc_keyId x = ak_id key \<and> rc_keyName x = ak_name key \<and> rc_team x = ak_team key
     \<and> rc_project x = ak_project key \<and> rc_projectId x = Some (ak_projectId key) \<and> rc_resolvedModel x = md_id model"

definition priced :: "mock_model \<Rightarrow> bool" where
  "priced m \<longleftrightarrow> 0 < mm_inPerM m \<and> 0 < mm_outPerM m \<and> 0 < mm_cachedPerM m \<and> 0 < mm_reasoningPerM m"

lemma cost_pos:
  assumes "priced m" and "0 \<le> cached" "cached \<le> inTok" "0 < out" "0 \<le> reasoning"
  shows "0 < cost m inTok cached out reasoning"
proof -
  have "0 < of_int out * mm_outPerM m" using assms by (simp add: priced_def)
  moreover have "0 \<le> of_int (inTok - cached) * mm_inPerM m" "0 \<le> of_int cached * mm_cachedPerM m"
    "0 \<le> of_int reasoning * mm_reasoningPerM m"
    using assms by (simp_all add: priced_def)
  ultimately show ?thesis by (simp add: cost_def)
qed

lemma built_receipt_ok:
  assumes "priced model" and "0 \<le> ca" "ca \<le> inp" "200 \<le> inp" "inp \<le> 40200" "40 \<le> out" "0 \<le> rea" "0 < dur"
    and "length i = 13" "length tr = 32" "list_all is_hex tr" "(sess \<noteq> None) = (ak_team key = ''agents'')"
  shows "receipt_ok (built_receipt ts fl key model resource v inp ca out rea dur i tr sess actor)"
    and "served_by key model (built_receipt ts fl key model resource v inp ca out rea dur i tr sess actor)"
  using assms cost_pos [OF assms(1), of ca inp out rea]
  by (auto simp: receipt_ok_def verdict_ok_def served_by_def built_receipt_def Let_def split: verdict.split)

lemma built_receipt_fields [simp]:
  "rc_ts (built_receipt ts fl key model resource v inp ca out rea dur i tr sess actor) = ts"
  "rc_inFlight (built_receipt ts fl key model resource v inp ca out rea dur i tr sess actor) = fl"
  by (simp_all add: built_receipt_def Let_def)

lemma weighted_loop_total:
  "0 \<le> x \<Longrightarrow> x < sum_list (map snd ws) \<Longrightarrow> \<exists>k \<in> fst ` set ws. weighted_loop ws x = Some k"
  by (induction ws x rule: weighted_loop.induct) (auto simp: less_diff_eq add.commute)

definition some_with :: "('a \<Rightarrow> bool) \<Rightarrow> 'a option \<Rightarrow> bool" where
  "some_with P v = (case v of None \<Rightarrow> False | Some x \<Rightarrow> P x)"

lemma some_with_Some [simp]: "some_with P (Some x) = P x"
  by (simp add: some_with_def)

lemma some_withE: "some_with P v \<Longrightarrow> (\<And>x. v = Some x \<Longrightarrow> P x \<Longrightarrow> thesis) \<Longrightarrow> thesis"
  by (auto simp: some_with_def split: option.splits)

text \<open>Every entry of the fixture tables leads on to the next: no lookup of \<open>makeReceipt\<close> is \<open>undefined\<close>.\<close>

definition chained :: "string \<Rightarrow> bool" where
  "chained i = some_with (\<lambda>ms. ms \<noteq> [] \<and> list_all (\<lambda>m.
     some_with (\<lambda>model. priced model \<and> md_id model = m \<and>
       some_with (\<lambda>resource. 0 < ri_p50 resource) (resources (md_provider model))) (mock_modelById m)) ms)
     (map_of keyModels i)"

lemmas catalog_tables = mock_modelById_def index_by_def mock_models_def mk_model_def resources_def keyModels_def

lemma fixtures_chained: "list_all chained (map fst keyWeights)"
  by (simp add: keyWeights_def chained_def catalog_tables priced_def)

lemma mock_keys_ids: "map ak_id (mock_keys hour sin_turns) = map fst keyWeights"
  by (simp add: mock_keys_def seedKeys_def mk_key_def mock_key_def keyWeights_def)

lemma mock_key_found:
  assumes "i \<in> fst ` set keyWeights"
  shows "some_with (\<lambda>k. k \<in> set (mock_keys hour sin_turns) \<and> ak_id k = i \<and> chained i) (index_by ak_id (mock_keys hour sin_turns) i)"
proof -
  let ?ks = "mock_keys hour sin_turns"
  have "i \<in> set (map ak_id ?ks)" unfolding mock_keys_ids using assms by simp
  then have "i \<in> ak_id ` set ?ks" by simp
  then obtain k where "index_by ak_id ?ks i = Some k" using index_by_None [of ak_id ?ks i] by fastforce
  moreover have "chained i" using fixtures_chained assms by (auto simp: list_all_iff)
  ultimately show ?thesis using index_by_Some [of ak_id ?ks i k] by simp
qed

text \<open>A receipt of one of the keys, by a model that the key may call.\<close>

definition of_catalog :: "api_key list \<Rightarrow> receipt \<Rightarrow> bool" where
  "of_catalog ks x \<longleftrightarrow> (\<exists>k \<in> set ks. rc_keyId x = ak_id k \<and> rc_team x = ak_team k \<and>
     some_with (\<lambda>ms. rc_resolvedModel x \<in> set ms) (map_of keyModels (ak_id k)))"

text \<open>A source of random numbers, as \<open>Math.random\<close> and the seeded generator promise.\<close>

locale unit_random =
  fixes r :: "('s, rat) state"
  assumes unit: "yields r (\<lambda>x. 0 \<le> x \<and> x < 1)"
begin

lemma draw: "(\<And>x. 0 \<le> x \<Longrightarrow> x < 1 \<Longrightarrow> yields (f x) P) \<Longrightarrow> yields (r \<bind> f) P"
  by (rule yields_bind [OF unit]) simp

lemma floor_range:
  fixes x :: rat
  assumes "0 \<le> x" "x < 1" "0 < n"
  shows "0 \<le> \<lfloor>x * of_nat n\<rfloor> \<and> \<lfloor>x * of_nat n\<rfloor> < int n"
proof -
  have "x * of_nat n < of_nat n" using assms by simp
  then have "\<lfloor>x * of_nat n\<rfloor> < int n" by (simp add: floor_less_iff)
  then show ?thesis using assms by simp
qed

lemma pick_in: "arr \<noteq> [] \<Longrightarrow> yields (pick arr r) (\<lambda>v. \<exists>a \<in> set arr. v = Some a)"
proof -
  assume "arr \<noteq> []"
  then have "0 < length arr" by simp
  then show ?thesis
    unfolding pick_def
    by (intro draw yields_return) (use floor_range in \<open>force simp: js_at_def nat_less_iff\<close>)
qed

lemma hex_shape: "yields (hex n r) (\<lambda>h. length h = n \<and> list_all is_hex h)"
proof (induction n)
  case (Suc n)
  show ?case
    unfolding hex.simps
  proof (rule draw, rule yields_bind [OF Suc], rule yields_return)
    fix x :: rat and a
    assume "0 \<le> x" "x < 1" and a: "length a = n \<and> list_all is_hex a"
    then have "nat \<lfloor>x * 16\<rfloor> < 16" using floor_range [of x 16] by (simp add: nat_less_iff)
    with hex_digit_hex a show "length (hex_digit (nat \<lfloor>x * 16\<rfloor>) # a) = Suc n \<and> list_all is_hex (hex_digit (nat \<lfloor>x * 16\<rfloor>) # a)"
      by simp
  qed
qed (simp add: yields_return)

lemma cached_range:
  fixes x :: rat
  assumes "200 \<le> n" "0 \<le> x" "x < 1"
  shows "0 \<le> math_round (of_int n * x * (7/10)) \<and> math_round (of_int n * x * (7/10)) \<le> n"
proof
  show "0 \<le> math_round (of_int n * x * (7/10))" using assms by (intro math_round_ge) simp
  have "of_int n * x \<le> of_int n" using assms by (simp add: mult_left_le)
  moreover have "0 \<le> of_int n * x" using assms by simp
  ultimately show "math_round (of_int n * x * (7/10)) \<le> n" by (intro math_round_le) simp
qed

lemma cached_draw:
  assumes "200 \<le> n"
  shows "yields (if c < (4/10 :: rat)
       then do { x \<leftarrow> r; State_Monad.return (math_round (of_int n * x * (7/10))) }
       else State_Monad.return 0) (\<lambda>v. 0 \<le> v \<and> v \<le> n)"
  using assms by (intro yields_if draw yields_return cached_range) simp_all

lemma reasoning_draw:
  "yields (if b then do { c \<leftarrow> r; if c < 1/2 then do { x \<leftarrow> r; State_Monad.return (math_round (x * 3000)) }
         else State_Monad.return 0 } else State_Monad.return 0) (\<lambda>v. 0 \<le> v)"
  by (intro yields_if draw yields_return math_round_ge) simp_all

lemma session_draw:
  "yields (if b then do { h \<leftarrow> hex 6 r; State_Monad.return (Some (''sess_'' @ h)) }
       else State_Monad.return None) (\<lambda>v. (v \<noteq> None) = b)"
  by (cases b) (auto intro!: yields_bind [OF hex_shape] yields_return)

lemma receipt_body_ok:
  assumes "priced model" and "0 < ri_p50 resource"
  shows "yields (receipt_body ts fl key model resource r)
    (some_with (\<lambda>x. receipt_ok x \<and> served_by key model x \<and> rc_ts x = ts \<and> rc_inFlight x = fl))"
proof -
  let ?big = "if ak_team key = ''batch'' then 40000 else 9000 :: rat"
    and ?long = "if ak_team key = ''agents'' then 2400 else 900 :: rat"
  have input: "200 \<le> math_round (200 + x ^ 2 * ?big) \<and> math_round (200 + x ^ 2 * ?big) \<le> 40200"
    if "0 \<le> x" "x < 1" for x :: rat
  proof -
    have "x ^ 2 \<le> 1" "0 \<le> x ^ 2" using that by (simp_all add: power_le_one)
    then show ?thesis by (intro conjI math_round_ge math_round_le) auto
  qed
  have out: "40 \<le> math_round (40 + x * ?long)" if "0 \<le> x" for x :: rat
    using that by (intro math_round_ge) auto
  have short: "0 < math_round (18 + x * 30)" if "0 \<le> x" for x :: rat
    using that math_round_ge [of 1 "18 + x * 30"] by linarith
  have served: "0 < math_round (ri_p50 resource * (1/2 + x * (18/10)) + of_int n * (6/10))"
    if "0 \<le> x" "40 \<le> n" for x :: rat and n
  proof -
    have "0 \<le> ri_p50 resource * (1/2 + x * (18/10))" using assms(2) that by simp
    moreover have "(1 :: rat) \<le> of_int n * (6/10)" using that by linarith
    ultimately show ?thesis
      using math_round_ge [of 1 "ri_p50 resource * (1/2 + x * (18/10)) + of_int n * (6/10)"] by linarith
  qed
  have dur: "0 < (if b then math_round (18 + y * 30)
      else math_round (ri_p50 resource * (1/2 + y * (18/10)) + of_int (math_round (40 + x * ?long)) * (6/10)))"
    if "0 \<le> x" "0 \<le> y" for x y :: rat and b
    using short [OF that(2)] served [OF that(2) out [OF that(1)]] by simp
  note ok = built_receipt_ok [OF assms(1) _ _ input [THEN conjunct1] input [THEN conjunct2] out _ dur]
  show ?thesis
    unfolding receipt_body_def Let_def
  proof (intro draw yields_bind [OF cached_draw] yields_bind [OF reasoning_draw] yields_bind [OF session_draw]
        yields_bind [OF hex_shape] yields_bind [OF pick_in] yields_return, goal_cases)
    case (3 x0 x1 x2 ca x3 rea x4 i1 i2 tr sess actor)
    then show ?case
      unfolding some_with_Some by (intro conjI built_receipt_fields ok) simp_all
  qed (simp_all add: input actors_def)
qed

lemma weightedKey_some:
  "yields (weightedKey (mock_keys hour sin_turns) r)
    (some_with (\<lambda>k. k \<in> set (mock_keys hour sin_turns) \<and> chained (ak_id k)))"
  unfolding weightedKey_def Let_def
proof (rule draw, rule yields_return)
  fix x :: rat
  assume "0 \<le> x" "x < 1"
  moreover have "sum_list (map snd keyWeights) = 100" by (simp add: keyWeights_def)
  ultimately obtain i where "i \<in> fst ` set keyWeights"
    "weighted_loop keyWeights (x * sum_list (map snd keyWeights)) = Some i"
    using weighted_loop_total [of "x * sum_list (map snd keyWeights)" keyWeights] by auto
  then show "some_with (\<lambda>k. k \<in> set (mock_keys hour sin_turns) \<and> chained (ak_id k)) (index_by ak_id (mock_keys hour sin_turns)
      (or_else (weighted_loop keyWeights (x * sum_list (map snd keyWeights))) ''k1''))"
    using mock_key_found [of i hour sin_turns] by (auto elim!: some_withE)
qed

lemma makeReceipt_ok:
  "yields (makeReceipt (mock_keys hour sin_turns) ts r fl)
    (some_with (\<lambda>x. receipt_ok x \<and> of_catalog (mock_keys hour sin_turns) x \<and> rc_ts x = ts \<and> rc_inFlight x = fl))"
  unfolding makeReceipt_def
proof (rule yields_bind [OF weightedKey_some], elim some_withE conjE)
  fix v k
  assume v: "v = Some k" and k: "k \<in> set (mock_keys hour sin_turns)" and c: "chained (ak_id k)"
  from c obtain ms where ms: "map_of keyModels (ak_id k) = Some ms" "ms \<noteq> []"
    and el: "\<And>m. m \<in> set ms \<Longrightarrow> some_with (\<lambda>model. priced model \<and> md_id model = m \<and>
       some_with (\<lambda>resource. 0 < ri_p50 resource) (resources (md_provider model))) (mock_modelById m)"
    by (auto simp: chained_def list_all_iff elim!: some_withE)
  show "yields (need v (\<lambda>key. need (map_of keyModels (ak_id key)) (\<lambda>ms. do {
       m \<leftarrow> pick ms r;
       need m (\<lambda>resolved. need (mock_modelById resolved) (\<lambda>model.
         need (resources (md_provider model)) (\<lambda>resource. receipt_body ts fl key model resource r))) })))
    (some_with (\<lambda>x. receipt_ok x \<and> of_catalog (mock_keys hour sin_turns) x \<and> rc_ts x = ts \<and> rc_inFlight x = fl))"
  proof (rule yields_need [OF v], rule yields_need [OF ms(1)], rule yields_bind [OF pick_in [OF ms(2)]], elim bexE)
    fix u m assume m: "m \<in> set ms" and u: "u = Some m"
    from el [OF m] obtain model resource where mo: "mock_modelById m = Some model" "priced model" "md_id model = m"
      and re: "resources (md_provider model) = Some resource" "0 < ri_p50 resource"
      by (auto elim!: some_withE)
    have cat: "served_by k model x \<Longrightarrow> of_catalog (mock_keys hour sin_turns) x" for x
      using k ms m mo(3) by (auto simp: served_by_def of_catalog_def)
    show "yields (need u (\<lambda>resolved. need (mock_modelById resolved) (\<lambda>model.
         need (resources (md_provider model)) (\<lambda>resource. receipt_body ts fl k model resource r))))
      (some_with (\<lambda>x. receipt_ok x \<and> of_catalog (mock_keys hour sin_turns) x \<and> rc_ts x = ts \<and> rc_inFlight x = fl))"
      by (rule yields_need [OF u], rule yields_need [OF mo(1)], rule yields_need [OF re(1)],
          rule yields_mono [OF receipt_body_ok [OF mo(2) re(2)]]) (auto elim!: some_withE intro: cat)
  qed
qed

lemma seed_receipt_ok:
  "yields (seed_receipt (mock_keys hour sin_turns) now r i)
    (some_with (\<lambda>x. receipt_ok x \<and> of_catalog (mock_keys hour sin_turns) x
       \<and> now - int i * 1400 - 900 < rc_ts x \<and> rc_ts x \<le> now - int i * 1400))"
  unfolding seed_receipt_def
proof (rule draw)
  fix x :: rat
  assume x: "0 \<le> x" "x < 1"
  then have "0 \<le> \<lfloor>x * 900\<rfloor>" "\<lfloor>x * 900\<rfloor> < 900" using floor_range [of x 900] by simp_all
  then show "yields (makeReceipt (mock_keys hour sin_turns) (now - int i * 1400 - \<lfloor>x * 900\<rfloor>) r False)
    (some_with (\<lambda>x. receipt_ok x \<and> of_catalog (mock_keys hour sin_turns) x
       \<and> now - int i * 1400 - 900 < rc_ts x \<and> rc_ts x \<le> now - int i * 1400))"
    by (intro yields_mono [OF makeReceipt_ok]) (auto elim!: some_withE)
qed

lemma seedReceipts_ok:
  "yields (seedReceipts (mock_keys hour sin_turns) now r) (list_all2 (\<lambda>i.
     some_with (\<lambda>x. receipt_ok x \<and> of_catalog (mock_keys hour sin_turns) x
       \<and> now - int i * 1400 - 900 < rc_ts x \<and> rc_ts x \<le> now - int i * 1400)) [0..<240])"
  unfolding seedReceipts_def by (rule yields_traverse) (rule seed_receipt_ok)

end

text \<open>The seeded generator is such a source.\<close>

interpretation mb: unit_random mulberry32
proof
  have "of_nat (unat w) / 4294967296 < (1 :: rat)" for w :: "32 word"
  proof -
    have "unat w < 2 ^ 32" using unsigned_less [of w] by simp
    then have "unat w < 4294967296" by simp
    then have "of_nat (unat w) < (of_nat 4294967296 :: rat)" by (simp only: of_nat_less_iff)
    then show ?thesis by simp
  qed
  moreover have "0 \<le> of_nat (unat w) / (4294967296 :: rat)" for w :: "32 word"
    by (intro divide_nonneg_pos of_nat_0_le_iff) simp
  moreover have "fst (run_state mulberry32 s) = of_nat (unat (mulberry_mix (s + 0x6d2b79f5))) / 4294967296" for s
    by (simp add: mulberry32_def Let_def)
  ultimately show "yields mulberry32 (\<lambda>x. 0 \<le> x \<and> x < 1)" by (simp only: yields_def conj_absorb simp_thms)
qed

text \<open>The seeded history: all receipts are there, newest first, no two at the same time, the oldest 336 seconds back.\<close>

lemma history_of_draws:
  assumes "list_all2 (\<lambda>i. some_with (\<lambda>x. P x \<and> now - int i * 1400 - 900 < rc_ts x \<and> rc_ts x \<le> now - int i * 1400)) [0..<n] out"
  shows "\<exists>xs. out = map Some xs \<and> length xs = n \<and> list_all P xs \<and> sorted_wrt (\<lambda>a b. rc_ts b < rc_ts a) xs \<and>
    list_all (\<lambda>x. now - int n * 1400 < rc_ts x \<and> rc_ts x \<le> now) xs"
proof -
  let ?xs = "map the out"
  have len: "length out = n" using assms by (auto dest: list_all2_lengthD)
  have each: "out ! i = Some (?xs ! i) \<and> P (?xs ! i) \<and> now - int i * 1400 - 900 < rc_ts (?xs ! i) \<and> rc_ts (?xs ! i) \<le> now - int i * 1400"
    if "i < n" for i
    using list_all2_nthD2 [OF assms, of i] that len by (auto elim!: some_withE)
  have "out = map Some ?xs" by (rule nth_equalityI) (use each len in auto)
  moreover have "list_all P ?xs" "list_all (\<lambda>x. now - int n * 1400 < rc_ts x \<and> rc_ts x \<le> now) ?xs"
    unfolding list_all_length using each len by fastforce+
  moreover have "sorted_wrt (\<lambda>a b. rc_ts b < rc_ts a) ?xs"
    unfolding sorted_wrt_iff_nth_less
  proof (intro allI impI)
    fix i j assume ij: "i < j" "j < length ?xs"
    then have "rc_ts (?xs ! j) \<le> now - int j * 1400" "now - int i * 1400 - 900 < rc_ts (?xs ! i)"
      using each len by auto
    with ij show "rc_ts (?xs ! j) < rc_ts (?xs ! i)" by simp
  qed
  ultimately show ?thesis using len by (intro exI [of _ ?xs]) simp
qed

lemma mock_history:
  "\<exists>xs. fst (run_state (seedReceipts (mock_keys hour sin_turns) now mulberry32) s) = map Some xs \<and> length xs = 240 \<and>
     list_all (\<lambda>x. receipt_ok x \<and> of_catalog (mock_keys hour sin_turns) x) xs \<and> sorted_wrt (\<lambda>a b. rc_ts b < rc_ts a) xs \<and>
     list_all (\<lambda>x. now - 336000 < rc_ts x \<and> rc_ts x \<le> now) xs"
proof -
  have "list_all2 (\<lambda>i. some_with (\<lambda>x. (receipt_ok x \<and> of_catalog (mock_keys hour sin_turns) x) \<and>
      now - int i * 1400 - 900 < rc_ts x \<and> rc_ts x \<le> now - int i * 1400)) [0..<240]
      (fst (run_state (seedReceipts (mock_keys hour sin_turns) now mulberry32) s))"
    using mb.seedReceipts_ok [of hour sin_turns now] by (simp add: yields_def)
  from history_of_draws [OF this] show ?thesis by simp
qed

lemma mock_history_demo:
  "\<exists>xs. fst (run_state (seedReceipts (mock_keys hour sin_turns) now mulberry32) s) = map Some xs \<and> length xs = 240 \<and>
     list_all (\<lambda>x. demo_receipt_ok x \<and> of_catalog (mock_keys hour sin_turns) x) xs \<and> sorted_wrt (\<lambda>a b. rc_ts b < rc_ts a) xs \<and>
     list_all (\<lambda>x. now - 336000 < rc_ts x \<and> rc_ts x \<le> now) xs"
  using mock_history [of hour sin_turns now s] by (fastforce simp: list_all_iff intro: receipt_ok_demo)

section \<open>The period of the generator\<close>

definition rng_state :: "nat \<Rightarrow> 32 word \<Rightarrow> 32 word" where
  "rng_state n s = ((\<lambda>s. snd (run_state mulberry32 s)) ^^ n) s"

lemma rng_state_eq: "rng_state n s = s + of_nat n * 0x6d2b79f5"
proof (induction n)
  case (Suc n)
  have "rng_state (Suc n) s = snd (run_state mulberry32 (rng_state n s))" by (simp add: rng_state_def)
  also have "\<dots> = rng_state n s + 0x6d2b79f5" by (simp add: mulberry32_def Let_def)
  finally show ?case using Suc by (simp add: algebra_simps)
qed (simp add: rng_state_def)

text \<open>The increment is odd, so the state returns only after all \<open>2\<^sup>3\<^sup>2\<close> values.\<close>

lemma odd_mult_cancel: "c * d = (1 :: 32 word) \<Longrightarrow> x * c = y * c \<longleftrightarrow> x = y"
proof
  assume cd: "c * d = 1" and "x * c = y * c"
  then have "x * c * d = y * c * d" by simp
  with cd show "x = y" by (simp only: mult.assoc mult_1_right)
qed simp

lemma rng_period: "rng_state m s = rng_state n s \<longleftrightarrow> m mod 2 ^ 32 = n mod 2 ^ 32"
proof -
  have inv: "(0x6d2b79f5 :: 32 word) * 3696798301 = 1" by simp
  have "rng_state m s = rng_state n s \<longleftrightarrow> (of_nat m :: 32 word) * 0x6d2b79f5 = of_nat n * 0x6d2b79f5"
    by (simp add: rng_state_eq)
  also have "\<dots> \<longleftrightarrow> (of_nat m :: 32 word) = of_nat n"
    using odd_mult_cancel [OF inv] by blast
  also have "\<dots> \<longleftrightarrow> m mod 2 ^ 32 = n mod 2 ^ 32"
    by (simp add: word_of_nat_eq_iff take_bit_eq_mod)
  finally show ?thesis .
qed

section \<open>The fixtures and the spend attribution\<close>

lemma mock_fixtures_fields:
  "fx_keys (mock_fixtures hour now tz sin_turns) = mock_keys hour sin_turns"
  "fx_teams (mock_fixtures hour now tz sin_turns) = mock_teams"
  "fx_keyModels (mock_fixtures hour now tz sin_turns) = keyModels"
  by (simp_all only: mock_fixtures_def Let_def fixtures.select_convs)

lemma mock_key_fields:
  "ak_id (mock_key hour sin_turns k) = sk_id k" "ak_team (mock_key hour sin_turns k) = sk_team k"
  "ak_requests24h (mock_key hour sin_turns k) = sk_requests24h k"
  by (simp_all only: mock_key_def api_key.select_convs)

lemma seed_key_fields [simp]:
  "sk_id (mk_key i n p t pr l q) = i" "sk_team (mk_key i n p t pr l q) = t"
  "sk_requests24h (mk_key i n p t pr l q) = q"
  by (simp_all add: mk_key_def)

lemma mock_weighted_table:
  "list_all (\<lambda>k. sum_list (map (num_of (list_of modelWeight (sk_team k)))
      (filter (\<lambda>m. num_of (list_of modelWeight (sk_team k)) m \<noteq> 0) (list_of keyModels (sk_id k)))) \<noteq> 0) seedKeys"
  by code_simp

lemma mock_weighted:
  "k \<in> set (mock_keys hour sin_turns) \<Longrightarrow> ak_team k = tm_id t \<Longrightarrow>
     weighted (mock_fixtures hour now tz sin_turns) t k"
  using mock_weighted_table
  by (auto simp: mock_keys_def mock_key_fields weighted_def mock_fixtures_fields list_all_iff)

lemma mock_team_requests:
  "list_all (\<lambda>t. sum_list (map (\<lambda>k. of_int (sk_requests24h k)) (filter (\<lambda>k. sk_team k = tm_id t) seedKeys)) \<noteq> (0::rat))
     mock_teams"
  by (simp add: mock_teams_def mk_team_def seedKeys_def)

lemma mock_shares:
  assumes "t \<in> set mock_teams"
  shows "sum_list (map ce_share (team_cells (mock_fixtures hour now tz sin_turns) t)) = 1"
proof (rule team_cells_share)
  show "\<forall>k \<in> set (fx_keys (mock_fixtures hour now tz sin_turns)). ak_team k = tm_id t \<longrightarrow>
      weighted (mock_fixtures hour now tz sin_turns) t k"
    using mock_weighted by (simp add: mock_fixtures_fields)
  show "sum_list (map (\<lambda>k. of_int (ak_requests24h k))
      (filter (\<lambda>k. ak_team k = tm_id t) (fx_keys (mock_fixtures hour now tz sin_turns)))) \<noteq> (0::rat)"
    using mock_team_requests assms
    by (simp add: mock_fixtures_fields mock_keys_def mock_key_fields filter_map o_def list_all_iff)
qed

end
