(* ===== verification/KeysPage.thy ===== *)
theory KeysPage
  imports SpendPage Mock
begin

text \<open>
  \<open>pages/keys.tsx\<close>: the list of gateway keys and the page of one key, with the models it calls and its
  recent refusals, both computed from the live receipts.
\<close>

datatype keys_action = OpenKey string | BackToKeys | OpenKeyReceipt string

section \<open>Spend of a key\<close>

definition key_spend24h :: "fixtures \<Rightarrow> api_key \<Rightarrow> rat" where
  "key_spend24h fx k = or_else (ak_spend24hUsd k) (keySpend24h fx (ak_id k))"

definition Spend24h :: "fixtures \<Rightarrow> api_key \<Rightarrow> 'e ui list" where
  "Spend24h fx k =
     (let spend = key_spend24h fx k; unpriced = or_else (ak_unpriced24h k) 0
      in Money (if unpriced \<noteq> 0 \<and> spend = 0 then None else Some spend) Cents False
         # (if unpriced \<noteq> 0 \<and> spend \<noteq> 0
            then [El ''div'' [(''title'', unpricedNote unpriced ''this total'')] []
              [Txt (''+ '' @ int_fmt unpriced @ '' no price'')]]
            else []))"

section \<open>State\<close>

text \<open>The URL and the list: the seeded keys until the first answer to \<open>/keys\<close> arrives.\<close>

record keys_page =
  kp_params :: params
  kp_list :: "api_key list"

definition keys_path :: "data_mode \<Rightarrow> string option" where
  "keys_path mode = (if mode = Api then Some ''/keys'' else None)"

definition keys_init :: "params \<Rightarrow> api_key list \<Rightarrow> keys_page" where
  "keys_init ps seed = \<lparr>kp_params = ps, kp_list = seed\<rparr>"

definition keys_effect :: "int \<Rightarrow> wire_key list option \<Rightarrow> keys_page \<Rightarrow> keys_page" where
  "keys_effect now live s = (case live of None \<Rightarrow> s | Some ks \<Rightarrow> s\<lparr>kp_list := map (fromWire now) ks\<rparr>)"

definition openKey :: "string option \<Rightarrow> keys_page \<Rightarrow> keys_page" where
  "openKey i s =
     s\<lparr>kp_params := (case i of
         None \<Rightarrow> p_delete (kp_params s) ''key''
       | Some k \<Rightarrow> if k = [] then p_delete (kp_params s) ''key'' else p_set (kp_params s) ''key'' k)\<rparr>"

definition selectedId :: "keys_page \<Rightarrow> string option" where
  "selectedId s = p_get (kp_params s) ''key''"

definition selectedKey :: "keys_page \<Rightarrow> api_key option" where
  "selectedKey s = (case selectedId s of None \<Rightarrow> None | Some i \<Rightarrow> find (\<lambda>k. ak_id k = i) (kp_list s))"

section \<open>The models of a key\<close>

record model_group =
  mo_model :: string
  mo_n :: int
  mo_tokens :: int
  mo_cost :: rat
  mo_unpriced :: int
  mo_ms :: "int list"

definition new_model :: "string \<Rightarrow> model_group" where
  "new_model m = \<lparr>mo_model = m, mo_n = 0, mo_tokens = 0, mo_cost = 0, mo_unpriced = 0, mo_ms = []\<rparr>"

definition receipt_tokens :: "receipt \<Rightarrow> int" where
  "receipt_tokens r = rc_inputTokens r + rc_outputTokens r + rc_reasoningTokens r"

definition add_to_model :: "receipt \<Rightarrow> model_group \<Rightarrow> model_group" where
  "add_to_model r g =
     (let g1 = g\<lparr>mo_n := mo_n g + 1, mo_tokens := mo_tokens g + receipt_tokens r\<rparr>;
          g2 = (case rc_costUsd r of None \<Rightarrow> g1\<lparr>mo_unpriced := mo_unpriced g1 + 1\<rparr>
                | Some c \<Rightarrow> g1\<lparr>mo_cost := mo_cost g1 + c\<rparr>)
      in g2\<lparr>mo_ms := mo_ms g2 @ [rc_durationMs r]\<rparr>)"

definition add_receipt :: "receipt \<Rightarrow> model_group omap \<Rightarrow> model_group omap" where
  "add_receipt r m =
     (if rc_inFlight r then m
      else om_set (rc_resolvedModel r)
        (add_to_model r (or_else (om_get m (rc_resolvedModel r)) (new_model (rc_resolvedModel r)))) m)"

text \<open>The middle of the sorted durations, 0 when there are none.\<close>

definition median_ms :: "int list \<Rightarrow> int" where
  "median_ms ms =
     (let xs = sort_cmp (cmp_asc (\<lambda>x. x)) ms; i = length ms div 2 in if i < length xs then xs ! i else 0)"

definition topModels :: "receipt list \<Rightarrow> (model_group \<times> int) list" where
  "topModels receipts =
     sort_cmp (cmp_desc (\<lambda>g. mo_cost (fst g)))
       (map (\<lambda>g. (g, median_ms (mo_ms g))) (om_values (fold add_receipt receipts [])))"

definition key_receipts :: "api_key \<Rightarrow> receipt list \<Rightarrow> receipt list" where
  "key_receipts k all = filter (\<lambda>r. rc_keyId r = ak_id k) all"

definition key_blocks :: "receipt list \<Rightarrow> receipt list" where
  "key_blocks rs =
     take 8 (filter (\<lambda>r. rc_verdict r = Blocked \<or> rc_verdict r = Truncated \<or> rc_verdict r = Throttled) rs)"

definition recentWindow :: "int \<Rightarrow> receipt list \<Rightarrow> int" where
  "recentWindow now rs = (case last_opt rs of None \<Rightarrow> now | Some r \<Rightarrow> rc_ts r)"

section \<open>The page\<close>

definition team_name :: "team list \<Rightarrow> string \<Rightarrow> string option" where
  "team_name ts i = map_option tm_name (find (\<lambda>t. tm_id t = i) ts)"

definition key_row :: "fixtures \<Rightarrow> team list \<Rightarrow> api_key \<Rightarrow> keys_action ui" where
  "key_row fx ts k =
     El ''TableRow'' [(''key'', ak_id k)] [(''onClick'', OpenKey (ak_id k))]
       [elem ''TableCell''
          [El ''button'' [(''type'', ''button'')] [(''onClick'', OpenKey (ak_id k))] [Txt (ak_name k)],
           tag ''div'' (ak_prefix k @ glyph_ellipsis)],
        elem ''TableCell'' [Txt (or_else (team_name ts (ak_team k)) (ak_team k)), tag ''span'' '' / '',
           tag ''span'' (ak_project k)],
        tag ''TableCell'' (ak_lastUsed k),
        tag ''TableCell'' (int_fmt (ak_requests24h k)),
        elem ''TableCell'' (Spend24h fx k)]"

definition keys_table :: "fixtures \<Rightarrow> team list \<Rightarrow> api_key list \<Rightarrow> keys_action ui" where
  "keys_table fx ts ks =
     elem ''div''
       [PageHeader ''Keys''
          [Txt (''Gateway keys that apps use instead of provider credentials, with each key'' @ [char_apos]
             @ ''s team, project and owner.'')] [] [],
        Section (Some (int_str (int (length ks)) @ '' keys'')) [] [] None
          [El ''Table'' [(''aria-label'', ''Gateway keys'')] []
            [elem ''TableHeader'' [elem ''TableRow'' (map (tag ''TableHead'')
               [''Name'', ''Team / project'', ''Last used'', ''Requests 24h'', ''Spend 24h''])],
             elem ''TableBody'' (map (key_row fx ts) ks)]]]"

definition model_link :: "api_key \<Rightarrow> string \<Rightarrow> string" where
  "model_link k m = ''/traffic?key='' @ ak_name k @ ''&model='' @ m"

definition key_traffic_link :: "api_key \<Rightarrow> string" where
  "key_traffic_link k = ''/traffic?key='' @ ak_name k"

definition model_row :: "api_key \<Rightarrow> model_group \<times> int \<Rightarrow> keys_action ui" where
  "model_row k gp = (case gp of (m, p50) \<Rightarrow>
     El ''TableRow'' [(''key'', mo_model m)] []
       [elem ''TableCell'' [El ''Link'' [(''to'', model_link k (mo_model m))] [] [Txt (mo_model m)]],
        tag ''TableCell'' (int_fmt (mo_n m)),
        elem ''TableCell'' [TokenCount (mo_tokens m) False False],
        elem ''TableCell''
          (Money (if mo_unpriced m \<noteq> 0 \<and> mo_cost m = 0 then None else Some (mo_cost m)) Micro False
           # (if mo_unpriced m \<noteq> 0 \<and> mo_cost m \<noteq> 0
              then [tag ''div'' (''+ '' @ int_fmt (mo_unpriced m) @ '' no price'')] else [])),
        elem ''TableCell'' [Duration (of_int p50) False]])"

definition block_reason :: "receipt \<Rightarrow> string" where
  "block_reason r =
     (if rc_verdict r = Blocked then or_else (rc_errorCode r) []
      else if rc_verdict r = Throttled then ''throttled '' @ glyph_middot @ '' retry later''
      else ''cut short, no token counts'')"

definition block_row :: "(int \<Rightarrow> int) \<Rightarrow> receipt \<Rightarrow> keys_action ui" where
  "block_row tz r =
     El ''li'' [(''key'', rc_id r)] []
       [El ''button'' [(''type'', ''button'')] [(''onClick'', OpenKeyReceipt (rc_id r))]
         [VerdictBadge (rc_verdict r) False, tag ''span'' (clock tz (rc_ts r)), tag ''span'' (rc_requestedModel r),
          tag ''span'' (block_reason r), tag ''span'' (''Open receipt '' @ glyph_right_arrow)]]"

definition key_stats :: "fixtures \<Rightarrow> api_key \<Rightarrow> keys_action ui" where
  "key_stats fx k =
     elem ''dl''
       [elem ''div'' [tag ''dt'' ''Requests, last 24h'',
          elem ''dd'' [tag ''span'' (int_fmt (ak_requests24h k)),
            Sparkline (map of_int (ak_hourly24h k)) ''var(--muted-foreground-strong)''
              (''Hourly requests for '' @ ak_name k @ '', last 24 hours'')]],
        elem ''div'' [tag ''dt'' ''Spend, last 24h'', elem ''dd'' (Spend24h fx k)],
        elem ''div'' [tag ''dt'' ''Last used'', tag ''dd'' (ak_lastUsed k)]]"

definition KeyDetail ::
  "fixtures \<Rightarrow> team list \<Rightarrow> (int \<Rightarrow> int) \<Rightarrow> int \<Rightarrow> receipt list \<Rightarrow> api_key \<Rightarrow> keys_action ui" where
  "KeyDetail fx ts tz now all k =
     (let receipts = key_receipts k all; top = topModels receipts; blocks = key_blocks receipts
      in elem ''div''
       [PageHeader (ak_name k)
          [tag ''span'' (ak_prefix k @ glyph_ellipsis),
           tag ''span'' (or_else (team_name ts (ak_team k)) [] @ '' / '' @ ak_project k),
           tag ''span'' (''Owner '' @ ak_owner k)]
          [El ''Button'' [(''variant'', ''ghost'')] [(''onClick'', BackToKeys)] [icon ''ArrowLeft'', Txt '' All keys'']]
          [key_stats fx k],
        Section (Some ''Top models'')
          [Txt (''From the '' @ int_fmt (int (length receipts)) @ '' receipts on this key since ''
             @ clock tz (recentWindow now receipts) @ ''.'')]
          [El ''Button'' [(''variant'', ''outline''), (''to'', key_traffic_link k)] [] [Txt ''Open in Traffic'']] None
          [if top \<noteq> []
           then El ''Table'' [(''aria-label'', ''Top models for '' @ ak_name k)] []
             [elem ''TableHeader'' [elem ''TableRow'' (map (tag ''TableHead'')
                [''Model'', ''Requests'', ''Tokens'', ''Cost'', ''p50''])],
              elem ''TableBody'' (map (model_row k) top)]
           else EmptyState ''No requests on this key yet.'' []],
        Section (Some ''Recent blocks'')
          [Txt ''Requests the gateway refused, throttled or cut short for this key. Open one to see why.''] [] None
          [if blocks \<noteq> [] then elem ''ul'' (map (block_row tz) blocks)
           else tag ''p'' ''No blocked requests on this key in the current stream window.'']])"

definition KeysPage ::
  "fixtures \<Rightarrow> team list \<Rightarrow> (int \<Rightarrow> int) \<Rightarrow> int \<Rightarrow> receipt list \<Rightarrow> keys_page \<Rightarrow> keys_action ui list" where
  "KeysPage fx ts tz now all s =
     (case selectedId s of
        None \<Rightarrow> [keys_table fx ts (kp_list s)]
      | Some i \<Rightarrow>
          (if i = [] then [keys_table fx ts (kp_list s)]
           else case selectedKey s of
             Some k \<Rightarrow> [KeyDetail fx ts tz now all k]
           | None \<Rightarrow>
               [PageHeader ''Key not found'' [] [] [],
                EmptyState (''No key with id '' @ i @ '' in this tenant.'')
                  [El ''Button'' [(''variant'', ''outline'')] [(''onClick'', BackToKeys)] [Txt ''Back to all keys'']]]))"

definition keys_act :: "keys_action \<Rightarrow> keys_page \<Rightarrow> keys_page" where
  "keys_act x s = (case x of OpenKey i \<Rightarrow> openKey (Some i) s | BackToKeys \<Rightarrow> openKey None s | OpenKeyReceipt i \<Rightarrow> s)"

section \<open>Lemmas\<close>

lemma selectedId_open:
  "i \<noteq> [] \<Longrightarrow> selectedId (openKey (Some i) s) = Some i"
  "selectedId (openKey None s) = None"
  by (simp_all add: selectedId_def openKey_def p_get_set p_get_delete)

definition settled :: "receipt list \<Rightarrow> receipt list" where
  "settled rs = filter (\<lambda>r. \<not> rc_inFlight r) rs"

text \<open>Five readings of the same grouping.\<close>

interpretation mn: grouping rc_resolvedModel "\<lambda>r. new_model (rc_resolvedModel r)" add_to_model mo_model mo_n "\<lambda>r. 1"
  by unfold_locales (auto simp: new_model_def add_to_model_def Let_def split: option.split)

interpretation mt: grouping rc_resolvedModel "\<lambda>r. new_model (rc_resolvedModel r)" add_to_model mo_model mo_tokens receipt_tokens
  by unfold_locales (auto simp: new_model_def add_to_model_def Let_def split: option.split)

interpretation mc: grouping rc_resolvedModel "\<lambda>r. new_model (rc_resolvedModel r)" add_to_model mo_model mo_cost
    "\<lambda>r. or_else (rc_costUsd r) 0"
  by unfold_locales (auto simp: new_model_def add_to_model_def Let_def split: option.split)

interpretation mu: grouping rc_resolvedModel "\<lambda>r. new_model (rc_resolvedModel r)" add_to_model mo_model mo_unpriced
    "\<lambda>r. if rc_costUsd r = None then 1 else 0"
  by unfold_locales (auto simp: new_model_def add_to_model_def Let_def split: option.split)

interpretation mq: grouping rc_resolvedModel "\<lambda>r. new_model (rc_resolvedModel r)" add_to_model mo_model
    "\<lambda>g. int (count_list (mo_ms g) d)" "\<lambda>r. if rc_durationMs r = d then 1 else 0" for d
  by unfold_locales (auto simp: new_model_def add_to_model_def Let_def split: option.split)

lemma fold_add_receipt:
  "fold add_receipt rs m = fold mn.group_step (settled rs) m" "fold add_receipt rs m = fold mt.group_step (settled rs) m"
  "fold add_receipt rs m = fold mc.group_step (settled rs) m" "fold add_receipt rs m = fold mu.group_step (settled rs) m"
  "fold add_receipt rs m = fold mq.group_step (settled rs) m"
  by (induction rs arbitrary: m)
    (simp_all add: settled_def add_receipt_def mn.group_step_def mt.group_step_def mc.group_step_def mu.group_step_def
      mq.group_step_def)

lemma topModels_groups: "image_mset fst (mset (topModels rs)) = mset (om_values (fold add_receipt rs []))"
  by (simp add: topModels_def image_mset.compositionality o_def)

lemma topModels_members: "gp \<in> set (topModels rs) \<Longrightarrow> fst gp \<in> set (om_values (fold add_receipt rs []))"
  by (auto simp: topModels_def)

text \<open>Each row counts the settled receipts of its model, and no other; every settled receipt is in one row.\<close>

definition of_model :: "string \<Rightarrow> receipt list \<Rightarrow> receipt list" where
  "of_model m rs = filter (\<lambda>r. rc_resolvedModel r = m) (settled rs)"

lemma topModels_row:
  assumes "gp \<in> set (topModels rs)"
  shows "mo_n (fst gp) = int (length (of_model (mo_model (fst gp)) rs))"
    and "mo_tokens (fst gp) = sum_list (map receipt_tokens (of_model (mo_model (fst gp)) rs))"
    and "mo_cost (fst gp) = sum_list (map (\<lambda>r. or_else (rc_costUsd r) 0) (of_model (mo_model (fst gp)) rs))"
    and "of_model (mo_model (fst gp)) rs \<noteq> []"
proof -
  note m = topModels_members [OF assms]
  have ones: "sum_list (map (\<lambda>r. 1 :: int) xs) = int (length xs)" for xs :: "receipt list" by (induction xs) simp_all
  show "mo_n (fst gp) = int (length (of_model (mo_model (fst gp)) rs))"
    using mn.group_member [of "fst gp" "settled rs"] m by (simp add: fold_add_receipt(1) of_model_def ones)
  show "mo_tokens (fst gp) = sum_list (map receipt_tokens (of_model (mo_model (fst gp)) rs))"
    using mt.group_member [of "fst gp" "settled rs"] m by (simp add: fold_add_receipt(2) of_model_def)
  show "mo_cost (fst gp) = sum_list (map (\<lambda>r. or_else (rc_costUsd r) 0) (of_model (mo_model (fst gp)) rs))"
    using mc.group_member [of "fst gp" "settled rs"] m by (simp add: fold_add_receipt(3) of_model_def)
  show "of_model (mo_model (fst gp)) rs \<noteq> []"
    using mn.group_member [of "fst gp" "settled rs"] m
    by (auto simp: fold_add_receipt(1) of_model_def filter_empty_conv)
qed

lemma topModels_distinct: "distinct (map (\<lambda>gp. mo_model (fst gp)) (topModels rs))"
proof -
  have "mset (map (\<lambda>gp. mo_model (fst gp)) (topModels rs)) = image_mset mo_model (image_mset fst (mset (topModels rs)))"
    by (simp add: image_mset.compositionality o_def)
  also have "\<dots> = mset (map mo_model (om_values (fold add_receipt rs [])))" by (simp add: topModels_groups)
  finally show ?thesis
    using mn.groups_distinct [of "settled rs"] by (metis fold_add_receipt(1) mset_eq_imp_distinct_iff)
qed

lemma topModels_complete: "rc_resolvedModel ` set (settled rs) = mo_model ` fst ` set (topModels rs)"
  using mn.groups_complete [of "settled rs"] arg_cong [OF topModels_groups [of rs], of set_mset]
  by (simp add: fold_add_receipt(1))

lemma topModels_sorted: "sorted_wrt (\<lambda>a b. mo_cost (fst b) \<le> mo_cost (fst a)) (topModels rs)"
  using desc.sorted_sort_cmp [of "\<lambda>g. mo_cost (fst g)"] by (simp add: topModels_def)

text \<open>The durations of a row are those of its receipts, so its median is theirs.\<close>

lemma topModels_durations:
  assumes "gp \<in> set (topModels rs)"
  shows "mset (mo_ms (fst gp)) = mset (map rc_durationMs (of_model (mo_model (fst gp)) rs))"
proof (rule multiset_eqI)
  fix d
  have "sum_list (map (\<lambda>r. if rc_durationMs r = d then 1 else 0 :: int) xs) = int (count_list (map rc_durationMs xs) d)" for xs
    by (induction xs) simp_all
  then have "int (count_list (mo_ms (fst gp)) d) = int (count_list (map rc_durationMs (of_model (mo_model (fst gp)) rs)) d)"
    using mq.group_member [of "fst gp" "settled rs" d] topModels_members [OF assms]
    by (simp add: fold_add_receipt(5) of_model_def)
  then show "count (mset (mo_ms (fst gp))) d = count (mset (map rc_durationMs (of_model (mo_model (fst gp)) rs))) d"
    by (simp only: count_mset of_nat_eq_iff)
qed

lemma median_ms_sort: "ms \<noteq> [] \<Longrightarrow> median_ms ms = sort ms ! (length ms div 2)"
proof -
  assume "ms \<noteq> []"
  then have "length ms div 2 < length ms" by (cases ms) auto
  moreover have "sort_cmp (cmp_asc (\<lambda>x. x)) ms = sort ms"
    using asc.sorted_sort_cmp [of "\<lambda>x. x" ms] by (intro properties_for_sort [symmetric]) simp_all
  ultimately show ?thesis by (simp add: median_ms_def Let_def)
qed

lemma topModels_p50: "(g, p50) \<in> set (topModels rs) \<Longrightarrow> p50 = median_ms (mo_ms g)"
  by (auto simp: topModels_def)

lemma topModels_rows:
  "list_all (\<lambda>(g, p50). let own = filter (\<lambda>r. \<not> rc_inFlight r \<and> rc_resolvedModel r = mo_model g) rs in
     mo_n g = int (length own) \<and> mo_tokens g = sum_list (map receipt_tokens own) \<and>
     mo_cost g = sum_list (map (\<lambda>r. or_else (rc_costUsd r) 0) own) \<and>
     p50 = sort (map rc_durationMs own) ! (length own div 2)) (topModels rs)"
  unfolding list_all_iff
proof (clarify, unfold Let_def)
  fix g p50
  assume gp: "(g, p50) \<in> set (topModels rs)"
  have own: "filter (\<lambda>r. \<not> rc_inFlight r \<and> rc_resolvedModel r = mo_model g) rs = of_model (mo_model g) rs"
    by (simp add: of_model_def settled_def conj_commute)
  have ms: "mset (mo_ms g) = mset (map rc_durationMs (of_model (mo_model g) rs))" using topModels_durations [OF gp] by simp
  moreover have "of_model (mo_model g) rs \<noteq> []" using topModels_row(4) [OF gp] by simp
  ultimately have "mo_ms g \<noteq> []" by auto
  moreover have "sort (mo_ms g) = sort (map rc_durationMs (of_model (mo_model g) rs))"
    by (rule properties_for_sort) (simp_all add: ms)
  moreover have "length (mo_ms g) = length (of_model (mo_model g) rs)" using arg_cong [OF ms, of size] by simp
  ultimately show "mo_n g = int (length (filter (\<lambda>r. \<not> rc_inFlight r \<and> rc_resolvedModel r = mo_model g) rs)) \<and>
     mo_tokens g = sum_list (map receipt_tokens (filter (\<lambda>r. \<not> rc_inFlight r \<and> rc_resolvedModel r = mo_model g) rs)) \<and>
     mo_cost g = sum_list (map (\<lambda>r. or_else (rc_costUsd r) 0) (filter (\<lambda>r. \<not> rc_inFlight r \<and> rc_resolvedModel r = mo_model g) rs)) \<and>
     p50 = sort (map rc_durationMs (filter (\<lambda>r. \<not> rc_inFlight r \<and> rc_resolvedModel r = mo_model g) rs))
       ! (length (filter (\<lambda>r. \<not> rc_inFlight r \<and> rc_resolvedModel r = mo_model g) rs) div 2)"
    unfolding own using topModels_row(1-3) [OF gp] topModels_p50 [OF gp] by (simp add: median_ms_sort)
qed

text \<open>Without reasoning tokens the count is input and output; reasoning tokens, which output includes, are added again.\<close>

lemma receipt_tokens_sum:
  "sum_list (map receipt_tokens rs) =
     sum_list (map (\<lambda>r. rc_inputTokens r + rc_outputTokens r) rs) + sum_list (map rc_reasoningTokens rs)"
  by (induction rs) (simp_all add: receipt_tokens_def)

lemma receipt_tokens_plain:
  "list_all (\<lambda>r. rc_reasoningTokens r = 0) rs \<Longrightarrow>
     sum_list (map receipt_tokens rs) = sum_list (map (\<lambda>r. rc_inputTokens r + rc_outputTokens r) rs)"
  by (induction rs) (simp_all add: receipt_tokens_def)

lemma topModels_claims:
  "list_all (\<lambda>(g, p50). let own = filter (\<lambda>r. \<not> rc_inFlight r \<and> rc_resolvedModel r = mo_model g) rs in
     mo_n g = int (length own) \<and>
     (list_all (\<lambda>r. rc_reasoningTokens r = 0) own \<longrightarrow> mo_tokens g = sum_list (map (\<lambda>r. rc_inputTokens r + rc_outputTokens r) own)) \<and>
     mo_cost g = sum_list (map (\<lambda>r. or_else (rc_costUsd r) 0) own) \<and>
     p50 = sort (map rc_durationMs own) ! (length own div 2)) (topModels rs)"
  by (rule list.pred_mono_strong [OF topModels_rows [of rs]]) (auto simp: Let_def receipt_tokens_plain)

section \<open>The Keys page and the Spend page\<close>

lemma om_get_add_amounts:
  "distinct (map fst vs) \<Longrightarrow> or_else (om_get (add_amounts f vs m) t) 0 = or_else (om_get m t) 0 + num_of vs t * f"
proof (induction vs arbitrary: m)
  case (Cons p vs)
  obtain a v where p: "p = (a, v)" by (cases p)
  have "map_of vs a = None" using Cons.prems p by (simp add: map_of_eq_None_iff)
  then have "num_of vs a = 0" by (simp add: num_of_def)
  then show ?case
    using Cons.IH [of "om_set a (or_else (om_get m a) 0 + v * f) m"] Cons.prems p
    by (auto simp: add_amounts_def num_of_def algebra_simps split: option.splits)
qed (simp add: add_amounts_def num_of_def)

lemma teamSpendOver_day:
  assumes "series \<noteq> []" and "distinct (map fst (sp_byTeam (last series)))"
  shows "or_else (om_get (teamSpendOver series 1 0) t) 0 = num_of (sp_byTeam (last series)) t"
proof -
  obtain ps where ps: "rev series = last series # ps" using assms(1) by (metis rev_rev_ident rev_is_Nil_conv last_rev list.exhaust list.sel(1) hd_rev)
  have "teamSpendOver series 1 0 = add_amounts 1 (sp_byTeam (last series)) []"
    by (cases ps) (simp_all add: teamSpendOver_def slice_to_def ps)
  then show ?thesis using om_get_add_amounts [OF assms(2), of 1 "[]" t] by simp
qed

lemma cells_keys: "c \<in> set (cells fx) \<Longrightarrow> \<exists>k \<in> set (fx_keys fx). ce_key c = ak_name k \<and> ce_keyId c = ak_id k"
  by (auto simp: cells_def team_cells_def key_cells_def Let_def)

text \<open>What a key's row of the 24-hour breakdown shows is what the Keys page shows for the key.\<close>

lemma key_row_spend:
  assumes series: "fx_spendSeries fx \<noteq> []" "distinct (map fst (sp_byTeam (last (fx_spendSeries fx))))"
    and names: "inj_on ak_name (set (fx_keys fx))" "inj_on ak_id (set (fx_keys fx))"
    and k: "k \<in> set (fx_keys fx)" and row: "row \<in> set (breakdown fx DKey ''24h'')" "bk_id row = ak_name k"
  shows "bk_spend row = keySpend24h fx (ak_id k)"
proof -
  have d: "num_of windowDays ''24h'' = 1" by (simp add: num_of_def windowDays_def)
  have same: "filter (\<lambda>c. group_id DKey c = ak_name k) (cells fx) = filter (\<lambda>c. ce_keyId c = ak_id k) (cells fx)"
  proof (intro filter_cong refl)
    fix c assume "c \<in> set (cells fx)"
    then obtain k' where "k' \<in> set (fx_keys fx)" "ce_key c = ak_name k'" "ce_keyId c = ak_id k'"
      using cells_keys by blast
    then show "(group_id DKey c = ak_name k) = (ce_keyId c = ak_id k)"
      using names k by (auto simp: group_id_def cell_dim_def dest: inj_onD)
  qed
  have amount: "cell_amount (teamSpendOver (fx_spendSeries fx) 1 0) =
      (\<lambda>c. num_of (sp_byTeam (last (fx_spendSeries fx))) (ce_team c) * ce_share c)"
    by (intro ext) (simp add: cell_amount_def teamSpendOver_day [OF series])
  show ?thesis
    using breakdown_over_row [of row fx DKey] row
    by (auto simp: breakdown_def Let_def d same keySpend24h_def amount)
qed

lemma key_rows_of_keys:
  assumes "row \<in> set (breakdown fx DKey ''24h'')"
  shows "\<exists>k \<in> set (fx_keys fx). bk_id row = ak_name k"
proof -
  have "bk_id row \<in> group_id DKey ` set (cells fx)"
    using assms breakdown_over_ids by (simp add: breakdown_def Let_def) blast
  then show ?thesis using cells_keys by (fastforce simp: group_id_def cell_dim_def)
qed

text \<open>A key of a team, with weights for its models, has a cell and so a row.\<close>

lemma weighted_has_cell:
  assumes "k \<in> set (fx_keys fx)" and "t \<in> set (fx_teams fx)" and "ak_team k = tm_id t" and "weighted fx t k"
  shows "ak_name k \<in> bk_id ` set (breakdown fx DKey rng)"
proof -
  let ?ws = "list_of modelWeight (tm_id t)"
  have "filter (\<lambda>m. num_of ?ws m \<noteq> 0) (list_of (fx_keyModels fx) (ak_id k)) \<noteq> []"
    using assms(4) by (auto simp: weighted_def)
  then have "\<exists>c \<in> set (key_cells fx t tot k). ce_key c = ak_name k" for tot
    by (cases "filter (\<lambda>m. num_of ?ws m \<noteq> 0) (list_of (fx_keyModels fx) (ak_id k))") (simp_all add: key_cells_def Let_def)
  then have "\<exists>c \<in> set (cells fx). ce_key c = ak_name k"
    using assms(1-3) by (fastforce simp: cells_def team_cells_def Let_def)
  then show ?thesis by (force simp: breakdown_def Let_def breakdown_over_ids group_id_def cell_dim_def)
qed

text \<open>The demo tenant: its keys have distinct names, and every day has each team once.\<close>

lemma mock_spend_day:
  "yields (spend_point_at now tz r i) (\<lambda>p. distinct (map fst (sp_byTeam p)))"
  by (simp add: yields_def spend_point_at_def Let_def split: prod.split)

lemma mock_series_days:
  "yields (mock_series ks now tz sin_turns r) (\<lambda>x. snd (snd x) \<noteq> [] \<and> (\<forall>p \<in> set (snd (snd x)). distinct (map fst (sp_byTeam p))))"
proof -
  have l: "list_all2 (\<lambda>i p. distinct (map fst (sp_byTeam p))) [0..<30] ps \<Longrightarrow>
      ps \<noteq> [] \<and> (\<forall>p \<in> set ps. distinct (map fst (sp_byTeam p)))" for ps
    by (auto simp: list_all2_conv_all_nth in_set_conv_nth)
  have s: "yields (spendSeries now tz r) (\<lambda>ps. ps \<noteq> [] \<and> (\<forall>p \<in> set ps. distinct (map fst (sp_byTeam p))))"
    unfolding spendSeries_def
    by (rule yields_mono [OF yields_traverse [where P = "\<lambda>i p. distinct (map fst (sp_byTeam p))"] l])
      (rule mock_spend_day)
  have t: "yields m (\<lambda>x. True)" for m :: "('a, 'b) state" by (simp add: yields_def)
  show ?thesis
    unfolding mock_series_def
    by (rule yields_bind [OF t], rule yields_bind [OF t], rule yields_bind [OF s], rule yields_return) simp
qed

lemma mock_key_rows:
  assumes "row \<in> set (breakdown (mock_fixtures hour now tz sin_turns) DKey ''24h'')"
  shows "\<exists>k \<in> set (mock_keys hour sin_turns). bk_id row = ak_name k \<and>
    bk_spend row = keySpend24h (mock_fixtures hour now tz sin_turns) (ak_id k)"
proof -
  let ?fx = "mock_fixtures hour now tz sin_turns"
  have "fx_spendSeries ?fx \<noteq> [] \<and> (\<forall>p \<in> set (fx_spendSeries ?fx). distinct (map fst (sp_byTeam p)))"
    using mock_series_days [of "mock_keys hour sin_turns" now tz sin_turns mulberry32]
    by (simp add: yields_def mock_fixtures_def Let_def)
  then have ser: "fx_spendSeries ?fx \<noteq> []" "distinct (map fst (sp_byTeam (last (fx_spendSeries ?fx))))" by auto
  have inj: "inj_on f (set xs)" if "distinct (map f xs)" for f :: "api_key \<Rightarrow> string" and xs
    using that by (simp add: distinct_map)
  have "distinct (map ak_name (mock_keys hour sin_turns))" "distinct (map ak_id (mock_keys hour sin_turns))"
    by (simp_all add: mock_keys_def seedKeys_def mk_key_def mock_key_def)
  then have names: "inj_on ak_name (set (fx_keys ?fx))" "inj_on ak_id (set (fx_keys ?fx))"
    by (simp_all add: mock_fixtures_fields inj)
  obtain k where k: "k \<in> set (fx_keys ?fx)" "bk_id row = ak_name k" using key_rows_of_keys [OF assms] by blast
  show ?thesis using key_row_spend [OF ser names k(1) assms k(2)] k by (auto simp: mock_fixtures_fields)
qed

lemma mock_key_names: "distinct (map ak_name (mock_keys hour sin_turns))"
  by (simp add: mock_keys_def seedKeys_def mk_key_def mock_key_def)

lemma mock_key_teams: "list_all (\<lambda>k. sk_team k \<in> tm_id ` set mock_teams) seedKeys"
  by (simp add: seedKeys_def mock_teams_def mk_team_def)

lemma mock_key_has_row:
  assumes "k \<in> set (mock_keys hour sin_turns)"
  shows "ak_name k \<in> bk_id ` set (breakdown (mock_fixtures hour now tz sin_turns) DKey rng)"
proof -
  obtain t where "t \<in> set mock_teams" "ak_team k = tm_id t"
    using mock_key_teams assms by (auto simp: mock_keys_def mock_key_fields list_all_iff)
  with mock_weighted [OF assms] assms show ?thesis
    by (intro weighted_has_cell [of k _ t]) (simp_all add: mock_fixtures_fields)
qed

text \<open>Together: the two pages list the same keys with the same amounts.\<close>

lemma mock_key_table:
  "mset (map (\<lambda>row. (bk_id row, bk_spend row)) (breakdown (mock_fixtures hour now tz sin_turns) DKey ''24h'')) =
   mset (map (\<lambda>k. (ak_name k, keySpend24h (mock_fixtures hour now tz sin_turns) (ak_id k))) (mock_keys hour sin_turns))"
  (is "mset (map ?r ?rows) = mset (map ?a ?ks)")
proof -
  have "distinct (map (fst \<circ> ?r) ?rows)"
    using breakdown_over_distinct by (simp add: breakdown_def Let_def o_def)
  then have d1: "distinct (map ?r ?rows)" by (auto simp: distinct_map dest: inj_on_imageI2)
  have "distinct (map (fst \<circ> ?a) ?ks)" using mock_key_names by (simp add: o_def)
  then have d2: "distinct (map ?a ?ks)" by (auto simp: distinct_map dest: inj_on_imageI2)
  have "set (map ?r ?rows) = set (map ?a ?ks)"
  proof
    show "set (map ?r ?rows) \<subseteq> set (map ?a ?ks)" using mock_key_rows by force
    show "set (map ?a ?ks) \<subseteq> set (map ?r ?rows)"
    proof clarsimp
      fix k assume k: "k \<in> set ?ks"
      then obtain row where row: "row \<in> set ?rows" "bk_id row = ak_name k"
        using mock_key_has_row [OF k, of now tz "''24h''"] by force
      from mock_key_rows [OF row(1)] row(2) k mock_key_names [of hour sin_turns]
      have "bk_spend row = keySpend24h (mock_fixtures hour now tz sin_turns) (ak_id k)"
        by (auto simp: distinct_map dest: inj_onD)
      with row show "(ak_name k, keySpend24h (mock_fixtures hour now tz sin_turns) (ak_id k)) \<in> ?r ` set ?rows" by force
    qed
  qed
  with d1 d2 show ?thesis by (simp only: set_eq_iff_mset_eq_distinct)
qed

section \<open>The links into Traffic\<close>

lemma plain_words: "list_all form_kept ''key'' \<and> list_all form_kept ''model''"
  by (simp add: form_kept_def is_alnum_def)

text \<open>A name of unreserved characters is read back from the link, as the query the link stands for.\<close>

lemma model_link_plain:
  assumes "list_all form_kept (ak_name k)" and "list_all form_kept m"
  shows "model_link k m = ''/traffic?'' @ p_string [(''key'', ak_name k), (''model'', m)]"
    and "key_traffic_link k = ''/traffic?'' @ p_string [(''key'', ak_name k)]"
  using assms plain_words by (simp_all add: model_link_def key_traffic_link_def p_string_def form_encode_plain)

text \<open>An ampersand in the name of a key splits it: the link filters by another key.\<close>

lemma key_link_splits:
  "p_parse ''key=R&D'' = [(''key'', ''R''), (''D'', [])]"
  by code_simp

end
