(* ===== verification/Overview.thy ===== *)
theory Overview
  imports SpendPage
begin

text \<open>
  \<open>pages/overview.tsx\<close>: the status strip, the traffic charts on two scales, and the two numbers with
  their change against the span before.
\<close>

section \<open>Data\<close>

definition volumeSeries :: "chart_series list" where
  "volumeSeries = [\<lparr>se_key = ''total'', se_label = ''Requests'', se_color = ''var(--muted-foreground-strong)''\<rparr>]"

definition verdictSeries :: "chart_series list" where
  "verdictSeries =
     [\<lparr>se_key = ''throttled'', se_label = ''Throttled'',
       se_color = ''color-mix(in oklch, '' @ toneFill ToneDegraded @ '' 50%, var(--canvas))''\<rparr>,
      \<lparr>se_key = ''truncated'', se_label = ''Truncated'', se_color = toneFill ToneDegraded\<rparr>,
      \<lparr>se_key = ''blocked'', se_label = ''Blocked'', se_color = toneFill ToneBlocked\<rparr>]"

text \<open>The paths of the two polled reads.\<close>

definition overview_paths :: "data_mode \<Rightarrow> string \<Rightarrow> string option \<times> string option" where
  "overview_paths mode rng =
     (if mode = Api then (Some (''/series/traffic?range='' @ rng), Some (''/summary?range='' @ rng)) else (None, None))"

definition change_pct :: "rat \<Rightarrow> rat \<Rightarrow> rat option" where
  "change_pct now before = (if before > 0 then Some ((now - before) / before * 100) else None)"

definition bucket_minutes :: "series_point list \<Rightarrow> int" where
  "bucket_minutes series = (case series of
     a # b # ps \<Rightarrow> math_round (of_int (sr_t b - sr_t a) / 60000) | _ \<Rightarrow> 30)"

definition perBucket :: "series_point list \<Rightarrow> string" where
  "perBucket series =
     (let mins = bucket_minutes series in
      if mins mod 1440 = 0 then (if mins = 1440 then ''per day'' else ''per '' @ int_str (mins div 1440) @ '' days'')
      else if mins mod 60 = 0 then (if mins = 60 then ''per hour'' else ''per '' @ int_str (mins div 60) @ '' hours'')
      else ''per '' @ int_str mins @ '' minutes'')"

definition volume_values :: "series_point \<Rightarrow> chart_values" where
  "volume_values p = [(''total'', of_int (sr_allowed p + sr_truncated p + sr_blocked p + sr_throttled p))]"

definition verdict_values :: "series_point \<Rightarrow> chart_values" where
  "verdict_values p =
     [(''throttled'', of_int (sr_throttled p)), (''truncated'', of_int (sr_truncated p)), (''blocked'', of_int (sr_blocked p))]"

definition multi_day :: "series_point list \<Rightarrow> bool" where
  "multi_day series \<longleftrightarrow> length series > 1 \<and> sr_t (last series) - sr_t (hd series) > 86400000"

text \<open>\<open>date_text\<close> is the viewer's \<open>toLocaleDateString\<close>.\<close>

definition x_format :: "(int \<Rightarrow> string) \<Rightarrow> (int \<Rightarrow> int) \<Rightarrow> series_point list \<Rightarrow> int \<Rightarrow> string" where
  "x_format date_text tz series t = (if multi_day series then date_text t else take 5 (clock tz t))"

section \<open>The strip and the numbers\<close>

text \<open>\<open>receipts.reduce((m, r) => Math.max(m, r.ts), 0)\<close>.\<close>

definition last_ts :: "receipt list \<Rightarrow> int" where
  "last_ts receipts = foldl (\<lambda>m r. max m (rc_ts r)) 0 receipts"

definition is_quiet :: "int \<Rightarrow> receipt list \<Rightarrow> bool" where
  "is_quiet now receipts \<longleftrightarrow> last_ts receipts = 0 \<or> now - last_ts receipts > 5 * 60000"

definition strip_text :: "data_mode \<Rightarrow> int \<Rightarrow> receipt list \<Rightarrow> string" where
  "strip_text mode now receipts =
     (let l = last_ts receipts in
      if mode = Api then (if l \<noteq> 0 then ''last receipt '' @ ago (min l now) now else ''no receipts yet'')
      else ''nominal'')"

definition StatusStrip :: "data_mode \<Rightarrow> int \<Rightarrow> receipt list \<Rightarrow> 'e ui" where
  "StatusStrip mode now receipts =
     El ''div'' [(''aria-label'', ''System status'')] []
       [elem ''span''
         [El ''span'' [(''tone'', if is_quiet now receipts then ''bg-v-degraded-bar'' else ''bg-v-allowed-bar''),
                       (''aria-hidden'', ''true'')] [] [],
          Txt ''Gateway '', tag ''span'' (strip_text mode now receipts)]]"

definition BigNumber :: "string \<Rightarrow> string \<Rightarrow> string \<Rightarrow> 'e ui list \<Rightarrow> string \<Rightarrow> 'e ui" where
  "BigNumber to label value delta note =
     El ''Link'' [(''to'', to)] []
       [tag ''span'' label, tag ''span'' value, elem ''span'' (delta @ [Txt '' '', Txt note])]"

text \<open>\<open>s.replace('last ', '')\<close>: the first occurrence.\<close>

fun replace_first :: "string \<Rightarrow> string \<Rightarrow> string \<Rightarrow> string" where
  "replace_first pat new [] = (if pat = [] then new else [])"
| "replace_first pat new (c # cs) =
     (if starts_with pat (c # cs) then new @ drop (length pat) (c # cs) else c # replace_first pat new cs)"

definition overview_span :: "string \<Rightarrow> string" where
  "overview_span rng = replace_first ''last '' [] (rangeLabel rng)"

definition none_note :: "string \<Rightarrow> rat \<Rightarrow> string" where
  "none_note rng before =
     (if before > 0 then ''vs previous '' @ overview_span rng else ''nothing in the previous '' @ overview_span rng)"

definition change_view :: "rat \<Rightarrow> rat \<Rightarrow> good_when \<Rightarrow> 'e ui list" where
  "change_view now before goodWhen =
     (case change_pct now before of None \<Rightarrow> [] | Some p \<Rightarrow> [Delta p goodWhen])"

definition spend_note :: "string \<Rightarrow> summary \<Rightarrow> string" where
  "spend_note rng sm =
     (let u = or_else (wt_unpriced (sm_current sm)) 0; before = wt_spendUsd (sm_previous sm) in
      if u \<noteq> 0 then unpricedNote u ''this total''
      else case sm_topTeamIncrease sm of
          Some (team, d) \<Rightarrow> (if before > 0 then team @ '' is driving the increase'' else none_note rng before)
        | None \<Rightarrow> none_note rng before)"

section \<open>The page\<close>

definition overview_chart ::
  "string \<Rightarrow> chart_series list \<Rightarrow> (series_point \<Rightarrow> chart_values) \<Rightarrow> (int \<Rightarrow> string) \<Rightarrow> series_point list \<Rightarrow> 'e ui" where
  "overview_chart caption series vals xf points =
     El ''StackedArea'' [(''caption'', caption), (''syncId'', ''overview-traffic'')] []
       (map (\<lambda>p. elem ''point'' (Txt (xf (sr_t p)) # map (\<lambda>s. Txt (to_fixed 0 (value_at (vals p) (se_key s)))) series)) points)"

record overview_env =
  oe_mode :: data_mode
  oe_session :: session
  oe_date_text :: "int \<Rightarrow> string"
  oe_tz :: "int \<Rightarrow> int"
  oe_now :: int

definition OverviewPage ::
  "overview_env \<Rightarrow> string \<Rightarrow> series_point list \<Rightarrow> summary \<Rightarrow> receipt list \<Rightarrow> 'e ui" where
  "OverviewPage e rng series sm receipts =
     (let xf = x_format (oe_date_text e) (oe_tz e) series; cur = sm_current sm; prev = sm_previous sm
      in elem ''div''
       [PageHeader ''Overview''
          [Txt (ss_tenantName (oe_session e) @ '' / '' @ ss_environment (oe_session e) @ '', '' @ rangeLabel rng
             @ ''. Every number here drills to the receipts that compose it.'')] [] [],
        StatusStrip (oe_mode e) (oe_now e) receipts,
        Section (Some ''Traffic'')
          [Txt (''Requests '' @ perBucket series @ '', and the ones not simply allowed, on their own scale.'')]
          [El ''Button'' [(''variant'', ''ghost''), (''to'', ''/traffic'')] [] [Txt ''Open traffic '', icon ''ArrowRight'']] None
          [overview_chart (''All requests '' @ perBucket series) volumeSeries volume_values xf series,
           tag ''h3'' ''Not allowed'',
           overview_chart (''Throttled, truncated and blocked requests '' @ perBucket series) verdictSeries
             verdict_values xf series],
        elem ''div''
          [BigNumber ''/traffic'' ''Requests'' (int_fmt (wt_requests cur))
             (change_view (of_int (wt_requests cur)) (of_int (wt_requests prev)) Up)
             (none_note rng (of_int (wt_requests prev))),
           BigNumber ''/spend'' ''Spend'' (money (wt_spendUsd cur) 2)
             (change_view (wt_spendUsd cur) (wt_spendUsd prev) Down) (spend_note rng sm)]])"

section \<open>Lemmas\<close>

text \<open>What the first panel draws is what the second draws, and the requests that were simply allowed.\<close>

lemma panels_agree:
  "series_total volumeSeries (volume_values p) = of_int (sr_allowed p) + series_total verdictSeries (verdict_values p)"
  by (simp add: series_total_def volumeSeries_def verdictSeries_def volume_values_def verdict_values_def value_at_def)

lemma last_ts_fold: "foldl (\<lambda>m r. max m (rc_ts r)) a rs = fold (\<lambda>r m. max m (rc_ts r)) rs a"
  by (induction rs arbitrary: a) simp_all

lemma last_ts_ge: "a \<le> foldl (\<lambda>m r. max m (rc_ts r)) a rs"
proof (induction rs arbitrary: a)
  case (Cons r rs)
  have "max a (rc_ts r) \<le> foldl (\<lambda>m r. max m (rc_ts r)) (max a (rc_ts r)) rs" by (rule Cons)
  then show ?case by simp
qed simp

lemma last_ts_member: "r \<in> set rs \<Longrightarrow> rc_ts r \<le> foldl (\<lambda>m r. max m (rc_ts r)) a rs"
proof (induction rs arbitrary: a)
  case (Cons x rs)
  show ?case
  proof (cases "r = x")
    case True
    then show ?thesis using last_ts_ge [of "max a (rc_ts x)" rs] by simp
  qed (use Cons in simp)
qed simp

lemma last_ts_is: "foldl (\<lambda>m r. max m (rc_ts r)) a rs \<in> insert a (rc_ts ` set rs)"
proof (induction rs arbitrary: a)
  case (Cons x rs)
  show ?case using Cons [of "max a (rc_ts x)"] by (auto simp: max_def split: if_splits)
qed simp

text \<open>The gateway counts as quiet exactly when no receipt of the last five minutes is among the live rows.\<close>

lemma is_quiet_iff:
  assumes "300000 < now" and "\<forall>r \<in> set rs. 0 < rc_ts r"
  shows "is_quiet now rs \<longleftrightarrow> (\<forall>r \<in> set rs. rc_ts r < now - 300000)"
proof -
  have "last_ts rs = 0 \<or> last_ts rs \<in> rc_ts ` set rs" using last_ts_is [of 0 rs] by (auto simp: last_ts_def)
  moreover have "\<forall>r \<in> set rs. rc_ts r \<le> last_ts rs" using last_ts_member [of _ rs 0] by (auto simp: last_ts_def)
  ultimately show ?thesis using assms by (auto simp: is_quiet_def)
qed

text \<open>The change is undefined exactly when there is nothing before, and otherwise gives the number back.\<close>

lemma change_pct_back: "change_pct now before = Some p \<Longrightarrow> before * (1 + p / 100) = now"
  by (auto simp: change_pct_def field_simps split: if_splits)

end
