(* ===== verification/Theme.thy ===== *)
theory Theme
  imports Browser
begin

text \<open>
  \<open>hooks/use-theme-preference.ts\<close> (the same hook in both front ends), the script it generates for the
  page head, and the two hand-placed copies of that script in the two index.html files.  The media
  query is None where \<open>matchMedia\<close> throws.
\<close>

section \<open>The stored preference\<close>

definition THEME_MODES :: "string list" where
  "THEME_MODES = [''light'', ''dark'', ''system'']"

definition isThemeMode :: "string \<Rightarrow> bool" where
  "isThemeMode v \<longleftrightarrow> v \<in> set THEME_MODES"

definition DEFAULT_THEME_STORAGE_KEY :: string where
  "DEFAULT_THEME_STORAGE_KEY = ''nebari:themeMode''"

definition THEME_STORAGE_KEY :: string where
  "THEME_STORAGE_KEY = ''nebari-llm:themeMode''"

record theme_store =
  ts_storage :: storage
  ts_inMemory :: "string \<rightharpoonup> string"

definition readStoredMode :: "string \<Rightarrow> theme_store \<Rightarrow> string" where
  "readStoredMode k s =
     (case get_item (ts_storage s) k of
        Inr (Some v) \<Rightarrow> (if isThemeMode v then v else ''system'')
      | Inr None \<Rightarrow> ''system''
      | Inl e \<Rightarrow> (case ts_inMemory s k of Some m \<Rightarrow> m | None \<Rightarrow> ''system''))"

definition writeStoredMode :: "string \<Rightarrow> string \<Rightarrow> theme_store \<Rightarrow> theme_store" where
  "writeStoredMode k mode s =
     (case set_item (ts_storage s) k mode of
        Inr st \<Rightarrow> s\<lparr>ts_storage := st, ts_inMemory := (ts_inMemory s)(k := None)\<rparr>
      | Inl e \<Rightarrow> s\<lparr>ts_inMemory := (ts_inMemory s)(k \<mapsto> mode)\<rparr>)"

definition prefersDark :: "bool option \<Rightarrow> bool" where
  "prefersDark media = (case media of None \<Rightarrow> False | Some b \<Rightarrow> b)"

record theme =
  tm_themeMode :: string
  tm_isDarkMode :: bool

definition useThemePreference :: "string option \<Rightarrow> bool option \<Rightarrow> theme_store \<Rightarrow> theme" where
  "useThemePreference key media s =
     (let k = (case key of None \<Rightarrow> DEFAULT_THEME_STORAGE_KEY | Some k \<Rightarrow> k);
          m = readStoredMode k s
      in \<lparr>tm_themeMode = m,
          tm_isDarkMode = (if m = ''system'' then prefersDark media else m = ''dark'')\<rparr>)"

text \<open>The context of \<open>theme-provider.tsx\<close>: without a provider above it the hook throws.\<close>

definition useTheme :: "theme option \<Rightarrow> string + theme" where
  "useTheme context =
     (case context of None \<Rightarrow> Inl ''useTheme must be used within a <ThemeProvider>.'' | Some t \<Rightarrow> Inr t)"

section \<open>The scripts before the first paint\<close>

text \<open>What \<open>themeBootstrapScript(key)\<close> computes: each browser call is guarded on its own.\<close>

definition themeBootstrap :: "string \<Rightarrow> bool option \<Rightarrow> storage \<Rightarrow> bool" where
  "themeBootstrap k media st =
     (let mode = (case get_item st k of Inr v \<Rightarrow> v | Inl e \<Rightarrow> None);
          dark = prefersDark media
      in mode = Some ''dark'' \<or> (mode \<noteq> Some ''light'' \<and> dark))"

text \<open>
  The script in the usage console's index.html: one guard around everything, and the preference is
  only followed for an absent, empty or \<open>system\<close> mode.  Without a \<open>matchMedia\<close> call the expression
  does not throw.
\<close>

definition consoleBootstrap :: "bool option \<Rightarrow> storage \<Rightarrow> bool" where
  "consoleBootstrap media st =
     (case get_item st ''nebari:themeMode'' of
        Inl e \<Rightarrow> False
      | Inr m \<Rightarrow>
          (if m = Some ''dark'' then True
           else if m = None \<or> m = Some [] \<or> m = Some ''system''
           then (case media of None \<Rightarrow> False | Some b \<Rightarrow> b)
           else False))"

section \<open>Lemmas\<close>

lemma readStoredMode_eq:
  "ts_inMemory s k = None \<Longrightarrow> readStoredMode k s = ls.read_or isThemeMode ''system'' (ts_storage s) k"
  by (simp add: readStoredMode_def ls.read_or_def split: sum.split option.split)

lemma system_mode [simp]: "isThemeMode ''system''"
  by (simp add: isThemeMode_def THEME_MODES_def)

lemma readStoredMode_valid:
  "(\<forall>m. ts_inMemory s k = Some m \<longrightarrow> isThemeMode m) \<Longrightarrow> isThemeMode (readStoredMode k s)"
  by (auto simp: readStoredMode_def split: sum.split option.split)

text \<open>A written mode is read back when storage works, and when it does not work at all.\<close>

lemma read_write:
  "isThemeMode m \<Longrightarrow> st_write_ok (ts_storage s) \<or> \<not> st_read_ok (ts_storage s) \<Longrightarrow>
     st_read_ok (ts_storage s) \<or> \<not> st_write_ok (ts_storage s) \<Longrightarrow>
     readStoredMode k (writeStoredMode k m s) = m"
  by (auto simp: readStoredMode_def writeStoredMode_def get_item_def set_item_def)

text \<open>Where only writing throws (a full or read-only storage) the choice is lost.\<close>

lemma read_write_readonly:
  "st_read_ok (ts_storage s) \<Longrightarrow> \<not> st_write_ok (ts_storage s) \<Longrightarrow>
     readStoredMode k (writeStoredMode k m s) = readStoredMode k s"
  by (simp add: readStoredMode_def writeStoredMode_def get_item_def set_item_def)

lemma write_other:
  "k' \<noteq> k \<Longrightarrow> readStoredMode k' (writeStoredMode k m s) = readStoredMode k' s"
  by (auto simp: readStoredMode_def writeStoredMode_def get_item_def set_item_def)

lemma bootstrap_matches_hook:
  "ts_inMemory s k = None \<Longrightarrow>
     themeBootstrap k media (ts_storage s) = tm_isDarkMode (useThemePreference (Some k) media s)"
  by (auto simp: themeBootstrap_def useThemePreference_def readStoredMode_def isThemeMode_def
      THEME_MODES_def Let_def split: sum.split option.split)

text \<open>The console's copy agrees exactly where storage can be read and holds a known mode or none.\<close>

lemma console_bootstrap_agrees:
  "consoleBootstrap media st = themeBootstrap DEFAULT_THEME_STORAGE_KEY media st \<longleftrightarrow>
     \<not> prefersDark media \<or>
     (\<exists>v. get_item st DEFAULT_THEME_STORAGE_KEY = Inr v \<and>
        (v = None \<or> v = Some [] \<or> (\<exists>m. v = Some m \<and> isThemeMode m)))"
proof (cases "get_item st DEFAULT_THEME_STORAGE_KEY")
  case (Inl e)
  then show ?thesis
    by (simp add: consoleBootstrap_def themeBootstrap_def DEFAULT_THEME_STORAGE_KEY_def)
next
  case (Inr v)
  have m: "(case media of None \<Rightarrow> False | Some b \<Rightarrow> b) = prefersDark media" by (simp add: prefersDark_def)
  show ?thesis
  proof (cases v)
    case None
    with Inr m show ?thesis
      by (simp add: consoleBootstrap_def themeBootstrap_def DEFAULT_THEME_STORAGE_KEY_def)
  next
    case (Some w)
    have "isThemeMode w \<longleftrightarrow> w = ''light'' \<or> w = ''dark'' \<or> w = ''system''"
      by (simp add: isThemeMode_def THEME_MODES_def)
    with Inr Some m show ?thesis
      by (cases "w = ''dark''"; cases "w = ''light''"; cases "prefersDark media")
        (simp_all add: consoleBootstrap_def themeBootstrap_def DEFAULT_THEME_STORAGE_KEY_def)
  qed
qed

end
