(* ===== verification/Shell.thy ===== *)
theory Shell
  imports Palette Panels Toasts ReceiptDrawer KeysPage Overview TrafficPage Theme
begin

text \<open>
  The usage console's frame: \<open>components/shell\<close> (sidebar navigation, header, layout, logo), the routes of
  \<open>App.tsx\<close> and the start in \<open>main.tsx\<close>.  Route patterns are matched on exact paths; the router's own leniency
  about case and trailing slashes is not modelled.
\<close>

datatype shell_action =
    ToggleSidebar | OpenPalette | SetEnv string | SetRange string | SetTheme string | SignOut

section \<open>Sidebar navigation\<close>

record nav_item =
  nv_to :: string
  nv_label :: string
  nv_icon :: string

definition nav :: "string \<Rightarrow> string \<Rightarrow> string \<Rightarrow> nav_item" where
  "nav to label i = \<lparr>nv_to = to, nv_label = label, nv_icon = i\<rparr>"

definition nav_groups :: "(string \<times> nav_item list) list" where
  "nav_groups =
     [(''Monitor'', [nav ''/'' ''Overview'' ''Gauge'', nav ''/traffic'' ''Traffic'' ''ArrowLeftRight'']),
      (''Govern'', [nav ''/spend'' ''Spend'' ''CircleDollarSign'', nav ''/keys'' ''Keys'' ''KeyRound''])]"

definition console_versions :: "data_mode \<Rightarrow> string \<Rightarrow> session \<Rightarrow> string" where
  "console_versions mode build ses =
     (if mode \<noteq> Api then ''console v0.1''
      else ''console '' @ build @ '' '' @ glyph_middot @ '' control plane '' @ ss_controlPlane ses)"

definition nav_active :: "string \<Rightarrow> string \<Rightarrow> bool" where
  "nav_active pathname to = (if to = ''/'' then pathname = ''/'' else starts_with to pathname)"

definition nav_entry :: "sidebar \<Rightarrow> string \<Rightarrow> nav_item \<Rightarrow> 'e ui" where
  "nav_entry sb pathname n =
     SidebarMenuItem [(''key'', nv_to n)]
       [SidebarMenuButton sb \<lparr>mb_active = nav_active pathname (nv_to n), mb_size = None, mb_variant = None,
           mb_tooltip = Some (nv_label n)\<rparr> [(''to'', nv_to n)]
         [El (nv_icon n) [(''aria-hidden'', ''true'')] [] [], SidebarMenuLabel [] [Txt (nv_label n)]]]"

definition AppSidebar :: "data_mode \<Rightarrow> string \<Rightarrow> session \<Rightarrow> sidebar \<Rightarrow> string \<Rightarrow> 'e ui" where
  "AppSidebar mode build ses sb pathname =
     SidebarNav sb None [(''aria-label'', ''Primary'')]
       [SidebarContent [] [elem ''div'' (map (\<lambda>(l, items).
          SidebarGroup [(''key'', l), (''role'', ''group''), (''aria-labelledby'', ''nav-'' @ l)]
            [SidebarGroupLabel [(''id'', ''nav-'' @ l)] [Txt l], SidebarMenu [] (map (nav_entry sb pathname) items)])
          nav_groups)],
        SidebarFooter [] [elem ''div''
          [tag ''span'' (if mode = Api
             then ss_tenantName ses @ '' '' @ glyph_middot @ '' '' @ ss_environment ses
             else ''Demo tenant '' @ glyph_middot @ '' synthetic traffic''),
           tag ''span'' (console_versions mode build ses)]]]"

section \<open>Header\<close>

text \<open>\<open>split(/[\s._-]+/).filter(Boolean)\<close>; \<open>email.split('@')[0]\<close>.\<close>

definition name_sep :: "char \<Rightarrow> bool" where
  "name_sep c \<longleftrightarrow> is_space c \<or> c \<in> set ''._-''"

definition before_at :: "string \<Rightarrow> string" where
  "before_at s = takeWhile (\<lambda>c. c \<noteq> CHR ''@'') s"

definition initials :: "actor \<Rightarrow> string" where
  "initials a =
     (let ws = filter (\<lambda>w. w \<noteq> []) (split_chars name_sep (or_else (ac_name a) (before_at (ac_email a))))
      in concat (map (\<lambda>w. to_upper (take 1 w)) (take 2 ws)))"

record env_display =
  ed_label :: string
  ed_production :: bool

definition envDisplay :: "data_mode \<Rightarrow> string \<Rightarrow> string \<Rightarrow> env_display" where
  "envDisplay mode served mockEnv =
     (let n = (if mode = Api then served else mockEnv)
      in \<lparr>ed_label = to_upper (take 1 n) @ drop 1 n, ed_production = (n = ''production'')\<rparr>)"

definition devMode :: "data_mode \<Rightarrow> session \<Rightarrow> bool" where
  "devMode mode ses \<longleftrightarrow> mode = Api \<and> ss_authMode ses = AuthDev"

definition canSignOut :: "data_mode \<Rightarrow> session \<Rightarrow> bool" where
  "canSignOut mode ses \<longleftrightarrow> mode = Api \<and> \<not> devMode mode ses \<and> signOut_target ses \<noteq> None"

definition env_tag :: "bool \<Rightarrow> string" where
  "env_tag production = (if production then ''env-production'' else ''env-staging'')"

definition env_name :: "session \<Rightarrow> env_display \<Rightarrow> shell_action ui list" where
  "env_name ses d = [tag ''span'' (ss_tenantName ses), tag ''span'' ''/'',
     El ''span'' [(''tone'', env_tag (ed_production d))] [] [Txt (ed_label d)]]"

definition env_control :: "data_mode \<Rightarrow> session \<Rightarrow> string \<Rightarrow> shell_action ui" where
  "env_control mode ses env =
     (let d = envDisplay mode (ss_environment ses) env in
      if mode = Api
      then El ''span'' [(''aria-label'', ''Tenant '' @ ss_tenantName ses @ '', environment '' @ ss_environment ses)] []
             (env_name ses d)
      else elem ''DropdownMenu''
        [El ''DropdownMenuTrigger'' [(''aria-label'', ''Environment: '' @ env @ ''. Change environment'')] []
           (env_name ses d @ [icon ''ChevronDown'']),
         elem ''DropdownMenuContent''
           (tag ''DropdownMenuGroupLabel'' (''Tenant '' @ ss_tenantName ses @ '' '' @ glyph_middot @ '' environment'')
            # map (\<lambda>e. El ''DropdownMenuItem'' [(''key'', e)] [(''onClick'', SetEnv e)]
                (tag ''span'' (if e = ''production'' then ''Production'' else ''Staging'')
                 # only_if (env = e) (icon ''Check''))) [''production'', ''staging''])])"

definition range_control :: "string \<Rightarrow> shell_action ui" where
  "range_control rng =
     elem ''DropdownMenu''
       [El ''DropdownMenuTrigger'' [(''aria-label'', ''Time range'')] []
          [icon ''Clock'', tag ''span'' (or_else (map_of timeRanges rng) []), icon ''ChevronDown''],
        elem ''DropdownMenuContent''
          (tag ''DropdownMenuGroupLabel'' ''Shared by Overview, Traffic and Spend''
           # map (\<lambda>t. El ''DropdownMenuItem'' [(''key'', fst t)] [(''onClick'', SetRange (fst t))]
               (Txt (snd t) # only_if (rng = fst t) (icon ''Check''))) timeRanges)]"

definition roles_text :: "actor \<Rightarrow> string" where
  "roles_text a =
     (if ac_roles a \<noteq> []
      then ''Role'' @ (if length (ac_roles a) > 1 then ''s'' else []) @ '': '' @ join_str '', '' (ac_roles a)
      else ''No role'')"

definition display_name :: "actor \<Rightarrow> string" where
  "display_name a = or_else (ac_name a) (ac_email a)"

text \<open>The label of a role list, \<open>roles.join(', ') || 'no role'\<close>.\<close>

definition dev_note :: "actor \<Rightarrow> string" where
  "dev_note a =
     ''Dev mode '' @ glyph_middot @ '' no sign-in ('' @ ac_email a @ '' is ''
       @ (let j = join_str '', '' (ac_roles a) in if j = [] then ''no role'' else j) @ '')''"

definition account_control :: "data_mode \<Rightarrow> session \<Rightarrow> string \<Rightarrow> shell_action ui" where
  "account_control mode ses themeMode =
     (let a = ss_actor ses; dev = devMode mode ses in
      elem ''DropdownMenu''
       [El ''DropdownMenuTrigger'' [(''aria-label'', ''Account menu'')] []
          [elem ''Avatar'' [tag ''AvatarFallback'' (initials a)], tag ''span'' (display_name a), icon ''ChevronDown''],
        elem ''DropdownMenuContent''
          [elem ''div''
             (tag ''p'' (display_name a)
              # (case set_string (ac_name a) of None \<Rightarrow> [] | Some n \<Rightarrow> [tag ''p'' (ac_email a)])
              @ [tag ''p'' (roles_text a)] @ only_if dev (tag ''p'' (dev_note a))),
           El ''RadioGroup'' [(''aria-label'', ''Theme''), (''value'', themeMode)] []
             (map (\<lambda>(v, l). El ''RadioItem'' [(''value'', v), (''aria-label'', l @ '' mode'')] [(''onSelect'', SetTheme v)]
                [Txt l]) [(''light'', ''Light''), (''dark'', ''Dark''), (''system'', ''System'')]),
           icon ''DropdownMenuSeparator'',
           El ''DropdownMenuItem''
             ((''disabled'', bool_str dev)
              # (if dev then [(''title'', ''Dev mode: no identity provider is configured, so there'' @ glyph_rsquo
                   @ ''s nothing to sign out of'')] else []))
             [(''onClick'', SignOut)] [El ''LogOut'' [(''aria-hidden'', ''true'')] [] [], Txt ''Sign out'']]])"

definition AppHeader :: "data_mode \<Rightarrow> session \<Rightarrow> sidebar \<Rightarrow> string \<Rightarrow> string \<Rightarrow> string \<Rightarrow> shell_action ui" where
  "AppHeader mode ses sb env rng themeMode =
     elem ''div''
       [El ''div'' [(''tone'', env_tag (ed_production (envDisplay mode (ss_environment ses) env))), (''aria-hidden'', ''true'')] [] [],
        elem ''NavigationMenu''
          [elem ''div''
             [SidebarTrigger sb ToggleSidebar [],
              El ''MenuBarBrand'' [(''href'', ''/''), (''aria-label'', ''Nebari Gateway: go to overview'')] []
                [icon ''NebariLogo'', El ''span'' [(''aria-hidden'', ''true'')] [] [], tag ''span'' ''Gateway''],
              env_control mode ses env],
           elem ''MenuBarActions''
             [El ''Button'' [(''variant'', ''outline'')] [(''onClick'', OpenPalette)]
                [elem ''span'' [icon ''Search'', Txt ''Jump to key, model, trace ID''], Kbd (glyph_cmd @ ''K'')],
              range_control rng, account_control mode ses themeMode]]]"

text \<open>What a click does to the application state, the theme store and the page's address.\<close>

record shell =
  sh_app :: app
  sh_sidebar :: sidebar
  sh_theme :: theme_store
  sh_location :: "string option"

definition shell_act :: "data_mode \<Rightarrow> session \<Rightarrow> shell_action \<Rightarrow> shell \<Rightarrow> shell" where
  "shell_act mode ses x s = (case x of
     ToggleSidebar \<Rightarrow> s\<lparr>sh_sidebar := trigger_click False (sh_sidebar s)\<rparr>
   | OpenPalette \<Rightarrow> s\<lparr>sh_app := (sh_app s)\<lparr>ap_paletteOpen := True\<rparr>\<rparr>
   | SetEnv e \<Rightarrow> s\<lparr>sh_app := setEnv e (sh_app s)\<rparr>
   | SetRange r \<Rightarrow> s\<lparr>sh_app := setRange r (sh_app s)\<rparr>
   | SetTheme v \<Rightarrow> (if isThemeMode v
       then s\<lparr>sh_theme := writeStoredMode DEFAULT_THEME_STORAGE_KEY v (sh_theme s)\<rparr> else s)
   | SignOut \<Rightarrow> (if canSignOut mode ses then s\<lparr>sh_location := signOut_target ses\<rparr> else s))"

section \<open>Logo\<close>

record logo_asset =
  la_src :: string
  la_vw :: rat
  la_vh :: rat
  la_x :: rat
  la_y :: rat
  la_w :: rat
  la_h :: rat

definition logo_assets :: "bool \<Rightarrow> logo_asset" where
  "logo_assets dark =
     (if dark
      then \<lparr>la_src = ''lockupWhite'', la_vw = 61045/100, la_vh = 15343/100, la_x = 0, la_y = 0, la_w = 61045/100, la_h = 15343/100\<rparr>
      else \<lparr>la_src = ''lockup'', la_vw = 11892/10, la_vh = 6429/10, la_x = 269, la_y = 241, la_w = 610, la_h = 154\<rparr>)"

record logo_box =
  lb_width :: rat
  lb_height :: rat
  lb_imgWidth :: rat
  lb_imgHeight :: rat
  lb_left :: rat
  lb_top :: rat

definition NebariLogo :: "bool \<Rightarrow> rat \<Rightarrow> logo_box" where
  "NebariLogo dark height =
     (let a = logo_assets dark; scale = height / la_h a
      in \<lparr>lb_width = la_w a * scale, lb_height = height, lb_imgWidth = la_vw a * scale,
          lb_imgHeight = la_vh a * scale, lb_left = - la_x a * scale, lb_top = - la_y a * scale\<rparr>)"

section \<open>Routes and layout\<close>

datatype page_name = PageOverview | PageTraffic | PageSpend | PageKeys

datatype route = Show page_name | RedirectTo string

definition console_routes :: "(string \<times> page_name) list" where
  "console_routes = [(''/'', PageOverview), (''/traffic'', PageTraffic), (''/spend'', PageSpend), (''/keys'', PageKeys)]"

definition route_of :: "string \<Rightarrow> route" where
  "route_of pathname = (case map_of console_routes pathname of Some p \<Rightarrow> Show p | None \<Rightarrow> RedirectTo ''/'')"

definition AppLayout :: "string \<Rightarrow> 'e ui \<Rightarrow> 'e ui \<Rightarrow> 'e ui list \<Rightarrow> 'e ui list \<Rightarrow> 'e ui" where
  "AppLayout density header side outlet overlays =
     elem ''SidebarProvider''
       (El ''div'' [(''data-density'', density)] []
          [header, elem ''div'' [side, El ''main'' [(''id'', ''main'')] [] outlet]]
        # overlays)"

section \<open>The start\<close>

text \<open>
  The application is imported only once the catalog is loaded; \<open>load\<close> is the import, which can fail too.  The page
  says what failed.
\<close>

datatype started = StartedApp catalog | StartFailed string

definition console_main :: "data_mode \<Rightarrow> control_plane \<Rightarrow> int \<Rightarrow> (string + unit) \<Rightarrow> catalog \<Rightarrow> started" where
  "console_main mode cp loadedAt load c =
     (case hydrate mode cp loadedAt c of
        (c', Inl e) \<Rightarrow> StartFailed e
      | (c', Inr u) \<Rightarrow> (case load of Inl e \<Rightarrow> StartFailed e | Inr v \<Rightarrow> StartedApp c'))"

definition start_error_page :: "data_mode \<Rightarrow> string \<Rightarrow> 'e ui" where
  "start_error_page mode message =
     elem ''main''
       [tag ''h1'' (''Can'' @ [char_apos] @ ''t reach the control plane''),
        elem ''p'' [Txt ''The console is in '', tag ''code'' (case mode of Api \<Rightarrow> ''api'' | Mock \<Rightarrow> ''mock''),
          Txt ('' mode and couldn'' @ [char_apos] @ ''t load ''), tag ''code'' ''/api/v1/demo'', Txt ('': '' @ message)],
        elem ''p'' [Txt ''Start '', tag ''code'' ''openmeter-api'', Txt '' ('', tag ''code'' ''server/cmd/openmeter-api'',
          Txt ''), or run '', tag ''code'' ''npm run dev'', Txt '' for mock data.'']]"

section \<open>Lemmas\<close>

text \<open>A key's links into Traffic, as Traffic reads them.\<close>

lemma model_link_filters:
  assumes "list_all form_kept (ak_name k)" and "list_all form_kept m"
  shows "page_filters (p_parse (drop (length ''/traffic?'') (model_link k m))) =
      map (\<lambda>d. (d, if d = DimKey then [ak_name k] else if d = DimModel then [m] else [])) dims_order"
  unfolding model_link_plain(1) [OF assms]
  by (simp add: p_parse_string page_filters_def dims_order_def p_get_all_def dim_str_def)

lemma key_link_split:
  "p_get_all (p_parse (drop (length ''/traffic?'') (key_traffic_link (k\<lparr>ak_name := ''R&D''\<rparr>)))) ''key'' = [''R'']"
  using key_link_splits by (simp add: key_traffic_link_def p_get_all_def)

text \<open>Exactly one entry of the sidebar is active on each page, and it is the one that leads there.\<close>

definition nav_items :: "nav_item list" where
  "nav_items = concat (map snd nav_groups)"

lemma nav_items_eq: "map nv_to nav_items = map fst console_routes"
  by (simp add: nav_items_def nav_groups_def nav_def console_routes_def)

lemma nav_active_one:
  "p \<in> fst ` set console_routes \<Longrightarrow> filter (nav_active p) (map nv_to nav_items) = [p]"
  unfolding nav_items_eq by (auto simp: console_routes_def nav_active_def)

lemma nav_active_route: "n \<in> set nav_items \<Longrightarrow> \<exists>p. route_of (nv_to n) = Show p"
  by (auto simp: nav_items_def nav_groups_def nav_def route_of_def console_routes_def)

lemma initials_length: "length (initials a) \<le> 2"
proof -
  have "length (concat (map (\<lambda>w. to_upper (take 1 w)) ws)) \<le> length ws" for ws :: "string list"
    by (induction ws) (auto simp: to_upper_def)
  from this [of "take 2 ws" for ws] show ?thesis
    by (simp add: initials_def Let_def)
qed

text \<open>The header marks production exactly when that is the environment in use, in both modes.\<close>

lemma env_marked: "ed_production (envDisplay mode (ss_environment ses) (app_env mode ses a)) \<longleftrightarrow> app_env mode ses a = ''production''"
  by (cases mode) (auto simp: envDisplay_def app_env_def Let_def)

lemma signOut_dev: "ss_authMode ses = AuthDev \<Longrightarrow> shell_act mode ses SignOut s = s"
  by (cases mode) (auto simp: shell_act_def canSignOut_def devMode_def)

lemma signOut_leaves:
  "sh_location (shell_act mode ses SignOut s) \<noteq> sh_location s \<Longrightarrow>
     mode = Api \<and> ss_authMode ses = AuthOidc \<and> (\<exists>u. u \<noteq> [] \<and> ss_signOutUrl ses = Some u \<and>
       sh_location (shell_act mode ses SignOut s) = Some u)"
  by (cases "ss_authMode ses")
    (auto simp: shell_act_def canSignOut_def devMode_def signOut_target_def split: option.splits if_splits)

text \<open>The crop shows exactly the artwork: the image is shifted so that it fills the box.\<close>

lemma logo_crop:
  assumes "0 < height"
  shows "let b = NebariLogo dark height; a = logo_assets dark; k = height / la_h a in
    lb_left b + la_x a * k = 0 \<and> lb_top b + la_y a * k = 0 \<and> la_h a * k = lb_height b \<and> la_w a * k = lb_width b \<and>
    - lb_left b + lb_width b \<le> lb_imgWidth b \<and> - lb_top b + lb_height b \<le> lb_imgHeight b"
  using assms by (simp add: NebariLogo_def logo_assets_def Let_def field_simps)

text \<open>The application starts only on a loaded catalog.\<close>

lemma console_main_started:
  "console_main Api cp t load c = StartedApp c' \<Longrightarrow>
     load = Inr () \<and> cp_teams cp = Inr (ct_teams c') \<and> cp_receipts cp = Inr (ct_seedReceipts c') \<and> ct_now c' = t"
  using hydrate_loaded [of cp t c c'] by (auto simp: console_main_def split: prod.splits sum.splits)

end
