(* ===== verification/Drill.thy ===== *)
theory Drill
  imports TrafficPage
begin

text \<open>
  The drill-through from Spend to Traffic: a daily bar's link carries the bar's date as MM-DD, and the Traffic
  page's window reads it back.  Holds the lemmas that span \<open>pages/spend.tsx\<close>, \<open>pages/spend-data.ts\<close> and
  \<open>pages/traffic.tsx\<close>.
\<close>

section \<open>Lemmas: a Spend bar opens its own day\<close>

lemma two_digits_chars:
  assumes "0 \<le> n" "n < 100"
  shows "two_digits n = [digit_char (nat n div 10), digit_char (nat n mod 10)]"
proof -
  have b: "nat n < 100" using assms by simp
  show ?thesis
  proof (cases "nat n < 10")
    case True
    then show ?thesis by (simp add: two_digits_def nat_str.simps pad_left_def) (simp add: digit_char_def char_of_def bit_Suc bit_0)
  next
    case False
    with b have "nat n div 10 < 10" by simp
    with False show ?thesis
      by (simp add: two_digits_def pad_left_def nat_str.simps [of "nat n"] nat_str.simps [of "nat n div 10"])
  qed
qed

lemma num_val_two_digits: "0 \<le> n \<Longrightarrow> num_val (two_digits n) = nat n"
  by (simp add: two_digits_def)

lemma digit_not_dash: "d < 10 \<Longrightarrow> digit_char d \<noteq> CHR ''-''"
proof
  assume d: "d < 10" and e: "digit_char d = CHR ''-''"
  have "is_digit_char (CHR ''-'')" using is_digit_digit_char [OF d] by (simp only: e)
  then show False by (simp add: is_digit_char_def)
qed

lemma day_parts_digits:
  assumes "0 \<le> m" "m < 100" "0 \<le> d" "d < 100"
  shows "day_parts (two_digits m @ ''-'' @ two_digits d) = (m, d)" "is_day (two_digits m @ ''-'' @ two_digits d)"
proof -
  have n: "int (num_val (two_digits m)) = m" "int (num_val (two_digits d)) = d"
    using assms by (simp_all add: num_val_two_digits)
  have dg: "nat m div 10 < 10" "nat m mod 10 < 10" "nat d div 10 < 10" "nat d mod 10 < 10" using assms by auto
  note c = two_digits_chars [OF assms(1,2)] two_digits_chars [OF assms(3,4)]
  show "day_parts (two_digits m @ ''-'' @ two_digits d) = (m, d)"
    using n digit_not_dash [OF dg(1)] digit_not_dash [OF dg(2)] digit_not_dash [OF dg(3)] digit_not_dash [OF dg(4)]
    unfolding c by (simp add: day_parts_def)
  show "is_day (two_digits m @ ''-'' @ two_digits d)"
    unfolding c is_day_def using dg by simp
qed

text \<open>The date fields of a UTC midnight give it back.\<close>

lemma utc_day_fields:
  "1 \<le> utc_day_of_month t \<and> utc_day_of_month t \<le> 31 \<and>
   date_utc (utc_full_year t) (utc_month t) (utc_day_of_month t) = t div DAY_MS * DAY_MS"
proof -
  let ?day = "t div DAY_MS"
  let ?y = "year_of_day ?day"
  let ?d = "?day - day_from_year ?y"
  let ?m = "month_up (leap ?y) ?d 11"
  have y: "day_from_year ?y \<le> ?day" "?day < day_from_year (?y + 1)" using year_of_day_range by simp_all
  have d: "0 \<le> ?d" "?d < days_before (leap ?y) (int 11 + 1)"
    using y leap_step [of ?y] by (auto simp: days_before_year split: if_splits)
  note r = month_up_range [OF d]
  have m: "utc_month t = int ?m" "utc_full_year t = ?y" by (simp_all add: utc_month_def utc_full_year_def Let_def)
  have dm: "utc_day_of_month t = ?d - days_before (leap ?y) (int ?m) + 1"
    by (simp add: utc_day_of_month_def m Let_def)
  have "days_before lp (k + 1) \<le> days_before lp k + 31" if "0 \<le> k" "k \<le> 11" for lp k
    using that by (auto simp: days_before_def Let_def)
  then have "days_before (leap ?y) (int ?m + 1) \<le> days_before (leap ?y) (int ?m) + 31" using r by simp
  with r dm show ?thesis by (simp add: date_utc_def m Let_def)
qed

lemma days_before_leap: "days_before False m \<le> days_before lp m \<and> days_before lp m \<le> days_before False m + (if lp then 1 else 0)"
  by (cases lp) (auto simp: days_before_def Let_def)

text \<open>The same date a year later is at least 365 days later.\<close>

lemma date_utc_next_year:
  assumes "0 \<le> m" "m \<le> 11"
  shows "date_utc y m d + 365 * DAY_MS \<le> date_utc (y + 1) m d"
proof -
  have mm: "m div 12 = 0" "m mod 12 = m" using assms by auto
  have "day_from_year y + days_before (leap y) m + 365 \<le> day_from_year (y + 1) + days_before (leap (y + 1)) m"
    using days_before_leap [of m "leap y"] days_before_leap [of m "leap (y + 1)"] leap_step [of y]
    by (auto split: if_splits)
  then show ?thesis by (simp add: date_utc_def mm Let_def DAY_MS_def)
qed

text \<open>A bar of the last year opens exactly its day, whatever the year it is in.\<close>

lemma day_from_year_mono: "a \<le> b \<Longrightarrow> day_from_year a \<le> day_from_year b"
proof (induction b rule: int_ge_induct)
  case (step b)
  then show ?case using day_from_year_mono1 [of b] by linarith
qed simp

text \<open>A day of the last 365 lies in this year or in the one before.\<close>

lemma recent_year:
  assumes "t \<le> now" "now - t < 365 * DAY_MS"
  shows "utc_full_year t = utc_full_year now \<or> utc_full_year now = utc_full_year t + 1"
proof -
  let ?y = "utc_full_year t" and ?n = "utc_full_year now"
  have ty: "day_from_year ?y * DAY_MS \<le> t" "t < day_from_year (?y + 1) * DAY_MS" using utc_full_year_range [of t] by simp_all
  have ny: "day_from_year ?n * DAY_MS \<le> now" "now < day_from_year (?n + 1) * DAY_MS" using utc_full_year_range [of now] by simp_all
  have pos: "0 < DAY_MS" by (simp add: DAY_MS_def)
  have "?y \<le> ?n"
  proof (rule ccontr)
    assume "\<not> ?y \<le> ?n"
    then have "day_from_year (?n + 1) * DAY_MS \<le> day_from_year ?y * DAY_MS" using day_from_year_mono [of "?n + 1" ?y] pos by simp
    with ty ny assms(1) show False by linarith
  qed
  moreover have "?n \<le> ?y + 1"
  proof (rule ccontr)
    assume "\<not> ?n \<le> ?y + 1"
    then have "day_from_year (?y + 1 + 1) \<le> day_from_year ?n" using day_from_year_mono [of "?y + 1 + 1" ?n] by simp
    then have "(day_from_year (?y + 1) + 365) * DAY_MS \<le> day_from_year ?n * DAY_MS"
      using year_days [of "?y + 1"] pos by (intro mult_right_mono) auto
    then have "day_from_year (?y + 1) * DAY_MS + 365 * DAY_MS \<le> now" using ny(1) by (simp add: distrib_right)
    with ty assms(2) show False by linarith
  qed
  ultimately show ?thesis by linarith
qed

lemma dayStart_iso_month_day:
  assumes t: "DAY_MS dvd t" "t \<le> now" "now - t < 365 * DAY_MS"
  shows "dayStart now (iso_month_day t) = t" "is_day (iso_month_day t)"
proof -
  let ?m = "utc_month t" and ?d = "utc_day_of_month t" and ?y = "utc_full_year t" and ?n = "utc_full_year now"
  have m: "0 \<le> ?m" "?m \<le> 11" using utc_month_range [of t] by simp_all
  have d: "1 \<le> ?d" "?d \<le> 31" and eq: "date_utc ?y ?m ?d = t" using utc_day_fields [of t] t(1) by simp_all
  have p: "day_parts (iso_month_day t) = (?m + 1, ?d)"
    unfolding iso_month_day_def using m d by (intro day_parts_digits) auto
  show "is_day (iso_month_day t)"
    unfolding iso_month_day_def using m d by (intro day_parts_digits) auto
  show "dayStart now (iso_month_day t) = t"
    using recent_year [OF t(2,3)]
  proof
    assume "?y = ?n"
    then show ?thesis using eq t(2) by (simp add: dayStart_def p)
  next
    assume n: "?n = ?y + 1"
    have "t + 365 * DAY_MS \<le> date_utc ?n ?m ?d" using date_utc_next_year [OF m, of ?y ?d] by (simp add: n eq)
    with t(3) have "date_utc ?n ?m ?d > now" by linarith
    then show ?thesis using eq by (simp add: dayStart_def p n)
  qed
qed

text \<open>The list's day window is Spend's day.\<close>

lemma useWindow_day:
  "is_day dd \<Longrightarrow> tw_before (useWindow now rng since (Some dd) til) = Some (dayStart now dd + 86400000)
    \<and> dayStart now dd \<le> tw_since (useWindow now rng since (Some dd) til)"
  by (auto simp: useWindow_def dayStart_def Let_def split: prod.split)

lemma useWindow_bar:
  assumes "DAY_MS dvd t" "t \<le> now" "now - t < 365 * DAY_MS"
  shows "tw_before (useWindow now rng since (Some (iso_month_day t)) til) = Some (t + 86400000)"
    "t \<le> tw_since (useWindow now rng since (Some (iso_month_day t)) til)"
  using useWindow_day [OF dayStart_iso_month_day(2) [OF assms], of now rng since til] dayStart_iso_month_day(1) [OF assms]
  by simp_all

text \<open>The link of a daily bar is read back as its date, which is all that it says.\<close>

lemma bar_link:
  assumes "trend_daily tr" and "p \<in> set (tr_points tr)"
  shows "bar_href tz tr (trend_label tz tr (tp_t p)) = Some (''/traffic?day='' @ iso_month_day (tp_t p))"
proof -
  have "om_get (trend_by_label tz tr) (trend_label tz tr (tp_t p)) \<noteq> None"
    unfolding trend_by_label_def by (rule om_of_has) (use assms(2) in force)
  with assms(1) show ?thesis by (auto simp: bar_href_def trend_label_def)
qed

lemma day_param:
  "p_parse (drop (length ''/traffic?'') (''/traffic?day='' @ iso_month_day t)) = [(''day'', iso_month_day t)]"
proof -
  have digit: "form_kept (digit_char d)" if "d < 10" for d
    using is_digit_digit_char [OF that] by (simp add: form_kept_def is_alnum_def is_digit_char_def Let_def)
  have two: "list_all form_kept (two_digits n)" if "0 \<le> n" "n < 100" for n
    unfolding two_digits_chars [OF that] using that by (auto intro!: digit)
  have "1 \<le> utc_day_of_month t" "utc_day_of_month t \<le> 31" using utc_day_fields by simp_all
  then have plain: "list_all form_kept (iso_month_day t)"
    unfolding iso_month_day_def using utc_month_range [of t] two by (auto simp: form_kept_def)
  have "list_all form_kept ''day''" by (simp add: form_kept_def is_alnum_def)
  with plain have "p_string [(''day'', iso_month_day t)] = ''day='' @ iso_month_day t"
    by (simp add: p_string_def form_encode_plain)
  then have "drop (length ''/traffic?'') (''/traffic?day='' @ iso_month_day t) = p_string [(''day'', iso_month_day t)]" by simp
  then show ?thesis by (simp only: p_parse_string)
qed

text \<open>
  The window of that link: the day, as far as the page's range reaches back.  The link does not carry the range, so a bar
  before it opens a window in which nothing can lie.
\<close>

definition range_start :: "int \<Rightarrow> int \<Rightarrow> int" where
  "range_start now rangeMillis = (now - min rangeMillis HOT_WINDOW_MS) div BUCKET_MS * BUCKET_MS"

lemma bar_window:
  assumes "DAY_MS dvd t" "t \<le> now" "now - t < 365 * DAY_MS"
  shows "page_window now rng [(''day'', iso_month_day t)] = \<lparr>tw_since = max (range_start now rng) t, tw_before = Some (t + 86400000)\<rparr>"
  using dayStart_iso_month_day [OF assms]
  by (auto simp: page_window_def useWindow_def dayStart_def range_start_def num_param_def p_get_def truthy_num_def Let_def
      split: prod.splits if_splits)

lemma bar_rows:
  assumes "DAY_MS dvd t" "t \<le> now" "now - t < 365 * DAY_MS"
  shows "in_window (page_window now rng [(''day'', iso_month_day t)]) r \<longleftrightarrow>
    t \<le> rc_ts r \<and> rc_ts r < t + 86400000 \<and> range_start now rng \<le> rc_ts r"
  unfolding bar_window [OF assms] by (auto simp: in_window_def)

section \<open>Lemmas: what a freeze does not hold\<close>

text \<open>A live receipt that is not newer than the freeze is still put on top of the frozen list.\<close>

lemma frozen_late_receipt:
  "rc_ts r \<le> t \<Longrightarrow> visible_rows (Some t) (r # rows) = r # visible_rows (Some t) rows"
  by (simp add: visible_rows_def)

end
