(* ===== verification/ConsoleLinks.thy ===== *)
theory ConsoleLinks
  imports Shell Drill
begin

text \<open>
  Where the console can send its reader: the links that its views render (the \<open>to\<close> of a Link or of a Button that is
  rendered as one), the navigations of the command palette, and what a click on a bar or a row of the Spend page goes
  to, against the routes of \<open>App.tsx\<close>.  A path without a route is redirected to the Overview page, so a link that
  misses its route does not fail, it only lands somewhere else.
\<close>

section \<open>The links of a view\<close>

fun ui_links :: "'e ui \<Rightarrow> string list" where
  "ui_links (Txt s) = []"
| "ui_links (El n a h cs) = (case map_of a ''to'' of None \<Rightarrow> [] | Some l \<Rightarrow> [l]) @ concat (map ui_links cs)"

definition link_path :: "string \<Rightarrow> string" where
  "link_path l = takeWhile (\<lambda>c. c \<noteq> CHR ''?'' \<and> c \<noteq> CHR ''#'') l"

definition leads_to :: "page_name \<Rightarrow> string \<Rightarrow> bool" where
  "leads_to p l \<longleftrightarrow> route_of (link_path l) = Show p"

definition all_links :: "page_name set \<Rightarrow> 'e ui \<Rightarrow> bool" where
  "all_links P u \<longleftrightarrow> (\<forall>l \<in> set (ui_links u). \<exists>p \<in> P. leads_to p l)"

section \<open>Lemmas\<close>

lemma ui_links_helpers [simp]:
  "ui_links (icon n) = []" "ui_links (elem n cs) = concat (map ui_links cs)" "ui_links (tag n s) = []"
  by (simp_all add: icon_def elem_def tag_def)

lemma ui_links_only_if [simp]: "concat (map ui_links (only_if b u)) = (if b then ui_links u else [])"
  by (simp add: only_if_def)

lemma leads_to_routes:
  "leads_to PageOverview ''/''" "leads_to PageTraffic ''/traffic''" "leads_to PageSpend ''/spend''" "leads_to PageKeys ''/keys''"
  "leads_to PageTraffic (''/traffic?'' @ q)" "leads_to PageKeys (''/keys?'' @ q)"
  by (simp_all add: leads_to_def link_path_def route_of_def console_routes_def)

text \<open>The parts that render no link, and those that only pass their children on.\<close>

lemma plain_links [simp]:
  "ui_links (Money v p u) = []" "ui_links (TokenCount n u e) = []" "ui_links (Duration ms u) = []"
  "ui_links (Delta d g) = []" "ui_links (VerdictBadge vd s) = []"
  by (simp_all add: Money_def TokenCount_def Duration_def Delta_def VerdictBadge_def unknown_view_def Let_def split: option.split)

lemma plain_links' [simp]: "ui_links (Sparkline vs c l) = []"
  by (simp add: Sparkline_def)

lemma opt_attr_to [simp]: "k \<noteq> ''to'' \<Longrightarrow> map_of (opt_attr k v) ''to'' = None"
  by (cases v) simp_all

lemma scaffold_links [simp]:
  "ui_links (PageHeader t d a c) = concat (map ui_links (d @ a @ c))"
  "ui_links (EmptyState t c) = concat (map ui_links c)"
  "ui_links (Sub t c) = concat (map ui_links c)"
  "concat (map ui_links (KV t c)) = concat (map ui_links c)"
  by (simp_all add: PageHeader_def EmptyState_def Sub_def KV_def only_if_def)

lemma Section_links [simp]:
  "ui_links (Section ti d a i c) = concat (map ui_links ((if ti = None \<and> a = [] then [] else d @ a) @ c))"
proof -
  have attrs: "(map_of (opt_attr ''aria-labelledby'' h) ++ map_of (opt_attr ''id'' i)) ''to'' = None" for h
    by (simp add: map_add_def)
  have title: "concat (map ui_links (case ti of None \<Rightarrow> [] | Some t \<Rightarrow> [El ''h2'' (opt_attr ''id'' h) [] [Txt t]])) = []" for h
    by (cases ti) simp_all
  show ?thesis
    by (cases "ti = None \<and> a = []") (auto simp: Section_def Let_def attrs title only_if_def)
qed

lemma spend24h_links [simp]: "concat (map ui_links (Spend24h fx k)) = []"
  by (simp add: Spend24h_def Let_def)

text \<open>The Keys page links into Traffic only.\<close>

lemma key_detail_links:
  "set (ui_links (KeyDetail fx ts tz now all k)) \<subseteq>
     insert (key_traffic_link k) (range (model_link k))"
  by (auto simp: KeyDetail_def Let_def key_stats_def model_row_def block_row_def)

lemma keys_page_links: "u \<in> set (KeysPage fx ts tz now all s) \<Longrightarrow> all_links {PageTraffic} u"
proof -
  have table: "ui_links (keys_table fx ts ks) = []" for ks
    by (simp add: keys_table_def key_row_def)
  have detail: "all_links {PageTraffic} (KeyDetail fx ts tz now all k)" for k
    using key_detail_links [of fx ts tz now all k] leads_to_routes(5)
    by (fastforce simp: all_links_def key_traffic_link_def model_link_def)
  show "u \<in> set (KeysPage fx ts tz now all s) \<Longrightarrow> ?thesis"
    using table detail by (auto simp: KeysPage_def all_links_def split: option.splits if_splits)
qed

text \<open>The Overview page, the drawer and the sidebar.\<close>

lemma overview_links: "all_links {PageTraffic, PageSpend} (OverviewPage e rng series sm receipts)"
proof -
  have chart: "ui_links (overview_chart c se vs xf ps) = []" for c se vs xf ps
    by (simp add: overview_chart_def)
  have change: "concat (map ui_links (change_view n b g)) = []" for n b g
    by (cases "change_pct n b") (simp_all add: change_view_def)
  have strip: "ui_links (StatusStrip m n rs) = []" for m n rs
    by (simp add: StatusStrip_def)
  have "set (ui_links (OverviewPage e rng series sm receipts)) \<subseteq> {''/traffic'', ''/spend''}"
    by (simp add: OverviewPage_def Let_def chart change strip BigNumber_def)
  with leads_to_routes(2,3) show ?thesis by (fastforce simp: all_links_def)
qed

lemma drawer_links: "all_links {PageTraffic, PageKeys} (ReceiptDrawer e mode lk ls s a)"
proof -
  have usage: "ui_links (usage_section r) = []" for r
    by (simp add: usage_section_def usage_row_def split_def)
  have header: "ui_links (drawer_header tz n r) = []" for tz n r
    by (auto simp: drawer_header_def status_chip_def split: if_splits)
  have alert: "concat (map ui_links (failure_alert r)) = []" for r
    by (cases "rc_errorDetail r") (simp_all add: failure_alert_def)
  have related: "concat (map ui_links (RelatedList tz t items)) = []" for tz t items
    by (simp add: RelatedList_def)
  have rel: "ui_links (related_section tz re r) = [key_link r]" for tz re r
    using related [of tz "fst (related_shown re)" "snd (related_shown re)"]
    by (cases "set_string (rc_actor r)"; cases "session_set r")
      (simp_all add: related_section_def KV_def split_def)
  have footer: "set (ui_links (drawer_footer j h p r)) \<subseteq> {''/traffic?receipt='' @ rc_id r}" for j h p r
    by (auto simp: drawer_footer_def)
  have missing: "concat (map ui_links (NotFound i)) = []" for i
    by (simp add: NotFound_def)
  have body: "l = key_link r \<or> l = ''/traffic?receipt='' @ rc_id r" if "l \<in> set (concat (map ui_links (ReceiptBody e re r)))" for l re r
    using that footer [of "de_json e" "de_href e" "de_pathname e" r] by (auto simp: ReceiptBody_def usage header alert rel)
  have "\<exists>p \<in> {PageTraffic, PageKeys}. leads_to p (key_link r)" "\<exists>p \<in> {PageTraffic, PageKeys}. leads_to p (''/traffic?receipt='' @ i)" for r i
    using leads_to_routes(5) [of "''receipt='' @ i"] leads_to_routes(6) [of "''key='' @ rc_keyId r"] by (simp_all add: key_link_def)
  with body missing show ?thesis
    by (fastforce simp: all_links_def ReceiptDrawer_def split: option.splits)
qed

lemma sidebar_links: "all_links UNIV (AppSidebar mode build ses sb pathname)"
proof -
  have entry: "set (ui_links (nav_entry sb pathname n)) \<subseteq> {nv_to n}" for n
    by (simp add: nav_entry_def SidebarMenuItem_def SidebarMenuButton_def SidebarMenuLabel_def spread_get Let_def)
  have "set (ui_links (AppSidebar mode build ses sb pathname)) \<subseteq> nv_to ` set nav_items"
    using entry by (fastforce simp: AppSidebar_def SidebarNav_def SidebarContent_def SidebarFooter_def SidebarGroup_def
      SidebarGroupLabel_def SidebarMenu_def slot_div_def spread_get nav_items_def)
  moreover have "\<exists>p. leads_to p (nv_to n)" if "n \<in> set nav_items" for n
    using nav_active_route [OF that] that by (auto simp: leads_to_def nav_items_def nav_groups_def nav_def link_path_def)
  ultimately show ?thesis by (auto simp: all_links_def)
qed

text \<open>What the palette runs and what Spend opens.\<close>

lemma palette_links:
  assumes "r \<in> set (palette_results ks ms cached q)" and "pr_run r = RunNavigate l"
  shows "leads_to PageKeys l \<or> leads_to PageTraffic l"
proof -
  have "r' \<in> set (trace_results n rs out) \<Longrightarrow> r' \<in> set out \<or> (\<exists>x. r' = receipt_result x)" for r' n rs out
    by (induction n rs out rule: trace_results.induct) (auto simp: Let_def split: if_splits)
  moreover have "r \<in> set ((if looks_like_trace (needle_of q) then trace_results (needle_of q) cached [] else []) @
      filter (result_matches (needle_of q)) (map key_result ks) @ filter (result_matches (needle_of q)) (map model_result ms))"
    using assms(1) in_set_takeD unfolding palette_results_def Let_def by fast
  ultimately have "(\<exists>x. r = receipt_result x) \<or> (\<exists>k. r = key_result k) \<or> (\<exists>m. r = model_result m)"
    by (fastforce split: if_splits)
  then show ?thesis
    using assms(2) leads_to_routes(5) [of "''model='' @ i" for i] leads_to_routes(6) [of "''key='' @ i" for i]
    by (auto simp: receipt_result_def key_result_def model_result_def)
qed

lemma spend_links:
  "trafficHref gdim row = Some l \<Longrightarrow> leads_to PageTraffic l" "bar_href tz tr x = Some l \<Longrightarrow> leads_to PageTraffic l"
  using leads_to_routes(5)
  by (auto simp: trafficHref_def bar_href_def split: if_splits option.splits)

end
