(* ===== verification/ThemeHook.thy ===== *)
theory ThemeHook
  imports Theme
begin

text \<open>
  \<open>useThemePreference\<close> (\<open>hooks/use-theme-preference.ts\<close>) as it runs in \<open>ThemeProvider\<close> (\<open>hooks/theme-provider.tsx\<close>):
  the two subscriptions it takes out, what each event of the browser does to the rendered theme and to the \<open>dark\<close>
  class of the document, and the script that sets the class before the first paint.  The two front ends have the same
  hook; they differ in the storage key they pass.
\<close>

section \<open>The environment\<close>

text \<open>
  \<open>matchMedia\<close> may be missing (None), and so may the event interface of the query it returns.
\<close>

record media =
  md_matches :: "bool option"
  md_events :: bool

definition serverThemeMode :: string where
  "serverThemeMode = ''system''"

definition serverPrefersDark :: bool where
  "serverPrefersDark = False"

text \<open>\<open>subscribeToSystemScheme\<close>: whether the listener is registered; every failure is caught.\<close>

definition subscribeToSystemScheme :: "media \<Rightarrow> bool" where
  "subscribeToSystemScheme m \<longleftrightarrow> md_matches m \<noteq> None \<and> md_events m"

section \<open>The hook\<close>

text \<open>
  One mounted instance, as the code asks for.  \<open>th_snap\<close> holds the two snapshots of the last render (None while
  unmounted), \<open>th_subscribed\<close> whether the instance is in \<open>themeModeListeners\<close>, \<open>th_watching\<close> whether it listens to the
  media query, and \<open>th_class\<close> is the class on the document.
\<close>

record theme_hook =
  th_key :: string
  th_store :: theme_store
  th_media :: media
  th_snap :: "(string \<times> bool) option"
  th_subscribed :: bool
  th_watching :: bool
  th_class :: bool

definition snapshots :: "theme_hook \<Rightarrow> string \<times> bool" where
  "snapshots s = (readStoredMode (th_key s) (th_store s), prefersDark (md_matches (th_media s)))"

definition resolved_dark :: "string \<times> bool \<Rightarrow> bool" where
  "resolved_dark p = (case p of (m, d) \<Rightarrow> if m = ''system'' then d else m = ''dark'')"

definition rendered_theme :: "string \<times> bool \<Rightarrow> theme" where
  "rendered_theme p = \<lparr>tm_themeMode = fst p, tm_isDarkMode = resolved_dark p\<rparr>"

text \<open>Rendering reads both snapshots; the effect of \<open>[isDarkMode]\<close> toggles the class when the value differs.\<close>

definition rerender :: "theme_hook \<Rightarrow> theme_hook" where
  "rerender s =
     (let p = snapshots s;
          dark = (case th_snap s of
              None \<Rightarrow> resolved_dark p
            | Some q \<Rightarrow> if resolved_dark q = resolved_dark p then th_class s else resolved_dark p)
      in s\<lparr>th_snap := Some p, th_class := dark\<rparr>)"

definition hook_mount :: "string option \<Rightarrow> theme_hook \<Rightarrow> theme_hook" where
  "hook_mount key s =
     (rerender (s\<lparr>th_key := (case key of None \<Rightarrow> DEFAULT_THEME_STORAGE_KEY | Some k \<Rightarrow> k)\<rparr>))
       \<lparr>th_subscribed := True, th_watching := subscribeToSystemScheme (th_media s)\<rparr>"

definition hook_unmount :: "theme_hook \<Rightarrow> theme_hook" where
  "hook_unmount s = s\<lparr>th_snap := None, th_subscribed := False, th_watching := False\<rparr>"

text \<open>A listener renders again when its own snapshot differs from the one rendered.\<close>

definition on_mode_change :: "theme_hook \<Rightarrow> theme_hook" where
  "on_mode_change s =
     (if th_subscribed s \<and> map_option fst (th_snap s) \<noteq> Some (fst (snapshots s)) then rerender s else s)"

definition on_scheme_change :: "theme_hook \<Rightarrow> theme_hook" where
  "on_scheme_change s =
     (if th_watching s \<and> map_option snd (th_snap s) \<noteq> Some (snd (snapshots s)) then rerender s else s)"

text \<open>\<open>setThemeMode\<close>: written (or kept in memory), then every listener is called.\<close>

definition setThemeMode :: "string \<Rightarrow> theme_hook \<Rightarrow> theme_hook" where
  "setThemeMode m s = on_mode_change (s\<lparr>th_store := writeStoredMode (th_key s) m (th_store s)\<rparr>)"

text \<open>The system changes its scheme: the query matches or not, and fires its event.\<close>

definition scheme_changes :: "bool \<Rightarrow> theme_hook \<Rightarrow> theme_hook" where
  "scheme_changes b s =
     (if md_matches (th_media s) = None then s
      else on_scheme_change (s\<lparr>th_media := (th_media s)\<lparr>md_matches := Some b\<rparr>\<rparr>))"

text \<open>Another tab writes the preference: this one hears nothing of it.\<close>

definition other_tab_writes :: "string \<Rightarrow> theme_hook \<Rightarrow> theme_hook" where
  "other_tab_writes v s =
     s\<lparr>th_store := (th_store s)\<lparr>ts_storage := (ts_storage (th_store s))\<lparr>st_data := (st_data (ts_storage (th_store s)))(th_key s \<mapsto> v)\<rparr>\<rparr>\<rparr>"

text \<open>A page load: the script in the head has run, nothing is mounted and nothing is kept in memory.\<close>

definition page_load :: "string \<Rightarrow> media \<Rightarrow> storage \<Rightarrow> theme_hook" where
  "page_load key m st =
     \<lparr>th_key = key, th_store = \<lparr>ts_storage = st, ts_inMemory = Map.empty\<rparr>, th_media = m, th_snap = None,
      th_subscribed = False, th_watching = False, th_class = themeBootstrap key (md_matches m) st\<rparr>"

section \<open>Steps\<close>

text \<open>What happens in one tab; \<open>theme_world\<close> adds the writes of other tabs.\<close>

inductive theme_step :: "theme_hook \<Rightarrow> theme_hook \<Rightarrow> bool" where
  Mount: "th_snap s = None \<Longrightarrow> theme_step s (hook_mount (Some (th_key s)) s)"
| Rerender: "th_snap s \<noteq> None \<Longrightarrow> theme_step s (rerender s)"
| Pick: "th_snap s \<noteq> None \<Longrightarrow> isThemeMode m \<Longrightarrow> theme_step s (setThemeMode m s)"
| Scheme: "md_events (th_media s) \<or> th_snap s = None \<Longrightarrow> theme_step s (scheme_changes b s)"
| Unmount: "theme_step s (hook_unmount s)"

inductive theme_world :: "theme_hook \<Rightarrow> theme_hook \<Rightarrow> bool" where
  Own: "theme_step s s' \<Longrightarrow> theme_world s s'"
| OtherTab: "theme_world s (other_tab_writes v s)"

inductive_cases theme_worldE: "theme_world s s'"

section \<open>Lemmas\<close>

lemma rendered_theme_hook:
  "rendered_theme (snapshots s) = useThemePreference (Some (th_key s)) (md_matches (th_media s)) (th_store s)"
  by (simp add: rendered_theme_def snapshots_def useThemePreference_def resolved_dark_def Let_def)

lemma rerender_frame [simp]:
  "th_key (rerender s) = th_key s" "th_store (rerender s) = th_store s" "th_media (rerender s) = th_media s"
  "th_subscribed (rerender s) = th_subscribed s" "th_watching (rerender s) = th_watching s"
  "th_snap (rerender s) = Some (snapshots s)" "snapshots (rerender s) = snapshots s"
  by (simp_all add: rerender_def Let_def snapshots_def)

text \<open>The class is the one of the last render, and the subscriptions are held exactly while mounted.\<close>

definition class_right :: "theme_hook \<Rightarrow> bool" where
  "class_right s \<longleftrightarrow> (\<forall>p. th_snap s = Some p \<longrightarrow> th_class s = resolved_dark p)"

definition subscribed_right :: "theme_hook \<Rightarrow> bool" where
  "subscribed_right s \<longleftrightarrow> th_subscribed s = (th_snap s \<noteq> None) \<and>
     th_watching s = (th_snap s \<noteq> None \<and> subscribeToSystemScheme (th_media s))"

text \<open>What is rendered is what the stored preference and the system say now.\<close>

definition fresh :: "theme_hook \<Rightarrow> bool" where
  "fresh s \<longleftrightarrow> (\<forall>p. th_snap s = Some p \<longrightarrow> p = snapshots s)"

lemma class_right_rerender: "class_right s \<Longrightarrow> class_right (rerender s)"
  by (auto simp: class_right_def rerender_def Let_def split: option.split)

lemma fresh_rerender: "fresh (rerender s)"
  by (simp add: fresh_def)

lemma on_change_frame [simp]:
  "th_key (on_mode_change s) = th_key s" "th_store (on_mode_change s) = th_store s" "th_media (on_mode_change s) = th_media s"
  "th_subscribed (on_mode_change s) = th_subscribed s" "th_watching (on_mode_change s) = th_watching s"
  "(th_snap (on_mode_change s) = None) = (th_snap s = None \<and> \<not> th_subscribed s)"
  "th_key (on_scheme_change s) = th_key s" "th_store (on_scheme_change s) = th_store s"
  "th_media (on_scheme_change s) = th_media s"
  "th_subscribed (on_scheme_change s) = th_subscribed s" "th_watching (on_scheme_change s) = th_watching s"
  "(th_snap (on_scheme_change s) = None) = (th_snap s = None \<and> \<not> th_watching s)"
  by (auto simp: on_mode_change_def on_scheme_change_def)

lemma class_right_step: "theme_step s s' \<Longrightarrow> class_right s \<Longrightarrow> class_right s'"
proof (induction rule: theme_step.induct)
  case (Mount s)
  then have "class_right (s\<lparr>th_key := k\<rparr>)" for k by (simp add: class_right_def)
  from class_right_rerender [OF this, of "th_key s"] show ?case by (simp add: hook_mount_def class_right_def)
next
  case (Pick s m)
  then have "class_right (s\<lparr>th_store := t\<rparr>)" for t by (simp add: class_right_def)
  with class_right_rerender show ?case by (simp add: setThemeMode_def on_mode_change_def)
next
  case (Scheme s b)
  then have "class_right (s\<lparr>th_media := t\<rparr>)" for t by (simp add: class_right_def)
  with class_right_rerender Scheme show ?case by (simp add: scheme_changes_def on_scheme_change_def)
qed (simp_all add: class_right_rerender hook_unmount_def, simp add: class_right_def)

lemma subscribed_right_step: "theme_step s s' \<Longrightarrow> subscribed_right s \<Longrightarrow> subscribed_right s'"
  by (induction rule: theme_step.induct)
    (auto simp: subscribed_right_def hook_mount_def setThemeMode_def scheme_changes_def hook_unmount_def
      subscribeToSystemScheme_def simp del: not_None_eq)

lemma snapshots_mode: "snapshots (s\<lparr>th_store := t\<rparr>) = (readStoredMode (th_key s) t, snd (snapshots s))"
  by (simp add: snapshots_def)

lemma snapshots_media: "snapshots (s\<lparr>th_media := m\<rparr>) = (fst (snapshots s), prefersDark (md_matches m))"
  by (simp add: snapshots_def)

lemma fresh_step: "theme_step s s' \<Longrightarrow> subscribed_right s \<Longrightarrow> fresh s \<Longrightarrow> fresh s'"
proof (induction rule: theme_step.induct)
  case (Mount s)
  then show ?case by (simp add: hook_mount_def fresh_def snapshots_def)
next
  case (Rerender s)
  show ?case by (rule fresh_rerender)
next
  case (Pick s m)
  then obtain p where p: "th_snap s = Some p" by auto
  with Pick.prems have "th_subscribed s" "p = snapshots s" by (simp_all add: subscribed_right_def fresh_def)
  with p show ?case
    by (cases "readStoredMode (th_key s) (writeStoredMode (th_key s) m (th_store s)) = fst (snapshots s)")
      (simp_all add: setThemeMode_def on_mode_change_def snapshots_mode fresh_rerender, simp add: fresh_def snapshots_def)
next
  case (Scheme s b)
  show ?case
  proof (cases "md_matches (th_media s) = None \<or> th_snap s = None")
    case True
    with Scheme show ?thesis
      by (auto simp: scheme_changes_def on_scheme_change_def subscribed_right_def fresh_def)
  next
    case False
    then obtain p y where p: "th_snap s = Some p" "md_matches (th_media s) = Some y" by auto
    with False Scheme have "th_watching s" "p = snapshots s"
      by (simp_all add: subscribed_right_def fresh_def subscribeToSystemScheme_def)
    with p False show ?thesis
      by (cases "prefersDark (Some b) = snd (snapshots s)")
        (simp_all add: scheme_changes_def on_scheme_change_def snapshots_media fresh_rerender, simp add: fresh_def snapshots_media)
  qed
next
  case (Unmount s)
  show ?case by (simp add: hook_unmount_def fresh_def)
qed

text \<open>From a page load on: what this tab does is shown at once, and the class is right.\<close>

lemma page_load_right [simp]:
  "class_right (page_load k m st)" "subscribed_right (page_load k m st)" "fresh (page_load k m st)"
  by (simp_all add: page_load_def class_right_def subscribed_right_def fresh_def)

lemma theme_steps_right:
  assumes "theme_step\<^sup>*\<^sup>* (page_load k m st) s"
  shows "class_right s \<and> subscribed_right s \<and> fresh s"
  using assms
proof (induction rule: rtranclp_induct)
  case (step s s')
  then show ?case using class_right_step subscribed_right_step fresh_step by blast
qed simp

lemma theme_follows:
  assumes "theme_step\<^sup>*\<^sup>* (page_load k m st) s" and "th_snap s = Some p"
  shows "rendered_theme p = useThemePreference (Some (th_key s)) (md_matches (th_media s)) (th_store s) \<and>
    th_class s = tm_isDarkMode (rendered_theme p)"
  using theme_steps_right [OF assms(1)] assms(2)
  by (simp add: fresh_def class_right_def flip: rendered_theme_hook) (simp add: rendered_theme_def)

text \<open>With other tabs, the class still is the one of the theme that is rendered.\<close>

lemma other_tab_frame [simp]:
  "th_snap (other_tab_writes v s) = th_snap s" "th_class (other_tab_writes v s) = th_class s"
  "th_subscribed (other_tab_writes v s) = th_subscribed s" "th_watching (other_tab_writes v s) = th_watching s"
  "th_media (other_tab_writes v s) = th_media s"
  by (simp_all add: other_tab_writes_def)

lemma theme_world_right:
  "theme_world\<^sup>*\<^sup>* (page_load k m st) s \<Longrightarrow> class_right s \<and> subscribed_right s"
proof (induction rule: rtranclp_induct)
  case (step s s')
  then show ?case
    by (auto elim!: theme_worldE intro: class_right_step subscribed_right_step) (simp_all add: class_right_def subscribed_right_def)
qed simp

text \<open>No flash: mounting after a page load leaves the class as the script has set it.\<close>

lemma mount_keeps_class:
  "th_class (hook_mount (Some k) (page_load k m st)) = th_class (page_load k m st)"
  using bootstrap_matches_hook [of "\<lparr>ts_storage = st, ts_inMemory = Map.empty\<rparr>" k "md_matches m"]
  by (simp add: hook_mount_def page_load_def rerender_def Let_def resolved_dark_def snapshots_def useThemePreference_def)

text \<open>A choice takes effect at once, and is the one that a later load of the page starts from.\<close>

lemma setThemeMode_shows:
  assumes run: "theme_step\<^sup>*\<^sup>* (page_load k0 m0 st0) s" and snap: "th_snap s \<noteq> None" and m: "isThemeMode m"
    and w: "st_write_ok (ts_storage (th_store s)) = st_read_ok (ts_storage (th_store s))"
  shows "\<exists>p. th_snap (setThemeMode m s) = Some p \<and> fst p = m \<and> th_class (setThemeMode m s) = resolved_dark p"
proof -
  have run': "theme_step\<^sup>*\<^sup>* (page_load k0 m0 st0) (setThemeMode m s)"
    using run theme_step.Pick [OF snap m] by (rule rtranclp.rtrancl_into_rtrancl)
  note R = theme_steps_right [OF run']
  have "th_snap (setThemeMode m s) \<noteq> None" using snap by (simp add: setThemeMode_def del: not_None_eq)
  then obtain p where p: "th_snap (setThemeMode m s) = Some p" by auto
  have "snapshots (setThemeMode m s) = (readStoredMode (th_key s) (writeStoredMode (th_key s) m (th_store s)),
      prefersDark (md_matches (th_media s)))"
    by (simp add: snapshots_def setThemeMode_def)
  moreover have "readStoredMode (th_key s) (writeStoredMode (th_key s) m (th_store s)) = m"
    using m w by (intro read_write) auto
  ultimately show ?thesis using p R by (simp add: fresh_def class_right_def)
qed

lemma stored_choice_reloads:
  assumes "st_write_ok (ts_storage (th_store s))" and "st_read_ok (ts_storage (th_store s))" and "isThemeMode m"
  shows "th_class (page_load (th_key s) md (ts_storage (th_store (setThemeMode m s)))) = resolved_dark (m, prefersDark (md_matches md))"
  using assms by (auto simp: page_load_def setThemeMode_def writeStoredMode_def set_item_def themeBootstrap_def
      get_item_def resolved_dark_def isThemeMode_def THEME_MODES_def Let_def)

end
