(* ===== verification/BootScript.thy ===== *)
theory BootScript
  imports ThemeHook
begin

text \<open>
  The text of the script before the first paint: \<open>themeBootstrapScript\<close> of \<open>hooks/use-theme-preference.ts\<close>, with
  \<open>JSON.stringify\<close> of a string and the reader of the literal it writes, and the copy of the generated text that
  \<open>frontend/index.html\<close> carries.
\<close>

section \<open>String literals\<close>

definition lower_hex :: "nat \<Rightarrow> char" where
  "lower_hex n = (if n < 10 then char_of (48 + n) else char_of (87 + n))"

definition lower_unhex :: "char \<Rightarrow> nat" where
  "lower_unhex c = (let n = of_char c in if n < 58 then n - 48 else n - 87)"

text \<open>\<open>JSON.stringify\<close>: quotes, backslashes and control characters are escaped.\<close>

definition json_char :: "char \<Rightarrow> string" where
  "json_char c =
     (let n = of_char c :: nat in
      if c = char_quot \<or> c = char_bslash then [char_bslash, c]
      else if n = 8 then [char_bslash, CHR ''b'']
      else if n = 9 then [char_bslash, CHR ''t'']
      else if n = 10 then [char_bslash, CHR ''n'']
      else if n = 12 then [char_bslash, CHR ''f'']
      else if n = 13 then [char_bslash, CHR ''r'']
      else if n < 32 then [char_bslash, CHR ''u'', CHR ''0'', CHR ''0'', lower_hex (n div 16), lower_hex (n mod 16)]
      else [c])"

definition json_string :: "string \<Rightarrow> string" where
  "json_string s = char_quot # concat (map json_char s) @ [char_quot]"

text \<open>How the literal is read: up to the closing quote, None where it is not one.\<close>

fun read_chars :: "string \<Rightarrow> (string \<times> string) option" where
  "read_chars [] = None"
| "read_chars (c # r) =
     (if c = char_quot then Some ([], r)
      else if of_char c < (32::nat) then None
      else if c \<noteq> char_bslash then map_option (\<lambda>(s, t). (c # s, t)) (read_chars r)
      else (case r of
          [] \<Rightarrow> None
        | e # r1 \<Rightarrow>
            if e = CHR ''u'' then
              (case r1 of
                 a # b # d # f # r2 \<Rightarrow>
                   map_option (\<lambda>(s, t). (char_of (16 * lower_unhex d + lower_unhex f) # s, t)) (read_chars r2)
               | _ \<Rightarrow> None)
            else map_option (\<lambda>(s, t).
              ((if e = CHR ''b'' then char_of (8::nat) else if e = CHR ''t'' then char_tab
                else if e = CHR ''n'' then char_lf else if e = CHR ''f'' then char_of (12::nat)
                else if e = CHR ''r'' then char_cr else e) # s, t)) (read_chars r1)))"

definition read_literal :: "string \<Rightarrow> (string \<times> string) option" where
  "read_literal s = (case s of [] \<Rightarrow> None | c # r \<Rightarrow> if c = char_quot then read_chars r else None)"

section \<open>The script\<close>

definition DARK_SCHEME_QUERY :: string where
  "DARK_SCHEME_QUERY = ''(prefers-color-scheme: dark)''"

text \<open>A quote of the script is an apostrophe.\<close>

definition quoted :: "string \<Rightarrow> string" where
  "quoted s = char_apos # s @ [char_apos]"

definition script_lines :: "string \<Rightarrow> string list" where
  "script_lines key =
     [''(function () {'',
      ''  var mode = null;'',
      ''  var prefersDark = false;'',
      ''  try {'',
      ''    mode = localStorage.getItem('' @ json_string key @ '');'',
      ''  } catch (e) {}'',
      ''  try {'',
      ''    prefersDark = window.matchMedia('' @ quoted DARK_SCHEME_QUERY @ '').matches;'',
      ''  } catch (e) {}'',
      ''  var isDark = mode === '' @ quoted ''dark'' @ '' || (mode !== '' @ quoted ''light'' @ '' && prefersDark);'',
      ''  try {'',
      ''    document.documentElement.classList.toggle('' @ quoted ''dark'' @ '', isDark);'',
      ''  } catch (e) {}'',
      ''})();'']"

definition themeBootstrapScript :: "string option \<Rightarrow> string" where
  "themeBootstrapScript key =
     join_str [char_lf] (script_lines (case key of None \<Rightarrow> DEFAULT_THEME_STORAGE_KEY | Some k \<Rightarrow> k))"

text \<open>The lines between the script tags of \<open>frontend/index.html\<close>.\<close>

definition manager_index_lines :: "string list" where
  "manager_index_lines =
     [''      (function () {'',
      ''        var mode = null;'',
      ''        var prefersDark = false;'',
      ''        try {'',
      ''          mode = localStorage.getItem('' @ char_quot # ''nebari-llm:themeMode'' @ char_quot # '');'',
      ''        } catch (e) {}'',
      ''        try {'',
      ''          prefersDark = window.matchMedia('' @ char_apos # ''(prefers-color-scheme: dark)'' @ char_apos # '').matches;'',
      ''        } catch (e) {}'',
      ''        var isDark = mode === '' @ char_apos # ''dark'' @ char_apos # '' || (mode !== '' @ char_apos # ''light'' @ char_apos # '' && prefersDark);'',
      ''        try {'',
      ''          document.documentElement.classList.toggle('' @ char_apos # ''dark'' @ char_apos # '', isDark);'',
      ''        } catch (e) {}'',
      ''      })();'']"

section \<open>Lemmas\<close>

lemma lower_unhex_hex [simp]: "n < 16 \<Longrightarrow> lower_unhex (lower_hex n) = n"
  by (auto simp: lower_unhex_def lower_hex_def Let_def)

text \<open>Characters by their codes.\<close>

lemma char_of_code: "of_char c = n \<Longrightarrow> c = char_of (n::nat)"
  by auto

lemma read_json_char: "read_chars (json_char c @ r) = map_option (\<lambda>(s, t). (c # s, t)) (read_chars r)"
proof -
  let ?n = "of_char c :: nat"
  consider "?n = 34" | "?n = 92" | "?n = 8" | "?n = 9" | "?n = 10" | "?n = 12" | "?n = 13"
    | "?n < 32" "?n \<notin> {8, 9, 10, 12, 13}" | "32 \<le> ?n" "?n \<noteq> 34" "?n \<noteq> 92"
    by fastforce
  then show ?thesis
  proof cases
    case 1
    from char_of_code [OF this] have "c = char_quot" by (simp only: char_quot_def)
    then show ?thesis by (simp add: json_char_def char_codes)
  next
    case 2
    from char_of_code [OF this] have "c = char_bslash" by (simp only: char_bslash_def)
    then show ?thesis by (simp add: json_char_def char_codes)
  next
    case 8
    then have "c \<noteq> char_quot" "c \<noteq> char_bslash" by auto
    with 8 have e: "json_char c = [char_bslash, CHR ''u'', CHR ''0'', CHR ''0'', lower_hex (?n div 16), lower_hex (?n mod 16)]"
      by (simp add: json_char_def Let_def)
    have "char_of (16 * lower_unhex (lower_hex (?n div 16)) + lower_unhex (lower_hex (?n mod 16))) = c"
      using 8 by simp
    then show ?thesis by (simp add: e char_codes)
  next
    case 9
    then have "c \<noteq> char_quot" "c \<noteq> char_bslash" by auto
    with 9 show ?thesis by (simp add: json_char_def Let_def)
  qed (frule char_of_code, auto simp: json_char_def Let_def char_codes char_of_def bit_0)+
qed

lemma read_json_chars: "read_chars (concat (map json_char s) @ char_quot # r) = Some (s, r)"
  by (induction s) (simp_all add: read_json_char)

text \<open>The literal is read as the string, and what follows it is not touched.\<close>

lemma read_json_string: "read_literal (json_string s @ r) = Some (s, r)"
  by (simp add: json_string_def read_literal_def read_json_chars)

text \<open>It is one line, and so are the lines of the script.\<close>

lemma json_char_line: "char_lf \<notin> set (json_char c)"
proof -
  have "of_char c \<noteq> (10::nat) \<Longrightarrow> char_lf \<noteq> c" by auto
  moreover have "char_lf \<noteq> lower_hex n" if "n < 16" for n
    using that by (auto simp: lower_hex_def char_lf_def char_of_eq_iff dest: arg_cong [where f = "of_char :: char \<Rightarrow> nat"])
  ultimately show ?thesis by (auto simp: json_char_def Let_def char_codes)
qed

lemma json_string_line: "char_lf \<notin> set (json_string s)"
  using json_char_line by (auto simp: json_string_def) (simp add: char_codes)

lemma script_lines_lf: "l \<in> set (script_lines k) \<Longrightarrow> char_lf \<notin> set l"
  using json_string_line [of k]
  by (auto simp: script_lines_def quoted_def DARK_SCHEME_QUERY_def char_codes)

lemma script_split: "split_chars (\<lambda>c. c = char_lf) (themeBootstrapScript (Some k)) = script_lines k"
  unfolding themeBootstrapScript_def option.case
  by (rule split_chars_join) (simp add: script_lines_def, blast dest: script_lines_lf)

text \<open>Whatever the key, it stays inside its literal.\<close>

lemma script_key_line:
  "script_lines k ! 4 = ''    mode = localStorage.getItem('' @ json_string k @ '');''"
  "length (script_lines k) = 14"
  "i < 14 \<Longrightarrow> i \<noteq> 4 \<Longrightarrow> script_lines k ! i = script_lines k' ! i"
proof -
  show "script_lines k ! 4 = ''    mode = localStorage.getItem('' @ json_string k @ '');''"
    by (simp add: script_lines_def numeral_eq_Suc)
  show "length (script_lines k) = 14" by (simp add: script_lines_def)
  assume "i < 14" "i \<noteq> 4"
  then have "i \<in> {0, 1, 2, 3} \<union> {5, 6, 7, 8, 9, 10, 11, 12, 13}" by simp presburger
  then show "script_lines k ! i = script_lines k' ! i" by (auto simp: script_lines_def)
qed

text \<open>The key manager's page carries the generated text, indented.\<close>

lemma manager_index_in_sync:
  "manager_index_lines = map (\<lambda>l. ''      '' @ l) (script_lines THEME_STORAGE_KEY)"
  by (simp add: manager_index_lines_def script_lines_def THEME_STORAGE_KEY_def json_string_def json_char_def
      quoted_def DARK_SCHEME_QUERY_def char_codes Let_def)

end
