(* ===== verification/Config.thy ===== *)
theory Config
  imports Browser
begin

text \<open>
  \<open>app/config.ts\<close> of the key manager: /config.json, its cache, the URL and CSS-token filters and the
  branding applied to the document.  The browser's URL parser is a parameter: the protocol of a
  well-formed URL, None where \<open>new URL\<close> throws.
\<close>

section \<open>Configuration\<close>

type_synonym tokens_map = "(string \<times> string) list"

record theme_tokens =
  th_light :: "tokens_map option"
  th_dark :: "tokens_map option"

record keycloak_config =
  kcf_url :: string
  kcf_realm :: string
  kcf_clientId :: string

record app_config =
  cf_keycloak :: keycloak_config
  cf_title :: "string option"
  cf_logoUrl :: "string option"
  cf_logoUrlDark :: "string option"
  cf_faviconUrl :: "string option"
  cf_theme :: "theme_tokens option"

section \<open>CSS token values\<close>

text \<open>\<open>name\s*\(\<close> at the head of a text, ignoring case.\<close>

definition call_here :: "string \<Rightarrow> string \<Rightarrow> bool" where
  "call_here name s =
     (starts_with name (to_lower s) \<and>
      (case dropWhile is_space (drop (length name) s) of [] \<Rightarrow> False | c # r \<Rightarrow> c = CHR ''(''))"

fun anywhere :: "(string \<Rightarrow> bool) \<Rightarrow> string \<Rightarrow> bool" where
  "anywhere p [] = p []"
| "anywhere p (c # cs) = (p (c # cs) \<or> anywhere p cs)"

definition css_special :: "char \<Rightarrow> bool" where
  "css_special c \<longleftrightarrow> c \<in> {CHR '';'', CHR ''<'', CHR ''>'', CHR ''{'', CHR ''}'', char_quot, char_apos, char_bslash}"

definition UNSAFE_CSS :: "string \<Rightarrow> bool" where
  "UNSAFE_CSS s =
     (list_ex css_special s \<or> anywhere (call_here ''url'') s \<or> anywhere (call_here ''expression'') s
      \<or> anywhere (\<lambda>t. starts_with ''javascript:'' (to_lower t)) s)"

definition safeCssValue :: "string option \<Rightarrow> string option" where
  "safeCssValue v =
     (case v of None \<Rightarrow> None
      | Some s \<Rightarrow> if s \<noteq> [] \<and> \<not> UNSAFE_CSS s then Some s else None)"

section \<open>URLs\<close>

definition ALLOWED_DATA_MIME_TYPES :: "string list" where
  "ALLOWED_DATA_MIME_TYPES =
     [''image/png'', ''image/jpeg'', ''image/jpg'', ''image/svg+xml'', ''image/webp'', ''image/gif'',
      ''image/x-icon'', ''image/vnd.microsoft.icon'']"

text \<open>\<open>/^data:([^;,]+)(;base64)?,/\<close>: the MIME type and whether the marker is there.\<close>

definition data_match :: "string \<Rightarrow> (string \<times> bool) option" where
  "data_match s =
     (if \<not> starts_with ''data:'' s then None
      else (let rest = drop 5 s;
                mime = takeWhile (\<lambda>c. c \<noteq> CHR '';'' \<and> c \<noteq> CHR '','') rest;
                after = drop (length mime) rest
            in if mime = [] then None
               else if starts_with '';base64,'' after then Some (mime, True)
               else if starts_with '','' after then Some (mime, False)
               else None))"

definition sanitizeUrl :: "(string \<Rightarrow> string option) \<Rightarrow> string option \<Rightarrow> string option" where
  "sanitizeUrl url_protocol v =
     (case v of
        None \<Rightarrow> None
      | Some s \<Rightarrow>
          (if s = [] then None
           else if starts_with ''/'' s then Some s
           else case url_protocol s of
             None \<Rightarrow> None
           | Some protocol \<Rightarrow>
               (if protocol = ''http:'' \<or> protocol = ''https:'' then Some s
                else if protocol = ''data:''
                then (case data_match s of
                    None \<Rightarrow> None
                  | Some (mime, base64) \<Rightarrow>
                      (if base64 \<and> to_lower mime \<in> set ALLOWED_DATA_MIME_TYPES then Some s else None))
                else None)))"

section \<open>Loading\<close>

text \<open>The module variable \<open>_config\<close> and the number of requests made for /config.json.\<close>

record config_state =
  cs_config :: "app_config option"
  cs_fetches :: nat

record config_response =
  cr_status :: int
  cr_body :: "string + app_config"

definition loadAppConfig ::
  "(string \<Rightarrow> string option) \<Rightarrow> (nat \<Rightarrow> string + config_response) \<Rightarrow> config_state
     \<Rightarrow> config_state \<times> (string + app_config)" where
  "loadAppConfig url_protocol fetch s =
     (case cs_config s of
        Some c \<Rightarrow> (s, Inr c)
      | None \<Rightarrow>
          (let s1 = s\<lparr>cs_fetches := Suc (cs_fetches s)\<rparr> in
           case fetch (cs_fetches s) of
             Inl e \<Rightarrow> (s1, Inl e)
           | Inr r \<Rightarrow>
               (if \<not> (200 \<le> cr_status r \<and> cr_status r < 300)
                then (s1, Inl (''Failed to load /config.json: '' @ int_str (cr_status r)))
                else case cr_body r of
                  Inl e \<Rightarrow> (s1, Inl e)
                | Inr raw \<Rightarrow>
                    (let config = raw\<lparr>
                       cf_logoUrl := sanitizeUrl url_protocol (cf_logoUrl raw),
                       cf_logoUrlDark := sanitizeUrl url_protocol (cf_logoUrlDark raw),
                       cf_faviconUrl := sanitizeUrl url_protocol (cf_faviconUrl raw)\<rparr>
                     in (s1\<lparr>cs_config := Some config\<rparr>, Inr config)))))"

definition getAppConfig :: "config_state \<Rightarrow> app_config option" where
  "getAppConfig s = cs_config s"

section \<open>Applying\<close>

definition toKebab :: "string \<Rightarrow> string" where
  "toKebab s = to_lower (concat (map (\<lambda>c. if is_upper c then [CHR ''-'', c] else [c]) s))"

definition css_var :: "string \<times> string \<Rightarrow> string list" where
  "css_var kv = (case safeCssValue (Some (snd kv)) of
     None \<Rightarrow> []
   | Some v \<Rightarrow> [''  --'' @ toKebab (fst kv) @ '': '' @ v @ '';''])"

definition toCssVars :: "tokens_map \<Rightarrow> string" where
  "toCssVars tokens = join_str [char_lf] (concat (map css_var tokens))"

record document =
  dc_title :: string
  dc_icon :: "string option"
  dc_styles :: "string list"

definition css_block :: "string \<Rightarrow> tokens_map option \<Rightarrow> string" where
  "css_block selector tokens =
     (case tokens of None \<Rightarrow> []
      | Some t \<Rightarrow> (let vars = toCssVars t in
          if vars = [] then []
          else selector @ '' {'' @ [char_lf] @ vars @ [char_lf] @ ''}'' @ [char_lf]))"

definition set_text :: "string option \<Rightarrow> bool" where
  "set_text v \<longleftrightarrow> (case v of None \<Rightarrow> False | Some s \<Rightarrow> s \<noteq> [])"

definition applyAppConfig :: "app_config \<Rightarrow> document \<Rightarrow> document" where
  "applyAppConfig config d =
     (let d1 = (if set_text (cf_title config) then d\<lparr>dc_title := the (cf_title config)\<rparr> else d);
          d2 = (if set_text (cf_faviconUrl config) then d1\<lparr>dc_icon := cf_faviconUrl config\<rparr> else d1)
      in case cf_theme config of
           None \<Rightarrow> d2
         | Some t \<Rightarrow>
             (let css = css_block '':root'' (th_light t) @ css_block ''.dark'' (th_dark t)
              in if css = [] then d2 else d2\<lparr>dc_styles := dc_styles d2 @ [css]\<rparr>))"

section \<open>Lemmas\<close>

lemma safeCssValue_Some:
  "safeCssValue v = Some w \<Longrightarrow> v = Some w \<and> w \<noteq> [] \<and> (\<forall>c \<in> set w. \<not> css_special c)"
  by (auto simp: safeCssValue_def UNSAFE_CSS_def list_ex_iff split: option.splits if_splits)

lemma takeWhile_stop: "takeWhile p s = m \<Longrightarrow> drop (length m) s = c # r \<Longrightarrow> s = m @ c # r"
  by (metis dropWhile_eq_drop takeWhile_dropWhile_id)

lemma data_match_base64:
  "data_match s = Some (mime, True) \<longleftrightarrow>
     (\<exists>d. s = ''data:'' @ mime @ '';base64,'' @ d) \<and> mime \<noteq> [] \<and>
     CHR '';'' \<notin> set mime \<and> CHR '','' \<notin> set mime"
proof
  assume m: "data_match s = Some (mime, True)"
  from m obtain rest where s: "s = ''data:'' @ rest"
    by (auto simp: data_match_def starts_with_iff split: if_splits)
  with m have mime: "mime = takeWhile (\<lambda>c. c \<noteq> CHR '';'' \<and> c \<noteq> CHR '','') rest" "mime \<noteq> []"
    "starts_with '';base64,'' (drop (length mime) rest)"
    by (auto simp: data_match_def Let_def split: if_splits)
  then obtain d where "drop (length mime) rest = '';base64,'' @ d" by (auto simp: starts_with_iff)
  with mime(1) have "rest = mime @ '';base64,'' @ d"
    by (metis append_take_drop_id takeWhile_eq_take)
  moreover have "CHR '';'' \<notin> set mime \<and> CHR '','' \<notin> set mime"
    unfolding mime(1) by (auto dest: set_takeWhileD)
  ultimately show "(\<exists>d. s = ''data:'' @ mime @ '';base64,'' @ d) \<and> mime \<noteq> [] \<and>
     CHR '';'' \<notin> set mime \<and> CHR '','' \<notin> set mime" using s mime(2) by simp
next
  assume r: "(\<exists>d. s = ''data:'' @ mime @ '';base64,'' @ d) \<and> mime \<noteq> [] \<and>
     CHR '';'' \<notin> set mime \<and> CHR '','' \<notin> set mime"
  then obtain d where s: "s = ''data:'' @ mime @ '';base64,'' @ d" by blast
  have "takeWhile (\<lambda>c. c \<noteq> CHR '';'' \<and> c \<noteq> CHR '','') (mime @ CHR '';'' # t) = mime" for t
    using r by (subst takeWhile_append2) auto
  with r s show "data_match s = Some (mime, True)"
    by (simp add: data_match_def Let_def)
qed

lemma sanitizeUrl_Some:
  "sanitizeUrl up v = Some w \<Longrightarrow> v = Some w \<and> w \<noteq> [] \<and>
     (starts_with ''/'' w \<or> up w = Some ''http:'' \<or> up w = Some ''https:'' \<or>
      (up w = Some ''data:'' \<and> (\<exists>mime d. w = ''data:'' @ mime @ '';base64,'' @ d \<and>
         to_lower mime \<in> set ALLOWED_DATA_MIME_TYPES)))"
proof -
  assume "sanitizeUrl up v = Some w"
  then have "v = Some w \<and> w \<noteq> [] \<and>
     (starts_with ''/'' w \<or> up w = Some ''http:'' \<or> up w = Some ''https:'' \<or>
      (up w = Some ''data:'' \<and> (\<exists>mime. data_match w = Some (mime, True) \<and>
         to_lower mime \<in> set ALLOWED_DATA_MIME_TYPES)))"
    by (auto simp: sanitizeUrl_def split: option.splits if_splits)
  then show ?thesis unfolding data_match_base64 by blast
qed

text \<open>
  An address that starts with a slash stays on the page's own host unless a second slash follows (or a backslash, which
  the URL parser takes for one, and it skips tabs and line breaks).
\<close>

definition network_path :: "string \<Rightarrow> bool" where
  "network_path s \<longleftrightarrow> starts_with ''/'' s \<and>
     (case filter (\<lambda>c. c \<notin> {char_of (9 :: nat), char_lf, char_of (13 :: nat)}) (drop 1 s) of
        [] \<Rightarrow> False | c # _ \<Rightarrow> c = CHR ''/'' \<or> c = char_bslash)"

definition root_relative :: "string \<Rightarrow> bool" where
  "root_relative s \<longleftrightarrow> starts_with ''/'' s \<and> \<not> network_path s"

lemma sanitizeUrl_network: "network_path s \<Longrightarrow> sanitizeUrl up (Some s) = Some s"
  by (cases s) (auto simp: sanitizeUrl_def network_path_def)

lemma sanitizeUrl_idem: "sanitizeUrl up (sanitizeUrl up v) = sanitizeUrl up v"
  by (auto simp: sanitizeUrl_def split: option.splits if_splits)

text \<open>A successful load is cached: no further request, and the same configuration.\<close>

lemma loadAppConfig_cached:
  "loadAppConfig up fetch s = (s', Inr c) \<Longrightarrow> loadAppConfig up fetch' s' = (s', Inr c)"
  by (auto simp: loadAppConfig_def Let_def split: option.splits sum.splits if_splits)

lemma loadAppConfig_clean:
  assumes "cs_config s = None" and "loadAppConfig up fetch s = (s', Inr c)"
  shows "sanitizeUrl up (cf_logoUrl c) = cf_logoUrl c \<and> sanitizeUrl up (cf_logoUrlDark c) = cf_logoUrlDark c
    \<and> sanitizeUrl up (cf_faviconUrl c) = cf_faviconUrl c \<and> cs_config s' = Some c"
  using assms by (auto simp: loadAppConfig_def Let_def sanitizeUrl_idem split: sum.splits if_splits)

lemma css_var_chars:
  assumes "\<forall>c \<in> set k. is_alnum c" and "x \<in> set (css_var (k, v))"
  shows "count_list x (CHR '';'') = 1 \<and> CHR ''{'' \<notin> set x \<and> CHR ''}'' \<notin> set x \<and> CHR ''<'' \<notin> set x"
proof -
  from assms(2) obtain w where w: "safeCssValue (Some v) = Some w"
    and x: "x = ''  --'' @ toKebab k @ '': '' @ w @ '';''"
    by (cases "safeCssValue (Some v)") (auto simp: css_var_def)
  from safeCssValue_Some [OF w] have w': "\<forall>c \<in> set w. \<not> css_special c" by simp
  have low: "is_alnum c \<Longrightarrow> lower_char c \<notin> {CHR '';'', CHR ''{'', CHR ''}'', CHR ''<''}" for c
  proof -
    assume "is_alnum c"
    then have "is_alnum (lower_char c)" by (auto simp: is_alnum_def lower_char_def Let_def)
    then show ?thesis by (auto simp: is_alnum_def)
  qed
  have dash: "lower_char (CHR ''-'') = CHR ''-''" by (simp add: lower_char_def)
  have keb: "c \<in> set (toKebab k) \<Longrightarrow> c \<notin> {CHR '';'', CHR ''{'', CHR ''}'', CHR ''<''}" for c
    using assms(1) low by (fastforce simp: toKebab_def to_lower_def dash split: if_splits)
  have no_semi: "count_list (toKebab k) (CHR '';'') = 0" "count_list w (CHR '';'') = 0"
    using keb w' by (auto simp: count_list_0_iff css_special_def)
  have "CHR ''{'' \<notin> set w \<and> CHR ''}'' \<notin> set w \<and> CHR ''<'' \<notin> set w"
    using w' by (auto simp: css_special_def)
  then show ?thesis using keb no_semi by (auto simp: x)
qed

text \<open>With alphanumeric token names a block opens and closes once, whatever the values are.\<close>

lemma toCssVars_braces:
  assumes "\<forall>(k, v) \<in> set tokens. \<forall>c \<in> set k. is_alnum c"
  shows "CHR ''{'' \<notin> set (toCssVars tokens) \<and> CHR ''}'' \<notin> set (toCssVars tokens)
     \<and> CHR ''<'' \<notin> set (toCssVars tokens)"
proof -
  have x: "CHR ''{'' \<notin> set x \<and> CHR ''}'' \<notin> set x \<and> CHR ''<'' \<notin> set x"
    if "x \<in> set (concat (map css_var tokens))" for x
  proof -
    from that obtain k v where kv: "(k, v) \<in> set tokens" "x \<in> set (css_var (k, v))" by auto
    with assms have "\<forall>c \<in> set k. is_alnum c" by auto
    from css_var_chars [OF this kv(2)] show ?thesis by simp
  qed
  have "set (toCssVars tokens) \<subseteq> {char_lf} \<union> \<Union>(set ` set (concat (map css_var tokens)))"
    using set_join_str [of "[char_lf]" "concat (map css_var tokens)"] by (simp add: toCssVars_def)
  with x show ?thesis by (fastforce simp: char_codes)
qed

text \<open>An empty branding block leaves the document as it was.\<close>

lemma applyAppConfig_default:
  "\<not> set_text (cf_title c) \<Longrightarrow> \<not> set_text (cf_faviconUrl c) \<Longrightarrow> cf_theme c = None \<Longrightarrow>
     applyAppConfig c d = d"
  by (simp add: applyAppConfig_def)

lemma css_block_shape:
  assumes "\<forall>(k, v) \<in> set t. \<forall>c \<in> set k. is_alnum c"
    and "CHR ''{'' \<notin> set sel" "CHR ''}'' \<notin> set sel"
  shows "css_block sel (Some t) = [] \<or>
     (count_list (css_block sel (Some t)) (CHR ''{'') = 1 \<and> count_list (css_block sel (Some t)) (CHR ''}'') = 1)"
  using toCssVars_braces [OF assms(1)] assms(2,3)
  by (auto simp: css_block_def Let_def count_list_0_iff char_codes)

end
