(* ===== verification/Auth.thy ===== *)
theory Auth
  imports Config
begin

text \<open>
  \<open>auth/keycloak.ts\<close>, \<open>auth/user.ts\<close>, \<open>lib/api.ts\<close> and the bootstrap of \<open>main.tsx\<close> in the key manager.
  The Keycloak adapter is a library: its \<open>init\<close> and \<open>updateToken\<close> are parameters (Inl when the
  promise rejects).  Requests and redirects to the login page are recorded in the state.
\<close>

section \<open>The session\<close>

type_synonym claims = "(string \<times> string) list"

record keycloak =
  kc_authenticated :: bool
  kc_token :: "string option"
  kc_claims :: "claims option"
  kc_fake :: bool

record injected_auth =
  ij_authenticated :: bool
  ij_token :: "string option"
  ij_claims :: "claims option"

record auth_env =
  ae_production :: bool
  ae_devNoAuth :: bool
  ae_injected :: "injected_auth option"

record auth_state =
  au_keycloak :: "keycloak option"
  au_config :: config_state
  au_logins :: nat
  au_updates :: "int list"
  au_logouts :: "string list"

definition fakeSession :: "string option \<Rightarrow> claims option \<Rightarrow> keycloak" where
  "fakeSession token claims =
     \<lparr>kc_authenticated = True, kc_token = token, kc_claims = claims, kc_fake = True\<rparr>"

definition dev_claims :: claims where
  "dev_claims = [(''name'', ''dev''), (''preferred_username'', ''dev''), (''email'', ''dev@local''), (''sub'', ''dev'')]"

definition initKeycloak ::
  "auth_env \<Rightarrow> (string \<Rightarrow> string option) \<Rightarrow> (nat \<Rightarrow> string + config_response) \<Rightarrow>
   (keycloak_config \<Rightarrow> string + keycloak) \<Rightarrow> auth_state \<Rightarrow> auth_state \<times> (string + keycloak)" where
  "initKeycloak env url_protocol fetch kc_init s =
     (case au_keycloak s of
        Some k \<Rightarrow> (s, Inr k)
      | None \<Rightarrow>
        (let use = (\<lambda>k. (s\<lparr>au_keycloak := Some k\<rparr>, Inr k));
             real = (case loadAppConfig url_protocol fetch (au_config s) of
               (cs, Inl e) \<Rightarrow> (s\<lparr>au_config := cs\<rparr>, Inl e)
             | (cs, Inr c) \<Rightarrow>
                 (case kc_init (cf_keycloak c) of
                    Inl e \<Rightarrow> (s\<lparr>au_config := cs\<rparr>, Inl e)
                  | Inr k \<Rightarrow> (s\<lparr>au_config := cs, au_keycloak := Some k\<rparr>, Inr k)))
         in case ae_injected env of
              Some j \<Rightarrow>
                (if \<not> ae_production env \<and> ij_authenticated j then use (fakeSession (ij_token j) (ij_claims j))
                 else if \<not> ae_production env \<and> ae_devNoAuth env
                 then use (fakeSession (Some ''dev'') (Some dev_claims)) else real)
            | None \<Rightarrow>
                (if \<not> ae_production env \<and> ae_devNoAuth env
                 then use (fakeSession (Some ''dev'') (Some dev_claims)) else real)))"

section \<open>Tokens\<close>

text \<open>A refresh of the adapter; the stand-in's \<open>updateToken\<close> always succeeds and changes nothing.\<close>

definition update_token ::
  "(int \<Rightarrow> keycloak \<Rightarrow> string + keycloak) \<Rightarrow> int \<Rightarrow> keycloak \<Rightarrow> string + keycloak" where
  "update_token adapter n k = (if kc_fake k then Inr k else adapter n k)"

datatype api_error = SessionExpired | ApiError int string | NetworkError string

definition getToken ::
  "(int \<Rightarrow> keycloak \<Rightarrow> string + keycloak) \<Rightarrow> bool \<Rightarrow> auth_state \<Rightarrow> auth_state \<times> (api_error + string)" where
  "getToken adapter forceRefresh s =
     (case au_keycloak s of
        None \<Rightarrow> (s, Inl SessionExpired)
      | Some k \<Rightarrow>
        (if \<not> kc_authenticated k then (s, Inl SessionExpired)
         else (let n = (if forceRefresh then -1 else 30);
                   s1 = s\<lparr>au_updates := au_updates s @ [n]\<rparr>;
                   login = (\<lambda>s. (s\<lparr>au_logins := Suc (au_logins s)\<rparr>, Inl SessionExpired))
               in case update_token adapter n k of
                    Inl e \<Rightarrow> login s1
                  | Inr k' \<Rightarrow>
                      (let s2 = s1\<lparr>au_keycloak := Some k'\<rparr> in
                       case kc_token k' of
                         None \<Rightarrow> login s2
                       | Some t \<Rightarrow> (if t = [] then login s2 else (s2, Inr t))))))"

definition signOut :: "string \<Rightarrow> auth_state \<Rightarrow> auth_state" where
  "signOut origin s =
     (case au_keycloak s of
        Some k \<Rightarrow> (if kc_fake k then s else s\<lparr>au_logouts := au_logouts s @ [origin @ ''/'']\<rparr>)
      | None \<Rightarrow> s\<lparr>au_logouts := au_logouts s @ [''/'']\<rparr>)"

record user =
  us_name :: string
  us_email :: string

fun first_text :: "claims \<Rightarrow> string list \<Rightarrow> string \<Rightarrow> string" where
  "first_text c [] dflt = dflt"
| "first_text c (k # ks) dflt =
     (case map_of c k of
        Some (x # xs) \<Rightarrow> x # xs
      | _ \<Rightarrow> first_text c ks dflt)"

definition useUser :: "auth_state \<Rightarrow> user option" where
  "useUser s =
     (case au_keycloak s of
        None \<Rightarrow> None
      | Some k \<Rightarrow>
        (case kc_claims k of
           None \<Rightarrow> None
         | Some c \<Rightarrow>
             (if \<not> kc_authenticated k then None
              else Some \<lparr>us_name = first_text c [''name'', ''preferred_username'', ''sub''] ''User'',
                         us_email = first_text c [''email''] []\<rparr>)))"

section \<open>Requests\<close>

record request =
  rq_method :: string
  rq_path :: string
  rq_token :: string
  rq_body :: "string option"

record reply =
  rp_status :: int
  rp_text :: "string option"
  rp_json :: "string + string"

text \<open>
  What a call of \<open>request\<close> did: the result, the session after it, the requests it sent, in order.
  The server answers the \<open>n\<close>-th of them with \<open>net n\<close>, Inl when \<open>fetch\<close> itself rejects.
  \<open>rp_text\<close> is None when reading the body fails.
\<close>

definition exec ::
  "(int \<Rightarrow> keycloak \<Rightarrow> string + keycloak) \<Rightarrow> (nat \<Rightarrow> request \<Rightarrow> string + reply) \<Rightarrow> string \<Rightarrow> string \<Rightarrow> string option
    \<Rightarrow> bool \<Rightarrow> auth_state \<times> request list \<Rightarrow> (auth_state \<times> request list) \<times> (api_error + reply)" where
  "exec adapter net meth path body forceRefresh st =
     (case getToken adapter forceRefresh (fst st) of
        (s, Inl e) \<Rightarrow> ((s, snd st), Inl e)
      | (s, Inr t) \<Rightarrow>
          (let q = \<lparr>rq_method = meth, rq_path = path, rq_token = ''Bearer '' @ t, rq_body = body\<rparr>;
               sent = snd st @ [q]
           in case net (length (snd st)) q of
                Inl e \<Rightarrow> ((s, sent), Inl (NetworkError e))
              | Inr r \<Rightarrow> ((s, sent), Inr r)))"

definition finish :: "string \<Rightarrow> string \<Rightarrow> reply \<Rightarrow> api_error + string option" where
  "finish meth path resp =
     (if \<not> (200 \<le> rp_status resp \<and> rp_status resp < 300)
      then Inl (ApiError (rp_status resp)
        (meth @ '' '' @ path @ '' failed ('' @ int_str (rp_status resp) @ ''): ''
          @ js_trim (case rp_text resp of None \<Rightarrow> [] | Some t \<Rightarrow> t)))
      else if rp_status resp = 204 then Inr None
      else case rp_json resp of Inl e \<Rightarrow> Inl (NetworkError e) | Inr j \<Rightarrow> Inr (Some j))"

definition request_run ::
  "(int \<Rightarrow> keycloak \<Rightarrow> string + keycloak) \<Rightarrow> (nat \<Rightarrow> request \<Rightarrow> string + reply) \<Rightarrow> string \<Rightarrow> string \<Rightarrow> string option
    \<Rightarrow> auth_state \<Rightarrow> (auth_state \<times> request list) \<times> (api_error + string option)" where
  "request_run adapter net meth path body s =
     (case exec adapter net meth path body False (s, []) of
        (st, Inl e) \<Rightarrow> (st, Inl e)
      | (st, Inr resp) \<Rightarrow>
          (if rp_status resp = 401
           then (case exec adapter net meth path body True st of
                   (st2, Inl e) \<Rightarrow> (st2, Inl e)
                 | (st2, Inr resp2) \<Rightarrow> (st2, finish meth path resp2))
           else (st, finish meth path resp)))"

section \<open>Bootstrap\<close>

datatype boot = BootError string | Rendered document

definition bootstrap_message :: string where
  "bootstrap_message = ''The app could not load its runtime configuration or reach the login service. ''
     @ ''Check that /config.json is valid and Keycloak is reachable, then reload.''"

definition renderBootstrapError :: "string \<Rightarrow> 'e ui" where
  "renderBootstrapError message =
     El ''div'' [(''role'', ''alert'')] []
       [El ''h1'' [] [] [Txt ''Unable to start''], El ''p'' [] [] [Txt message]]"

definition main_boot ::
  "auth_env \<Rightarrow> (string \<Rightarrow> string option) \<Rightarrow> (nat \<Rightarrow> string + config_response) \<Rightarrow>
   (keycloak_config \<Rightarrow> string + keycloak) \<Rightarrow> document \<Rightarrow> auth_state \<Rightarrow> auth_state \<times> boot" where
  "main_boot env url_protocol fetch kc_init doc s =
     (case initKeycloak env url_protocol fetch kc_init s of
        (s1, Inl e) \<Rightarrow> (s1, BootError bootstrap_message)
      | (s1, Inr k) \<Rightarrow>
          (case loadAppConfig url_protocol fetch (au_config s1) of
             (cs, Inl e) \<Rightarrow> (s1\<lparr>au_config := cs\<rparr>, Rendered doc)
           | (cs, Inr c) \<Rightarrow> (s1\<lparr>au_config := cs\<rparr>, Rendered (applyAppConfig c doc))))"

section \<open>Lemmas\<close>

text \<open>A production build ignores both bypasses: the session comes from the adapter's own login.\<close>

lemma initKeycloak_production:
  assumes "ae_production env" and "au_keycloak s = None"
    and "initKeycloak env up fetch kc_init s = (s', Inr k)"
  shows "\<exists>c. cs_config (au_config s') = Some c \<and> kc_init (cf_keycloak c) = Inr k"
proof -
  have "cs_config cs = Some c" if "loadAppConfig up fetch (au_config s) = (cs, Inr c)" for cs c
    using that by (auto simp: loadAppConfig_def Let_def split: option.splits sum.splits if_splits)
  with assms show ?thesis
    by (auto simp: initKeycloak_def Let_def split: option.splits prod.splits sum.splits)
qed

lemma initKeycloak_cached:
  "initKeycloak env up fetch kc_init s = (s', Inr k) \<Longrightarrow> au_keycloak s' = Some k"
  by (auto simp: initKeycloak_def Let_def split: option.splits prod.splits sum.splits if_splits)

text \<open>
  \<open>getToken\<close> never hands out an empty or unrefreshed token: the refresh is asked for exactly once, with
  the minimum validity of the call, and every failure sends the user to the login page.
\<close>

lemma getToken_ok:
  assumes "getToken adapter force s = (s', Inr t)"
  shows "t \<noteq> [] \<and> au_updates s' = au_updates s @ [if force then -1 else 30] \<and> au_logins s' = au_logins s \<and>
    (\<exists>k k'. au_keycloak s = Some k \<and> kc_authenticated k \<and>
       update_token adapter (if force then -1 else 30) k = Inr k' \<and> kc_token k' = Some t \<and>
       au_keycloak s' = Some k')"
  using assms by (auto simp: getToken_def Let_def split: option.splits sum.splits if_splits)

lemma getToken_error:
  assumes "getToken adapter force s = (s', Inl e)"
  shows "e = SessionExpired \<and>
    (au_logins s' = Suc (au_logins s) \<or> (s' = s \<and> (\<forall>k. au_keycloak s = Some k \<longrightarrow> \<not> kc_authenticated k)))"
  using assms by (auto simp: getToken_def Let_def split: option.splits sum.splits if_splits)

definition bearer :: "string \<Rightarrow> string \<Rightarrow> string option \<Rightarrow> string \<Rightarrow> request" where
  "bearer m p b t = \<lparr>rq_method = m, rq_path = p, rq_token = ''Bearer '' @ t, rq_body = b\<rparr>"

lemma bearer_simps [simp]:
  "rq_method (bearer m p b t) = m" "rq_path (bearer m p b t) = p" "rq_body (bearer m p b t) = b"
  by (simp_all add: bearer_def)

lemma exec_sent:
  assumes "exec adapter net m p b force (s, sent) = ((s', sent'), res)"
  shows "(sent' = sent \<and> res = Inl SessionExpired) \<or>
    (\<exists>t. sent' = sent @ [bearer m p b t] \<and> getToken adapter force s = (s', Inr t) \<and>
       res = (case net (length sent) (bearer m p b t) of Inl e \<Rightarrow> Inl (NetworkError e) | Inr r \<Rightarrow> Inr r))"
proof (cases "getToken adapter force s")
  case (Pair s1 r)
  then show ?thesis
  proof (cases r)
    case (Inl e)
    with Pair getToken_error [of adapter force s s1 e] assms show ?thesis by (auto simp: exec_def)
  next
    case (Inr t)
    with Pair assms show ?thesis by (auto simp: exec_def bearer_def Let_def split: sum.splits)
  qed
qed

text \<open>At most two requests, the second only after a 401, with a token that was forcibly refreshed.\<close>

lemma request_run_sent:
  assumes "request_run adapter net m p b s = ((s', sent), res)"
  shows "length sent \<le> 2 \<and> (\<forall>q \<in> set sent. rq_method q = m \<and> rq_path q = p \<and> rq_body q = b) \<and>
    (\<forall>q0 q1. sent = [q0, q1] \<longrightarrow>
       (\<exists>r. net 0 q0 = Inr r \<and> rp_status r = 401) \<and>
       au_updates s' = au_updates s @ [30, -1])"
proof -
  obtain s1 sent1 r1 where e1: "exec adapter net m p b False (s, []) = ((s1, sent1), r1)"
    by (metis prod.exhaust)
  show ?thesis
  proof (cases "\<exists>r. r1 = Inr r \<and> rp_status r = 401")
    case False
    with e1 assms have "sent = sent1"
      by (cases r1) (auto simp: request_run_def split: if_splits)
    with exec_sent [OF e1] show ?thesis by auto
  next
    case True
    then obtain r where r: "r1 = Inr r" "rp_status r = 401" by blast
    obtain s2 sent2 r2 where e2: "exec adapter net m p b True (s1, sent1) = ((s2, sent2), r2)"
      by (metis prod.exhaust)
    from e1 e2 r assms have eq: "s' = s2" "sent = sent2"
      by (auto simp: request_run_def split: sum.splits)
    from exec_sent [OF e1] r obtain t where
      t: "sent1 = [bearer m p b t]" "getToken adapter False s = (s1, Inr t)"
        and net: "Inr r = (case net 0 (bearer m p b t) of Inl e \<Rightarrow> Inl (NetworkError e) | Inr r \<Rightarrow> Inr r)"
      by auto
    from net have net0: "net 0 (bearer m p b t) = Inr r" by (cases "net 0 (bearer m p b t)") auto
    from exec_sent [OF e2] consider "sent2 = sent1" |
      u where "sent2 = sent1 @ [bearer m p b u]" "getToken adapter True s1 = (s2, Inr u)" by blast
    then show ?thesis
    proof cases
      case 1
      with eq t show ?thesis by simp
    next
      case 2
      with eq t r net0 getToken_ok [OF t(2)] getToken_ok [OF 2(2)] show ?thesis by simp
    qed
  qed
qed

lemma finish_ok: "finish m p r = Inr v \<Longrightarrow> 200 \<le> rp_status r \<and> rp_status r < 300 \<and> (v = None \<longleftrightarrow> rp_status r = 204)"
  by (auto simp: finish_def split: if_splits sum.splits)

lemma finish_body: "finish m p r = Inr (Some j) \<Longrightarrow> rp_json r = Inr j"
  by (auto simp: finish_def split: if_splits sum.splits)

text \<open>Branding is best effort: once the session is there, the app renders.\<close>

lemma main_boot_renders:
  "(\<exists>d s'. main_boot env up fetch kc_init doc s = (s', Rendered d)) \<longleftrightarrow>
     (\<exists>k s'. initKeycloak env up fetch kc_init s = (s', Inr k))"
  by (auto simp: main_boot_def split: prod.splits sum.splits)

lemma useUser_name: "useUser s = Some u \<Longrightarrow> us_name u \<noteq> []"
  by (auto simp: useUser_def split: option.splits if_splits list.splits)

end
