(* ===== verification/KeyManager.thy ===== *)
theory KeyManager
  imports Auth Theme Format
begin

text \<open>
  The key manager's page: \<open>store/\<close>, \<open>hooks/useApiKeys.ts\<close>, \<open>hooks/useModels.ts\<close>, the dialogs, the key
  table, the error banner and the top bar.  The page's state is one record (atoms, form fields,
  mutations in flight); its events are a datatype, used both as handlers in the element trees and as
  labels of the step relation.
\<close>

section \<open>Data\<close>

record user_key =
  uk_clientId :: string
  uk_creator :: string
  uk_description :: string
  uk_createdAt :: string
  uk_modelName :: string
  uk_namespace :: string

record raw_model =
  rm_Name :: string
  rm_Namespace :: string
  rm_ModelName :: string
  rm_Public :: bool
  rm_Groups :: "string list option"
  rm_Passthrough :: bool
  rm_Provider :: string

record km_model =
  km_name :: string
  km_namespace :: string

datatype dialog_state = NoDialog | CreateDialog | CreatedDialog string string | RevokeDialog user_key

definition useApiKeys :: "user_key list option \<Rightarrow> user_key list" where
  "useApiKeys d = (case d of None \<Rightarrow> [] | Some ks \<Rightarrow> ks)"

definition useModels :: "raw_model list option \<Rightarrow> km_model list" where
  "useModels d = map (\<lambda>m. \<lparr>km_name = rm_Name m, km_namespace = rm_Namespace m\<rparr>)
     (case d of None \<Rightarrow> [] | Some ms \<Rightarrow> ms)"

definition revoke_path :: "user_key \<Rightarrow> string" where
  "revoke_path k = ''/api/keys/'' @ encode_uri_component (uk_namespace k) @ ''/''
     @ encode_uri_component (uk_modelName k) @ ''/'' @ encode_uri_component (uk_clientId k)"

section \<open>State and events\<close>

record page =
  pg_dialog :: dialog_state
  pg_error :: "string option"
  pg_modelName :: string
  pg_description :: string
  pg_fieldError :: "string option"
  pg_copied :: bool
  pg_creating :: "(string \<times> string) option"
  pg_revoking :: "user_key option"
  pg_invalidations :: nat

definition page_init :: page where
  "page_init = \<lparr>pg_dialog = NoDialog, pg_error = None, pg_modelName = [], pg_description = [],
     pg_fieldError = None, pg_copied = False, pg_creating = None, pg_revoking = None,
     pg_invalidations = 0\<rparr>"

datatype km_event = OpenCreate | OpenRevoke user_key | CloseCreate | CloseCreated | CloseRevoke
  | PickModel "string option" | TypeDescription string | Submit | ConfirmRevoke
  | CopyKey | DownloadKey | DismissError | PickTheme string | SignOut | SelectText

definition close_create :: "page \<Rightarrow> page" where
  "close_create s = s\<lparr>pg_dialog := NoDialog, pg_modelName := [], pg_description := [], pg_fieldError := None\<rparr>"

definition on_submit :: "page \<Rightarrow> page" where
  "on_submit s =
     (let s1 = s\<lparr>pg_fieldError := None\<rparr> in
      if pg_modelName s1 = [] then s1\<lparr>pg_fieldError := Some ''Please select a model.''\<rparr>
      else s1\<lparr>pg_creating := Some (pg_modelName s1, js_trim (pg_description s1))\<rparr>)"

text \<open>The rest of \<open>onSubmit\<close> once the mutation settles: the new client id and key, or a message.\<close>

definition create_reply :: "string + string \<times> string \<Rightarrow> page \<Rightarrow> page" where
  "create_reply reply s =
     (let s1 = s\<lparr>pg_creating := None\<rparr> in
      case reply of
        Inl e \<Rightarrow> s1\<lparr>pg_fieldError := Some (''Failed to create key: '' @ e)\<rparr>
      | Inr (clientId, apiKey) \<Rightarrow>
          s1\<lparr>pg_invalidations := Suc (pg_invalidations s1),
             pg_dialog := CreatedDialog clientId apiKey, pg_modelName := [], pg_description := []\<rparr>)"

definition close_created :: "page \<Rightarrow> page" where
  "close_created s = s\<lparr>pg_dialog := NoDialog, pg_copied := False\<rparr>"

definition copy_key :: "bool \<Rightarrow> page \<Rightarrow> page" where
  "copy_key ok s = (if ok then s\<lparr>pg_copied := True\<rparr> else s)"

definition copy_timeout :: "page \<Rightarrow> page" where
  "copy_timeout s = s\<lparr>pg_copied := False\<rparr>"

definition close_revoke :: "page \<Rightarrow> page" where
  "close_revoke s = s\<lparr>pg_dialog := NoDialog\<rparr>"

definition confirm_revoke :: "page \<Rightarrow> page" where
  "confirm_revoke s =
     (case pg_dialog s of RevokeDialog k \<Rightarrow> s\<lparr>pg_revoking := Some k\<rparr> | _ \<Rightarrow> s)"

definition revoke_reply :: "string + unit \<Rightarrow> page \<Rightarrow> page" where
  "revoke_reply reply s =
     (let s1 = s\<lparr>pg_revoking := None\<rparr> in
      case reply of
        Inr u \<Rightarrow> close_revoke (s1\<lparr>pg_invalidations := Suc (pg_invalidations s1)\<rparr>)
      | Inl e \<Rightarrow> (close_revoke s1)\<lparr>pg_error := Some (''Failed to revoke key: '' @ e)\<rparr>)"

definition pick_model :: "string option \<Rightarrow> page \<Rightarrow> page" where
  "pick_model v s = s\<lparr>pg_modelName := (case v of None \<Rightarrow> [] | Some m \<Rightarrow> m)\<rparr>"

definition download_contents :: "string \<Rightarrow> string \<Rightarrow> string" where
  "download_contents clientId apiKey =
     ''Client ID: '' @ clientId @ [char_lf] @ ''API Key: '' @ apiKey @ [char_lf]"

definition download_name :: "string \<Rightarrow> string" where
  "download_name clientId = (if clientId = [] then ''api-key'' else clientId) @ ''.txt''"

text \<open>
  Dialogs are modal: the page's buttons are reachable only with none open, and each mutation's button
  is disabled while it is pending.
\<close>

inductive km_step :: "km_model list \<Rightarrow> user_key list \<Rightarrow> page \<Rightarrow> page \<Rightarrow> bool" for models ks where
  OpenCreate: "pg_dialog s = NoDialog \<Longrightarrow> km_step models ks s (s\<lparr>pg_dialog := CreateDialog\<rparr>)"
| OpenRevoke: "pg_dialog s = NoDialog \<Longrightarrow> k \<in> set ks \<Longrightarrow> km_step models ks s (s\<lparr>pg_dialog := RevokeDialog k\<rparr>)"
| CloseCreate: "pg_dialog s = CreateDialog \<Longrightarrow> km_step models ks s (close_create s)"
| PickModel: "pg_dialog s = CreateDialog \<Longrightarrow> v \<in> insert None (Some ` km_name ` set models) \<Longrightarrow>
    km_step models ks s (pick_model v s)"
| TypeDescription: "pg_dialog s = CreateDialog \<Longrightarrow> length d \<le> 200 \<Longrightarrow>
    km_step models ks s (s\<lparr>pg_description := d\<rparr>)"
| Submit: "pg_dialog s = CreateDialog \<Longrightarrow> pg_creating s = None \<Longrightarrow> km_step models ks s (on_submit s)"
| CreateReply: "pg_creating s \<noteq> None \<Longrightarrow> km_step models ks s (create_reply r s)"
| CloseCreated: "pg_dialog s = CreatedDialog i a \<Longrightarrow> km_step models ks s (close_created s)"
| Copy: "pg_dialog s = CreatedDialog i a \<Longrightarrow> km_step models ks s (copy_key ok s)"
| CopyTimeout: "km_step models ks s (copy_timeout s)"
| CloseRevoke: "pg_dialog s = RevokeDialog k \<Longrightarrow> km_step models ks s (close_revoke s)"
| Confirm: "pg_dialog s = RevokeDialog k \<Longrightarrow> pg_revoking s = None \<Longrightarrow> km_step models ks s (confirm_revoke s)"
| RevokeReply: "pg_revoking s \<noteq> None \<Longrightarrow> km_step models ks s (revoke_reply r s)"
| DismissError: "km_step models ks s (s\<lparr>pg_error := None\<rparr>)"

inductive km_run :: "km_model list \<Rightarrow> user_key list \<Rightarrow> page \<Rightarrow> bool" for models ks where
  Start: "km_run models ks page_init"
| Step: "km_run models ks s \<Longrightarrow> km_step models ks s s' \<Longrightarrow> km_run models ks s'"

section \<open>Views\<close>

definition KeyRowActions :: "user_key \<Rightarrow> km_event ui" where
  "KeyRowActions k =
     elem ''DropdownMenu''
       [El ''DropdownMenuTrigger'' [(''aria-label'', ''Key actions'')] [] [icon ''MoreVertical''],
        elem ''DropdownMenuPortal'' [El ''DropdownMenuContent'' [(''align'', ''end'')] []
          [elem ''DropdownMenuGroup''
            [tag ''DropdownMenuGroupLabel'' ''Danger'',
             El ''DropdownMenuItem'' [(''variant'', ''destructive'')] [(''onClick'', OpenRevoke k)]
               [icon ''Trash2'', Txt '' Revoke'']]]]]"

datatype 'a query = Loading | Failed "string option" | Loaded "'a"

definition key_row :: "(string \<Rightarrow> int option) \<Rightarrow> (int \<Rightarrow> string) \<Rightarrow> user_key \<Rightarrow> km_event ui" where
  "key_row parse_date date_text k =
     El ''TableRow'' [(''key'', uk_namespace k @ ''/'' @ uk_modelName k @ ''/'' @ uk_clientId k)] []
       [tag ''TableCell'' (if uk_description k = [] then glyph_em_dash else uk_description k),
        tag ''TableCell'' (uk_clientId k),
        tag ''TableCell'' (uk_modelName k),
        tag ''TableCell'' (formatDate parse_date date_text (uk_createdAt k)),
        elem ''TableCell'' [KeyRowActions k]]"

definition KeysCard ::
  "(string \<Rightarrow> int option) \<Rightarrow> (int \<Rightarrow> string) \<Rightarrow> user_key list query \<Rightarrow> km_event ui" where
  "KeysCard parse_date date_text q =
     elem ''section''
       [elem ''div'' [tag ''h2'' ''My API Keys'',
          El ''Button'' [] [(''onClick'', OpenCreate)] [icon ''Plus'', Txt '' Create new key'']],
        (case q of
           Loading \<Rightarrow> tag ''p'' (''Loading keys'' @ glyph_ellipsis)
         | Failed e \<Rightarrow> tag ''p'' (''Failed to load keys: '' @ (case e of None \<Rightarrow> ''unknown error'' | Some m \<Rightarrow> m))
         | Loaded ks \<Rightarrow>
             (if ks = [] then tag ''p'' ''No API keys yet.''
              else El ''Table'' [(''aria-label'', ''My API Keys'')] []
                [elem ''TableHeader'' [elem ''TableRow''
                   [tag ''TableHead'' ''Name / Description'', tag ''TableHead'' ''Client ID'',
                    tag ''TableHead'' ''Model'', tag ''TableHead'' ''Created'', tag ''TableHead'' ''Action'']],
                 elem ''TableBody'' (map (key_row parse_date date_text) ks)]))]"

definition ErrorBanner :: "string option \<Rightarrow> km_event ui list" where
  "ErrorBanner e =
     (case e of None \<Rightarrow> []
      | Some m \<Rightarrow> (if m = [] then []
          else [El ''Alert'' [(''variant'', ''destructive''), (''role'', ''alert'')] []
            [icon ''AlertTriangle'', tag ''AlertDescription'' m,
             El ''Button'' [(''aria-label'', ''Dismiss'')] [(''onClick'', DismissError)] [icon ''X'']]]))"

definition model_items :: "km_model list \<Rightarrow> (string \<times> string) list" where
  "model_items ms = map (\<lambda>m. (km_name m,
     if km_namespace m \<noteq> [] then km_namespace m @ ''/'' @ km_name m else km_name m)) ms"

definition select_label :: "km_model list \<Rightarrow> string \<Rightarrow> string" where
  "select_label ms v = (case find (\<lambda>i. fst i = v) (model_items ms) of None \<Rightarrow> ''Select a model'' | Some i \<Rightarrow> snd i)"

definition CreateKeyDialog :: "km_model list option \<Rightarrow> page \<Rightarrow> km_event ui" where
  "CreateKeyDialog models s =
     (let ms = (case models of None \<Rightarrow> [] | Some m \<Rightarrow> m);
          pending = (pg_creating s \<noteq> None)
      in El ''Dialog'' [(''open'', bool_str (pg_dialog s = CreateDialog))] [(''onClose'', CloseCreate)]
        [elem ''DialogContent''
          [elem ''DialogHeader'' [tag ''DialogTitle'' ''Create API Key''],
           El ''form'' [] [(''onSubmit'', Submit)]
             ([elem ''div''
                [El ''Label'' [(''htmlFor'', ''model-select'')] [] [Txt ''Model''],
                 El ''Select'' [(''value'', pg_modelName s)]
                   (map (\<lambda>i. (fst i, PickModel (Some (fst i)))) (model_items ms))
                   [El ''SelectTrigger'' [(''id'', ''model-select'')] []
                      [tag ''SelectValue'' (select_label ms (pg_modelName s))],
                    elem ''SelectContent'' (map (\<lambda>i. El ''SelectItem'' [(''value'', fst i)] [] [Txt (snd i)]) (model_items ms))]],
               elem ''div''
                [El ''Label'' [(''htmlFor'', ''description-input'')] [] [Txt ''Description''],
                 El ''Input'' [(''id'', ''description-input''), (''value'', pg_description s), (''maxLength'', ''200''),
                   (''placeholder'', ''e.g. Research notebook'')] [] []]]
              @ (case pg_fieldError s of None \<Rightarrow> [] | Some e \<Rightarrow> only_if (e \<noteq> []) (tag ''p'' e)) @
              [elem ''DialogFooter''
                [El ''Button'' [(''type'', ''button'')] [(''onClick'', CloseCreate)] [Txt ''Cancel''],
                 El ''Button'' [(''type'', ''submit''), (''disabled'', bool_str pending)] []
                   [Txt (if pending then ''Creating'' @ glyph_ellipsis else ''Create'')]]])]])"

definition KeyCreatedDialog :: "page \<Rightarrow> km_event ui" where
  "KeyCreatedDialog s =
     (let clientId = (case pg_dialog s of CreatedDialog i a \<Rightarrow> i | _ \<Rightarrow> []);
          apiKey = (case pg_dialog s of CreatedDialog i a \<Rightarrow> a | _ \<Rightarrow> []);
          shown = (case pg_dialog s of CreatedDialog i a \<Rightarrow> True | _ \<Rightarrow> False)
      in El ''Dialog'' [(''open'', bool_str shown)] [(''onClose'', CloseCreated)]
        [elem ''DialogContent''
          [elem ''DialogHeader'' [tag ''DialogTitle'' ''API Key Created''],
           elem ''div''
            [elem ''div''
               [El ''Label'' [(''htmlFor'', ''created-client-id'')] [] [Txt ''Client ID''],
                El ''Input'' [(''id'', ''created-client-id''), (''value'', clientId), (''readOnly'', ''true'')] [] []],
             elem ''div''
               [El ''Label'' [(''htmlFor'', ''created-api-key'')] [] [Txt ''API Key''],
                elem ''div''
                  [El ''Input'' [(''id'', ''created-api-key''), (''value'', apiKey), (''readOnly'', ''true'')]
                     [(''onFocus'', SelectText)] [],
                   El ''Button'' [(''type'', ''button'')] [(''onClick'', CopyKey)]
                     [icon (if pg_copied s then ''Check'' else ''Copy''),
                      Txt (if pg_copied s then ''Copied!'' else ''Copy'')]]],
             El ''Alert'' [(''variant'', ''destructive'')] []
               [icon ''AlertTriangle'',
                tag ''AlertDescription'' ''Copy this key now. It will not be shown again.''],
             tag ''p'' (''For security reasons, this key is only displayed once and cannot be retrieved later. If ''
               @ ''you lose it, you'' @ [char_apos] @ ''ll need to create a new one.'')],
           elem ''DialogFooter''
            [El ''Button'' [(''type'', ''button'')] [(''onClick'', DownloadKey)]
               [icon ''Download'', Txt '' Download .txt''],
             El ''Button'' [(''type'', ''button'')] [(''onClick'', CloseCreated)]
               [icon ''Check'', Txt ('' I'' @ [char_apos] @ ''ve copied my key'')]]]])"

definition revoke_label :: "dialog_state \<Rightarrow> string" where
  "revoke_label d =
     (case d of
        RevokeDialog k \<Rightarrow> (if uk_description k \<noteq> [] then uk_description k else uk_clientId k)
      | _ \<Rightarrow> [])"

definition RevokeKeyDialog :: "page \<Rightarrow> km_event ui" where
  "RevokeKeyDialog s =
     (let shown = (case pg_dialog s of RevokeDialog k \<Rightarrow> True | _ \<Rightarrow> False);
          pending = (pg_revoking s \<noteq> None)
      in El ''Dialog'' [(''open'', bool_str shown)] [(''onClose'', CloseRevoke)]
        [elem ''DialogContent''
          [elem ''DialogHeader''
             [tag ''DialogTitle'' ''Revoke API Key?'',
              tag ''DialogDescription'' (''This permanently disables '' @ [char_quot] @ revoke_label (pg_dialog s) @ [char_quot]
                @ ''. Any application using this key will immediately lose access. This can'' @ [char_apos]
                @ ''t be undone.'')],
           elem ''DialogFooter''
             [El ''Button'' [(''type'', ''button'')] [(''onClick'', CloseRevoke)] [Txt ''Cancel''],
              El ''Button'' [(''type'', ''button''), (''disabled'', bool_str pending)] [(''onClick'', ConfirmRevoke)]
                [icon ''Trash2'', Txt ('' '' @ (if pending then ''Revoking'' @ glyph_ellipsis else ''Revoke Key''))]]]])"

definition text_or :: "string option \<Rightarrow> string \<Rightarrow> string" where
  "text_or v dflt = (case v of None \<Rightarrow> dflt | Some s \<Rightarrow> if s = [] then dflt else s)"

definition logo_src :: "app_config option \<Rightarrow> bool \<Rightarrow> string" where
  "logo_src branding dark =
     (let logo = (case branding of None \<Rightarrow> None | Some c \<Rightarrow> cf_logoUrl c);
          logoDark = (case branding of None \<Rightarrow> None | Some c \<Rightarrow> cf_logoUrlDark c)
      in if dark then (case logoDark of Some u \<Rightarrow> u
             | None \<Rightarrow> (case logo of Some u \<Rightarrow> u | None \<Rightarrow> ''/nebari-logo_dark.svg''))
         else (case logo of Some u \<Rightarrow> u | None \<Rightarrow> ''/nebari-logo.svg''))"

definition ThemeOption :: "string \<Rightarrow> string \<Rightarrow> string \<Rightarrow> string \<Rightarrow> string \<Rightarrow> km_event ui" where
  "ThemeOption current_mode v label text ic =
     El ''RadioItem'' [(''value'', v), (''aria-label'', label), (''title'', label), (''closeOnClick'', ''false''),
        (''checked'', bool_str (v = current_mode))] [(''onSelect'', PickTheme v)]
       [icon ic, tag ''span'' text]"

definition Topbar :: "user option \<Rightarrow> theme \<Rightarrow> app_config option \<Rightarrow> km_event ui" where
  "Topbar u th branding =
     (let name = map_option us_name u; email = map_option us_email u;
          display = text_or name (text_or email ''Account'')
      in elem ''NavigationMenu''
        [El ''MenuBarBrand'' [(''href'', ''/''), (''aria-label'', ''Go to homepage'')] []
           [El ''img'' [(''src'', logo_src branding (tm_isDarkMode th)),
              (''alt'', text_or (case branding of None \<Rightarrow> None | Some c \<Rightarrow> cf_title c) ''Nebari'')] [] []],
         elem ''MenuBarActions''
          [elem ''DropdownMenu''
            [El ''DropdownMenuTrigger'' [(''aria-label'', ''Account menu'')] []
               [elem ''Avatar'' [tag ''AvatarFallback'' (userInitials name email)],
                tag ''span'' display, icon ''ChevronDown''],
             elem ''DropdownMenuPortal'' [elem ''DropdownMenuContent''
               [elem ''div'' ([tag ''p'' (text_or name ''Signed in'')]
                  @ (case email of None \<Rightarrow> [] | Some e \<Rightarrow> only_if (e \<noteq> []) (tag ''p'' e))),
                elem ''div'' [El ''RadioGroup'' [(''aria-label'', ''Theme''), (''value'', tm_themeMode th)] []
                  [ThemeOption (tm_themeMode th) ''light'' ''Light mode'' ''Light'' ''Sun'',
                   ThemeOption (tm_themeMode th) ''dark'' ''Dark mode'' ''Dark'' ''Moon'',
                   ThemeOption (tm_themeMode th) ''system'' ''System theme'' ''System'' ''Monitor'']],
                icon ''DropdownMenuSeparator'',
                El ''DropdownMenuItem'' [] [(''onClick'', SignOut)] [icon ''LogOut'', Txt ''Sign out'']]]]]])"

definition KeyManagerApp ::
  "(string \<Rightarrow> int option) \<Rightarrow> (int \<Rightarrow> string) \<Rightarrow> user option \<Rightarrow> theme \<Rightarrow> app_config option
    \<Rightarrow> user_key list query \<Rightarrow> km_model list option \<Rightarrow> page \<Rightarrow> km_event ui" where
  "KeyManagerApp parse_date date_text u th branding q models s =
     elem ''div''
       [Topbar u th branding,
        elem ''main'' ([elem ''header'' [tag ''h1'' ''LLM API Key Manager'',
            tag ''p'' (''View and manage your API keys. Do not share your API keys with others or expose them in ''
              @ ''the browser or shared repositories.'')]]
          @ ErrorBanner (pg_error s) @ [KeysCard parse_date date_text q]),
        CreateKeyDialog models s, KeyCreatedDialog s, RevokeKeyDialog s]"

text \<open>The theme picker only stores known modes.\<close>

definition pick_theme :: "string \<Rightarrow> theme_store \<Rightarrow> theme_store" where
  "pick_theme v s = (if isThemeMode v then writeStoredMode THEME_STORAGE_KEY v s else s)"

section \<open>Lemmas\<close>

text \<open>The three segments of the revoke path decode to the key they came from.\<close>

definition path_segments :: "string \<Rightarrow> string list" where
  "path_segments p = map pct_decode (split_chars (\<lambda>c. c = CHR ''/'') p)"

lemma revoke_path_segments:
  "path_segments (revoke_path k) =
     [[], ''api'', ''keys'', uk_namespace k, uk_modelName k, uk_clientId k]"
proof -
  let ?xs = "[[], ''api'', ''keys'', encode_uri_component (uk_namespace k),
    encode_uri_component (uk_modelName k), encode_uri_component (uk_clientId k)]"
  have path: "revoke_path k = join_str ''/'' ?xs" by (simp add: revoke_path_def)
  have "CHR ''/'' \<notin> set (encode_uri_component t)" for t using encode_uri_no_delim [of t] by auto
  then have "split_chars (\<lambda>c. c = CHR ''/'') (revoke_path k) = ?xs"
    unfolding path by (intro split_chars_join) auto
  then show ?thesis by (simp add: path_segments_def)
qed

definition page_inv :: "km_model list \<Rightarrow> user_key list \<Rightarrow> page \<Rightarrow> bool" where
  "page_inv models ks s \<longleftrightarrow>
     (pg_modelName s \<noteq> [] \<longrightarrow> pg_modelName s \<in> km_name ` set models) \<and>
     length (pg_description s) \<le> 200 \<and>
     (\<forall>m d. pg_creating s = Some (m, d) \<longrightarrow> m \<noteq> [] \<and> m \<in> km_name ` set models \<and> length d \<le> 200) \<and>
     (\<forall>k. pg_revoking s = Some k \<or> pg_dialog s = RevokeDialog k \<longrightarrow> k \<in> set ks) \<and>
     (\<forall>i a. pg_dialog s = CreatedDialog i a \<longrightarrow> pg_creating s = None)"

lemma length_js_trim: "length (js_trim s) \<le> length s"
  by (simp add: js_trim_def le_trans [OF length_dropWhile_le length_dropWhile_le [of is_space s, THEN order_trans]]
      order_trans [OF length_dropWhile_le])

lemma page_inv_step: "km_step models ks s s' \<Longrightarrow> page_inv models ks s \<Longrightarrow> page_inv models ks s'"
proof (induction rule: km_step.induct)
  case (Submit s)
  have "length (js_trim (pg_description s)) \<le> 200"
    using Submit length_js_trim [of "pg_description s"] by (simp add: page_inv_def)
  with Submit show ?case by (simp add: page_inv_def on_submit_def Let_def)
next
  case (CreateReply s r)
  then show ?case by (cases r) (auto simp: page_inv_def create_reply_def Let_def)
next
  case (RevokeReply s r)
  then show ?case by (cases r) (auto simp: page_inv_def revoke_reply_def close_revoke_def Let_def)
qed (auto simp: page_inv_def close_create_def pick_model_def close_created_def copy_key_def
    copy_timeout_def close_revoke_def confirm_revoke_def)

lemma km_run_inv: "km_run models ks s \<Longrightarrow> page_inv models ks s"
proof (induction rule: km_run.induct)
  case Start
  show ?case by (simp add: page_inv_def page_init_def)
qed (rule page_inv_step)

text \<open>How the dialog with the one-time key can go away.\<close>

lemma created_dismissed:
  assumes "km_step models ks s s'" and "page_inv models ks s"
    and "pg_dialog s = CreatedDialog i a" and "pg_dialog s' \<noteq> CreatedDialog i a"
  shows "s' = close_created s \<or> (\<exists>r. pg_revoking s \<noteq> None \<and> s' = revoke_reply r s)"
  using assms
  by (induction rule: km_step.induct)
    (auto simp: page_inv_def copy_key_def copy_timeout_def)

text \<open>The label of a selected model is that of the first one with its name.\<close>

lemma select_label_first:
  "km_name m1 = km_name m2 \<Longrightarrow>
     select_label (m1 # m2 # ms) (km_name m2) = snd (hd (model_items [m1]))"
  by (simp add: select_label_def model_items_def)

lemma KeysCard_actions:
  "ui_actions (KeysCard pd dt (Loaded ks)) = OpenCreate # map OpenRevoke ks"
proof -
  have "ui_actions (key_row pd dt k) = [OpenRevoke k]" for k
    by (simp add: key_row_def KeyRowActions_def)
  then have "concat (map ui_actions (map (key_row pd dt) ks)) = map OpenRevoke ks"
    by (induction ks) simp_all
  then show ?thesis by (simp add: KeysCard_def)
qed

lemma Topbar_actions:
  "ui_actions (Topbar u th b) = [PickTheme ''light'', PickTheme ''dark'', PickTheme ''system'', SignOut]"
  by (cases u) (simp_all add: Topbar_def Let_def ThemeOption_def only_if_def)

text \<open>At most one of the three dialogs is open.\<close>

definition is_open :: "'e ui \<Rightarrow> bool" where
  "is_open u \<longleftrightarrow> ui_attr u ''open'' = Some ''true''"

lemma bool_str_true: "bool_str b = ''true'' \<longleftrightarrow> b"
  by (simp add: bool_str_def)

lemma one_dialog_open:
  "length (filter is_open [CreateKeyDialog models s, KeyCreatedDialog s, RevokeKeyDialog s]) \<le> 1"
  by (cases "pg_dialog s")
    (simp_all add: CreateKeyDialog_def KeyCreatedDialog_def RevokeKeyDialog_def is_open_def ui_attr_def
      Let_def bool_str_true)

lemma pick_theme_valid:
  "\<forall>m. ts_inMemory s k = Some m \<longrightarrow> isThemeMode m \<Longrightarrow> ts_inMemory (pick_theme v s) k = Some m \<Longrightarrow> isThemeMode m"
  by (auto simp: pick_theme_def writeStoredMode_def split: if_splits sum.splits)

section \<open>Late replies\<close>

text \<open>
  The revoke dialog can be closed while its request is in flight; when the answer arrives, \<open>close()\<close>
  closes whatever dialog is open by then, here the one that shows a new key for the only time.
\<close>

lemma created_key_lost_run:
  assumes "k \<in> set ks" and "m \<in> set models" and "km_name m \<noteq> []"
  shows "\<exists>s. km_run models ks s \<and> pg_dialog s = CreatedDialog i a \<and> pg_revoking s = Some k"
proof -
  note step = km_run.Step
  let ?s1 = "page_init\<lparr>pg_dialog := RevokeDialog k\<rparr>"
  have r1: "km_run models ks ?s1"
    by (rule step [OF km_run.Start km_step.OpenRevoke]) (use assms in \<open>simp_all add: page_init_def\<close>)
  have r2: "km_run models ks (close_revoke (confirm_revoke ?s1))"
    by (rule step [OF step [OF r1 km_step.Confirm] km_step.CloseRevoke])
      (simp_all add: page_init_def confirm_revoke_def)
  let ?s2 = "close_revoke (confirm_revoke ?s1)"
  let ?s3 = "pick_model (Some (km_name m)) (?s2\<lparr>pg_dialog := CreateDialog\<rparr>)"
  have r3: "km_run models ks ?s3"
    by (rule step [OF step [OF r2 km_step.OpenCreate] km_step.PickModel])
      (use assms in \<open>simp_all add: close_revoke_def\<close>)
  have r4: "km_run models ks (create_reply (Inr (i, a)) (on_submit ?s3))"
    by (rule step [OF step [OF r3 km_step.Submit] km_step.CreateReply])
      (use assms(3) in \<open>simp_all add: pick_model_def on_submit_def confirm_revoke_def close_revoke_def page_init_def\<close>)
  have "pg_dialog (create_reply (Inr (i, a)) (on_submit ?s3)) = CreatedDialog i a"
    "pg_revoking (create_reply (Inr (i, a)) (on_submit ?s3)) = Some k"
    using assms(3)
    by (simp_all add: create_reply_def on_submit_def pick_model_def close_revoke_def confirm_revoke_def page_init_def)
  with r4 show ?thesis by blast
qed

text \<open>The create dialog can open with the error of a request that was cancelled before it failed.\<close>

lemma stale_field_error_run:
  assumes "m \<in> set models" and "km_name m \<noteq> []"
  shows "\<exists>s. km_run models ks s \<and> pg_dialog s = NoDialog \<and> pg_fieldError s = Some (''Failed to create key: '' @ e)"
proof -
  note step = km_run.Step
  let ?s1 = "pick_model (Some (km_name m)) (page_init\<lparr>pg_dialog := CreateDialog\<rparr>)"
  have r1: "km_run models ks ?s1"
    by (rule step [OF step [OF km_run.Start km_step.OpenCreate] km_step.PickModel])
      (use assms in \<open>simp_all add: page_init_def\<close>)
  have r2: "km_run models ks (close_create (on_submit ?s1))"
    by (rule step [OF step [OF r1 km_step.Submit] km_step.CloseCreate])
      (use assms(2) in \<open>simp_all add: pick_model_def on_submit_def page_init_def\<close>)
  have "km_run models ks (create_reply (Inl e) (close_create (on_submit ?s1)))"
    by (rule step [OF r2 km_step.CreateReply])
      (use assms(2) in \<open>simp_all add: pick_model_def on_submit_def close_create_def page_init_def\<close>)
  moreover have "pg_dialog (create_reply (Inl e) (close_create (on_submit ?s1))) = NoDialog"
    "pg_fieldError (create_reply (Inl e) (close_create (on_submit ?s1))) = Some (''Failed to create key: '' @ e)"
    by (simp_all add: create_reply_def close_create_def)
  ultimately show ?thesis by blast
qed

end
