(* ===== verification/KeyMutations.thy ===== *)
theory KeyMutations
  imports KeyManager
begin

text \<open>
  The key manager's page and its requests together: the mutations and queries of \<open>hooks/useApiKeys.ts\<close>,
  \<open>hooks/useModels.ts\<close> and \<open>hooks/useCurrentUser.ts\<close> on \<open>lib/api.ts\<close> and \<open>auth/keycloak.ts\<close>, the defaults of
  \<open>lib/queryClient.ts\<close>, and what the dialogs make of the answers.  The query library itself is not modelled: a
  mutation is awaited once; what becomes of an invalidated query is the subject of KeyRefetch.
\<close>

section \<open>What a failed request says\<close>

definition session_expired_message :: string where
  "session_expired_message = ''Session expired '' @ glyph_em_dash @ '' redirecting to login''"

definition error_message :: "api_error \<Rightarrow> string" where
  "error_message e = (case e of SessionExpired \<Rightarrow> session_expired_message | ApiError st m \<Rightarrow> m | NetworkError m \<Rightarrow> m)"

section \<open>The API calls\<close>

record create_input =
  ci_modelName :: string
  ci_description :: string

record create_result =
  cr_clientId :: string
  cr_apiKey :: string

text \<open>
  The engine's part: how a body is printed, what the fields of an answer are, and what reading a field of \<open>null\<close> says.
\<close>

record wire =
  wr_body :: "create_input \<Rightarrow> string"
  wr_created :: "string \<Rightarrow> create_result"
  wr_keys :: "string \<Rightarrow> user_key list option"
  wr_models :: "string \<Rightarrow> raw_model list option"
  wr_null_field :: string

type_synonym adapter = "int \<Rightarrow> keycloak \<Rightarrow> string + keycloak"
type_synonym network = "nat \<Rightarrow> request \<Rightarrow> string + reply"

definition api_get :: "adapter \<Rightarrow> network \<Rightarrow> string \<Rightarrow> auth_state \<Rightarrow> (auth_state \<times> request list) \<times> (api_error + string option)" where
  "api_get ad net path s = request_run ad net ''GET'' path None s"

definition api_post ::
  "adapter \<Rightarrow> network \<Rightarrow> string \<Rightarrow> string option \<Rightarrow> auth_state \<Rightarrow> (auth_state \<times> request list) \<times> (api_error + string option)" where
  "api_post ad net path body s = request_run ad net ''POST'' path body s"

definition api_delete :: "adapter \<Rightarrow> network \<Rightarrow> string \<Rightarrow> auth_state \<Rightarrow> (auth_state \<times> request list) \<times> (api_error + string option)" where
  "api_delete ad net path s = request_run ad net ''DELETE'' path None s"

definition apiKeysQueryKey :: "string list" where "apiKeysQueryKey = [''keys'']"
definition modelsQueryKey :: "string list" where "modelsQueryKey = [''models'']"
definition currentUserQueryKey :: "string list" where "currentUserQueryKey = [''me'']"

record query_defaults =
  qd_retry :: bool
  qd_staleTime :: int
  qd_refetchOnWindowFocus :: bool

definition queryClient :: query_defaults where
  "queryClient = \<lparr>qd_retry = False, qd_staleTime = 30000, qd_refetchOnWindowFocus = False\<rparr>"

text \<open>The list of keys, \<open>data.keys ?? []\<close>; a failed fetch is shown with its message (retries are off).\<close>

definition fetch_keys :: "wire \<Rightarrow> adapter \<Rightarrow> network \<Rightarrow> auth_state \<Rightarrow> (auth_state \<times> request list) \<times> user_key list query" where
  "fetch_keys w ad net s =
     (case api_get ad net ''/api/keys'' s of
        (st, Inl e) \<Rightarrow> (st, Failed (Some (error_message e)))
      | (st, Inr None) \<Rightarrow> (st, Failed (Some (wr_null_field w)))
      | (st, Inr (Some j)) \<Rightarrow> (st, Loaded (useApiKeys (wr_keys w j))))"

definition fetch_models :: "wire \<Rightarrow> adapter \<Rightarrow> network \<Rightarrow> auth_state \<Rightarrow> (auth_state \<times> request list) \<times> km_model list query" where
  "fetch_models w ad net s =
     (case api_get ad net ''/api/models'' s of
        (st, Inl e) \<Rightarrow> (st, Failed (Some (error_message e)))
      | (st, Inr None) \<Rightarrow> (st, Failed (Some (wr_null_field w)))
      | (st, Inr (Some j)) \<Rightarrow> (st, Loaded (useModels (wr_models w j))))"

text \<open>\<open>useCreateKey\<close>: the answer as it is, \<open>null\<close> for a 204; success invalidates the list.\<close>

definition useCreateKey ::
  "wire \<Rightarrow> adapter \<Rightarrow> network \<Rightarrow> create_input \<Rightarrow> auth_state
    \<Rightarrow> (auth_state \<times> request list) \<times> (api_error + create_result option)" where
  "useCreateKey w ad net input s =
     (case api_post ad net ''/api/keys'' (Some (wr_body w input)) s of
        (st, Inl e) \<Rightarrow> (st, Inl e)
      | (st, Inr None) \<Rightarrow> (st, Inr None)
      | (st, Inr (Some j)) \<Rightarrow> (st, Inr (Some (wr_created w j))))"

definition useRevokeKey ::
  "adapter \<Rightarrow> network \<Rightarrow> user_key \<Rightarrow> auth_state \<Rightarrow> (auth_state \<times> request list) \<times> (api_error + unit)" where
  "useRevokeKey ad net k s =
     (case api_delete ad net (revoke_path k) s of
        (st, Inl e) \<Rightarrow> (st, Inl e)
      | (st, Inr j) \<Rightarrow> (st, Inr ()))"

section \<open>The dialogs with their requests\<close>

text \<open>
  A submit of the create dialog.  Its input is what the fields held when it was sent; \<open>later\<close> is the page as it is when
  the answer comes in, after whatever the user did meanwhile.  A \<open>null\<close> answer fails at \<open>result.clientId\<close>, after the
  mutation has succeeded.
\<close>

definition create_input_of :: "page \<Rightarrow> create_input" where
  "create_input_of pg = \<lparr>ci_modelName = pg_modelName pg, ci_description = js_trim (pg_description pg)\<rparr>"

definition create_settled :: "wire \<Rightarrow> api_error + create_result option \<Rightarrow> page \<Rightarrow> page" where
  "create_settled w res later =
     (case res of
        Inl e \<Rightarrow> create_reply (Inl (error_message e)) later
      | Inr None \<Rightarrow> (create_reply (Inl (wr_null_field w)) later)\<lparr>pg_invalidations := Suc (pg_invalidations later)\<rparr>
      | Inr (Some r) \<Rightarrow> create_reply (Inr (cr_clientId r, cr_apiKey r)) later)"

definition submit_create ::
  "wire \<Rightarrow> adapter \<Rightarrow> network \<Rightarrow> auth_state \<Rightarrow> page \<Rightarrow> page \<Rightarrow> (auth_state \<times> request list) \<times> page" where
  "submit_create w ad net s pg later =
     (if pg_modelName pg = [] then ((s, []), on_submit pg)
      else case useCreateKey w ad net (create_input_of pg) s of (st, res) \<Rightarrow> (st, create_settled w res later))"

definition submit_revoke :: "adapter \<Rightarrow> network \<Rightarrow> auth_state \<Rightarrow> page \<Rightarrow> (auth_state \<times> request list) \<times> page" where
  "submit_revoke ad net s pg =
     (let pg1 = confirm_revoke pg in
      case pg_dialog pg of
        RevokeDialog k \<Rightarrow>
          (case useRevokeKey ad net k s of
             (st, Inl e) \<Rightarrow> (st, revoke_reply (Inl (error_message e)) pg1)
           | (st, Inr u) \<Rightarrow> (st, revoke_reply (Inr u) pg1))
      | _ \<Rightarrow> ((s, []), pg1))"

section \<open>Lemmas\<close>

text \<open>A result comes from the last answer, which is a success; an error from a missing token, the network or an answer.\<close>

lemma request_run_ok:
  assumes "request_run ad net m p b s = ((s', sent), Inr v)"
  shows "sent \<noteq> [] \<and> (\<exists>r. net (length sent - 1) (last sent) = Inr r \<and> finish m p r = Inr v)"
proof -
  have step: "sent2 = sent1 @ [last sent2] \<and> net (length sent1) (last sent2) = Inr r"
    if "exec ad net m p b f (s0, sent1) = ((s2, sent2), Inr r)" for f s0 sent1 s2 sent2 r
    using exec_sent [OF that] by (cases "net (length sent1) (last sent2)") auto
  obtain s1 sent1 r1 where e1: "exec ad net m p b False (s, []) = ((s1, sent1), r1)" by (metis prod.exhaust)
  from assms e1 obtain r where r: "r1 = Inr r" by (cases r1) (auto simp: request_run_def)
  note S1 = step [OF e1 [unfolded r]]
  show ?thesis
  proof (cases "rp_status r = 401")
    case False
    with assms e1 r have "sent = sent1" "finish m p r = Inr v" by (simp_all add: request_run_def)
    moreover from S1 have "\<exists>q. sent1 = [q]" by (metis append_Nil)
    then obtain q where q: "sent1 = [q]" by blast
    moreover from S1 have "net 0 q = Inr r" unfolding q by simp
    ultimately show ?thesis by simp
  next
    case True
    obtain s2 sent2 r2 where e2: "exec ad net m p b True (s1, sent1) = ((s2, sent2), r2)" by (metis prod.exhaust)
    from assms e1 e2 r True obtain r' where r': "r2 = Inr r'" "sent = sent2" "finish m p r' = Inr v"
      by (cases r2) (auto simp: request_run_def)
    from step [OF e2 [unfolded r'(1)]] have "sent2 = sent1 @ [last sent2]" "net (length sent1) (last sent2) = Inr r'" by simp_all
    moreover from this have "length sent2 - 1 = length sent1" by (metis length_append_singleton diff_Suc_1)
    ultimately show ?thesis using r' by auto
  qed
qed

lemma error_message_session: "error_message SessionExpired \<noteq> []"
  by (simp add: error_message_def session_expired_message_def)

definition create_body :: "wire \<Rightarrow> page \<Rightarrow> string option" where
  "create_body w pg = Some (wr_body w (create_input_of pg))"

lemma useCreateKey_request:
  "useCreateKey w ad net i s =
     (case request_run ad net ''POST'' ''/api/keys'' (Some (wr_body w i)) s of
        (st, v) \<Rightarrow> (st, case v of Inl e \<Rightarrow> Inl e | Inr None \<Rightarrow> Inr None | Inr (Some j) \<Rightarrow> Inr (Some (wr_created w j))))"
  by (simp add: useCreateKey_def api_post_def split: prod.splits sum.splits option.splits)

lemma submit_create_empty: "pg_modelName pg = [] \<Longrightarrow> submit_create w ad net s pg later = ((s, []), on_submit pg)"
  by (simp add: submit_create_def)

text \<open>What the user can do while the answer is out: every step of the page but the answer itself.\<close>

definition while_creating :: "km_model list \<Rightarrow> page \<Rightarrow> page \<Rightarrow> bool" where
  "while_creating models pg pg' \<longleftrightarrow> (\<exists>ks. km_step models ks pg pg') \<and> pg_creating pg' = pg_creating pg"

lemma while_creating_keeps: "(while_creating models)\<^sup>*\<^sup>* pg pg' \<Longrightarrow> pg_creating pg' = pg_creating pg"
  by (induction rule: rtranclp_induct) (simp_all add: while_creating_def)

lemma submit_create_cases:
  assumes "pg_modelName pg \<noteq> []" and "submit_create w ad net s pg later = ((s', sent), pg')"
  obtains v where "request_run ad net ''POST'' ''/api/keys'' (create_body w pg) s = ((s', sent), v)"
    "pg' = create_settled w (case v of Inl e \<Rightarrow> Inl e | Inr None \<Rightarrow> Inr None | Inr (Some j) \<Rightarrow> Inr (Some (wr_created w j))) later"
  using assms by (auto simp: submit_create_def useCreateKey_request create_body_def split: prod.splits)

lemma submit_create_sent:
  assumes "submit_create w ad net s pg later = ((s', sent), pg')"
  shows "length sent \<le> 2 \<and> (\<forall>q \<in> set sent. rq_method q = ''POST'' \<and> rq_path q = ''/api/keys'' \<and> rq_body q = create_body w pg)"
proof (cases "pg_modelName pg = []")
  case False
  from submit_create_cases [OF False assms] show ?thesis by cases (use request_run_sent in blast)
qed (use assms submit_create_empty in auto)

text \<open>
  When the answer is in, the page shows exactly the key that the last answer's body names, or it stays as the user left
  it and says why there is none.
\<close>

lemma submit_create_outcome:
  assumes "submit_create w ad net s pg later = ((s', sent), pg')" and "pg_modelName pg \<noteq> []"
  shows "pg_creating pg' = None \<and>
    (case snd (request_run ad net ''POST'' ''/api/keys'' (create_body w pg) s) of
       Inr (Some j) \<Rightarrow>
         (\<exists>r. sent \<noteq> [] \<and> net (length sent - 1) (last sent) = Inr r \<and> 200 \<le> rp_status r \<and> rp_status r < 300 \<and> rp_json r = Inr j) \<and>
         pg_dialog pg' = CreatedDialog (cr_clientId (wr_created w j)) (cr_apiKey (wr_created w j)) \<and>
         pg_modelName pg' = [] \<and> pg_description pg' = [] \<and> pg_invalidations pg' = Suc (pg_invalidations later)
     | _ \<Rightarrow> pg_dialog pg' = pg_dialog later \<and> pg_modelName pg' = pg_modelName later \<and>
         pg_description pg' = pg_description later \<and> (\<exists>m. pg_fieldError pg' = Some (''Failed to create key: '' @ m)))"
  using assms(2,1)
proof (cases rule: submit_create_cases)
  case (1 v)
  have created: "\<exists>r. sent \<noteq> [] \<and> net (length sent - 1) (last sent) = Inr r \<and> 200 \<le> rp_status r \<and> rp_status r < 300 \<and> rp_json r = Inr j"
    if v: "v = Inr (Some j)" for j
  proof -
    from request_run_ok [OF 1(1) [unfolded v]] obtain r where
      r: "sent \<noteq> []" "net (length sent - 1) (last sent) = Inr r" "finish ''POST'' ''/api/keys'' r = Inr (Some j)" by blast
    with finish_ok [OF r(3)] finish_body [OF r(3)] show ?thesis by blast
  qed
  show ?thesis
    using 1 created by (auto simp: create_settled_def create_reply_def Let_def split: sum.split option.split)
qed

text \<open>
  Confirming a revocation: the dialog closes at once, whatever the answer; the key's delete request is all that is
  sent, and a failure leaves its message on the page.
\<close>

lemma useRevokeKey_request:
  "useRevokeKey ad net k s = (st, res) \<Longrightarrow>
     \<exists>v. request_run ad net ''DELETE'' (revoke_path k) None s = (st, v) \<and> res = (case v of Inl e \<Rightarrow> Inl e | Inr _ \<Rightarrow> Inr ())"
  by (auto simp: useRevokeKey_def api_delete_def split: prod.splits sum.splits)

lemma submit_revoke_outcome:
  assumes "submit_revoke ad net s pg = ((s', sent), pg')" and "pg_dialog pg = RevokeDialog k"
  shows "length sent \<le> 2 \<and> (\<forall>q \<in> set sent. rq_method q = ''DELETE'' \<and> rq_path q = revoke_path k) \<and>
    pg_dialog pg' = NoDialog \<and> pg_revoking pg' = None \<and>
    (pg_invalidations pg' = Suc (pg_invalidations pg) \<and> pg_error pg' = pg_error pg \<and>
       (\<exists>r. net (length sent - 1) (last sent) = Inr r \<and> 200 \<le> rp_status r \<and> rp_status r < 300)
     \<or> pg_invalidations pg' = pg_invalidations pg \<and> (\<exists>m. pg_error pg' = Some (''Failed to revoke key: '' @ m)))"
proof -
  obtain st res where u: "useRevokeKey ad net k s = (st, res)" by (metis prod.exhaust)
  from useRevokeKey_request [OF u] obtain v where
    v: "request_run ad net ''DELETE'' (revoke_path k) None s = (st, v)" "res = (case v of Inl e \<Rightarrow> Inl e | Inr _ \<Rightarrow> Inr ())"
    by blast
  show ?thesis
  proof (cases v)
    case (Inl e)
    with v u assms have "st = (s', sent)"
      "pg' = revoke_reply (Inl (error_message e)) (confirm_revoke pg)" by (simp_all add: submit_revoke_def Let_def)
    with request_run_sent v(1) assms(2) show ?thesis
      by (auto simp: revoke_reply_def confirm_revoke_def close_revoke_def Let_def)
  next
    case (Inr j)
    with v u assms have st: "st = (s', sent)" and pg': "pg' = revoke_reply (Inr ()) (confirm_revoke pg)"
      by (simp_all add: submit_revoke_def Let_def)
    from request_run_ok v(1) Inr st obtain r where
      r: "net (length sent - 1) (last sent) = Inr r" "finish ''DELETE'' (revoke_path k) r = Inr j" by blast
    from finish_ok [OF r(2)] r(1) request_run_sent v(1) st pg' assms(2) show ?thesis
      by (auto simp: revoke_reply_def confirm_revoke_def close_revoke_def Let_def)
  qed
qed

end
