(* ===== verification/KeyRefetch.thy ===== *)
theory KeyRefetch
  imports KeyMutations
begin

text \<open>
  The key manager's page against the control plane: the dialogs, the mutations they start and the list of keys, which
  \<open>hooks/useApiKeys.ts\<close> invalidates when a mutation succeeds.  The control plane and the query library are the
  surroundings.  The control plane serves a request at some moment between its sending and its answer, and the keys of
  the user may also change by other hands; a client id is never used again.  The query library fetches the list when it
  is invalidated and none of its fetches is under way; what it does when one is, is the parameter \<open>restarts\<close>: whether
  that fetch is given up for a new one, which may depend on whether the list has been loaded before.  It documents that
  it does so once there is data.  It may also start a fetch at any other time.
\<close>

section \<open>State\<close>

text \<open>
  \<open>kw_made\<close> is the key of the pending creation once it is served, \<open>kw_removed\<close> says so of the pending revocation.  A
  fetch under way is first asked for (\<open>Some None\<close>) and then served; \<open>kw_data\<close> says that one has been answered.  The last
  four fields record what has happened: the keys whose creation was answered, the keys whose revocation was, the keys
  that were ever removed, and those whose creation was answered during a fetch that was not given up for it and since
  which no other has begun.
\<close>

record key_world =
  kw_page :: page
  kw_server :: "user_key list"
  kw_made :: "user_key option"
  kw_removed :: bool
  kw_shown :: "user_key list query"
  kw_data :: bool
  kw_fetch :: "user_key list option option"
  kw_acked :: "user_key set"
  kw_dead :: "user_key set"
  kw_gone :: "user_key set"
  kw_early :: "user_key set"

definition key_world_init :: "user_key list \<Rightarrow> key_world" where
  "key_world_init ks =
     \<lparr>kw_page = page_init, kw_server = ks, kw_made = None, kw_removed = False, kw_shown = Loading, kw_data = False,
      kw_fetch = Some None, kw_acked = {}, kw_dead = {}, kw_gone = {}, kw_early = {}\<rparr>"

section \<open>Operations\<close>

definition set_page :: "page \<Rightarrow> key_world \<Rightarrow> key_world" where
  "set_page pg w = w\<lparr>kw_page := pg\<rparr>"

definition begin_fetch :: "key_world \<Rightarrow> key_world" where
  "begin_fetch w = w\<lparr>kw_fetch := Some None, kw_early := {}\<rparr>"

text \<open>The page after the answer of a mutation; if its \<open>onSuccess\<close> invalidated the list, the library is told.\<close>

definition settle_page :: "(bool \<Rightarrow> bool) \<Rightarrow> page \<Rightarrow> key_world \<Rightarrow> key_world" where
  "settle_page restarts pg w =
     (if pg_invalidations pg \<noteq> pg_invalidations (kw_page w) \<and> (kw_fetch w = None \<or> restarts (kw_data w))
      then begin_fetch (set_page pg w) else set_page pg w)"

definition create_served :: "user_key \<Rightarrow> key_world \<Rightarrow> key_world" where
  "create_served k w = w\<lparr>kw_server := kw_server w @ [k], kw_made := Some k\<rparr>"

definition create_answered :: "(bool \<Rightarrow> bool) \<Rightarrow> string \<Rightarrow> user_key \<Rightarrow> key_world \<Rightarrow> key_world" where
  "create_answered restarts apiKey k w =
     settle_page restarts (create_reply (Inr (uk_clientId k, apiKey)) (kw_page w))
       (w\<lparr>kw_made := None, kw_acked := insert k (kw_acked w), kw_early := insert k (kw_early w)\<rparr>)"

definition create_failed :: "(bool \<Rightarrow> bool) \<Rightarrow> string \<Rightarrow> key_world \<Rightarrow> key_world" where
  "create_failed restarts e w = settle_page restarts (create_reply (Inl e) (kw_page w)) (w\<lparr>kw_made := None\<rparr>)"

definition remove_keys :: "user_key set \<Rightarrow> key_world \<Rightarrow> key_world" where
  "remove_keys K w =
     w\<lparr>kw_server := filter (\<lambda>k. k \<notin> K) (kw_server w), kw_gone := kw_gone w \<union> K\<rparr>"

definition revoke_served :: "user_key \<Rightarrow> key_world \<Rightarrow> key_world" where
  "revoke_served k w = (remove_keys {k} w)\<lparr>kw_removed := True\<rparr>"

definition revoke_answered :: "(bool \<Rightarrow> bool) \<Rightarrow> user_key \<Rightarrow> key_world \<Rightarrow> key_world" where
  "revoke_answered restarts k w =
     settle_page restarts (revoke_reply (Inr ()) (kw_page w)) (w\<lparr>kw_removed := False, kw_dead := insert k (kw_dead w)\<rparr>)"

definition revoke_failed :: "(bool \<Rightarrow> bool) \<Rightarrow> string \<Rightarrow> key_world \<Rightarrow> key_world" where
  "revoke_failed restarts e w = settle_page restarts (revoke_reply (Inl e) (kw_page w)) (w\<lparr>kw_removed := False\<rparr>)"

definition shown_keys :: "key_world \<Rightarrow> user_key list" where
  "shown_keys w = (case kw_shown w of Loaded ks \<Rightarrow> ks | _ \<Rightarrow> [])"

section \<open>Steps\<close>

text \<open>
  What the user does is a step of the page with the list that is shown, except for the answers of the mutations, which
  are steps of their own.
\<close>

definition user_step :: "km_model list \<Rightarrow> user_key list \<Rightarrow> page \<Rightarrow> page \<Rightarrow> bool" where
  "user_step models ks pg pg' \<longleftrightarrow> km_step models ks pg pg' \<and> pg_invalidations pg' = pg_invalidations pg \<and>
     (pg_creating pg \<noteq> None \<longrightarrow> pg_creating pg' = pg_creating pg) \<and> (pg_revoking pg \<noteq> None \<longrightarrow> pg_revoking pg' = pg_revoking pg)"

inductive key_step :: "(bool \<Rightarrow> bool) \<Rightarrow> km_model list \<Rightarrow> key_world \<Rightarrow> key_world \<Rightarrow> bool" for restarts models where
  User: "user_step models (shown_keys w) (kw_page w) pg \<Longrightarrow> key_step restarts models w (set_page pg w)"
| CreateServed: "pg_creating (kw_page w) = Some (m, d) \<Longrightarrow> kw_made w = None \<Longrightarrow> uk_modelName k = m \<Longrightarrow>
    uk_description k = d \<Longrightarrow> k \<notin> set (kw_server w) \<Longrightarrow> k \<notin> kw_gone w \<Longrightarrow> key_step restarts models w (create_served k w)"
| CreateAnswered: "pg_creating (kw_page w) \<noteq> None \<Longrightarrow> kw_made w = Some k \<Longrightarrow>
    key_step restarts models w (create_answered restarts a k w)"
| CreateFailed: "pg_creating (kw_page w) \<noteq> None \<Longrightarrow> key_step restarts models w (create_failed restarts e w)"
| RevokeServed: "pg_revoking (kw_page w) = Some k \<Longrightarrow> key_step restarts models w (revoke_served k w)"
| RevokeAnswered: "pg_revoking (kw_page w) = Some k \<Longrightarrow> kw_removed w \<Longrightarrow>
    key_step restarts models w (revoke_answered restarts k w)"
| RevokeFailed: "pg_revoking (kw_page w) \<noteq> None \<Longrightarrow> key_step restarts models w (revoke_failed restarts e w)"
| OthersAdd: "k \<notin> kw_gone w \<Longrightarrow> key_step restarts models w (w\<lparr>kw_server := kw_server w @ [k]\<rparr>)"
| OthersRemove: "key_step restarts models w (remove_keys K w)"
| Fetch: "kw_fetch w = None \<Longrightarrow> key_step restarts models w (begin_fetch w)"
| FetchServed: "kw_fetch w = Some None \<Longrightarrow> key_step restarts models w (w\<lparr>kw_fetch := Some (Some (kw_server w))\<rparr>)"
| FetchAnswered: "kw_fetch w = Some (Some ks) \<Longrightarrow>
    key_step restarts models w (w\<lparr>kw_fetch := None, kw_shown := Loaded ks, kw_data := True\<rparr>)"
| FetchFailed: "kw_fetch w \<noteq> None \<Longrightarrow> key_step restarts models w (w\<lparr>kw_fetch := None, kw_shown := Failed e\<rparr>)"

inductive key_run :: "(bool \<Rightarrow> bool) \<Rightarrow> km_model list \<Rightarrow> user_key list \<Rightarrow> key_world \<Rightarrow> bool" for restarts models ks where
  Open: "key_run restarts models ks (key_world_init ks)"
| Step: "key_run restarts models ks w \<Longrightarrow> key_step restarts models w w' \<Longrightarrow> key_run restarts models ks w'"

section \<open>Invariant\<close>

text \<open>A list that was served after all answered mutations but the early ones, as long as nobody else removes keys.\<close>

definition up_to_date :: "key_world \<Rightarrow> user_key list \<Rightarrow> bool" where
  "up_to_date w ks \<longleftrightarrow> kw_acked w \<subseteq> set ks \<union> kw_gone w \<union> kw_early w \<and> set ks \<inter> kw_dead w = {}"

text \<open>Before the revocation is answered, its key is gone only if it was served.  Only a key of a loaded list is revoked.\<close>

definition server_inv :: "key_world \<Rightarrow> bool" where
  "server_inv w \<longleftrightarrow>
     set (kw_server w) \<inter> kw_gone w = {} \<and> kw_dead w \<subseteq> kw_gone w \<and> kw_acked w \<subseteq> set (kw_server w) \<union> kw_gone w \<and>
     (\<forall>k. kw_made w = Some k \<longrightarrow> k \<in> set (kw_server w) \<union> kw_gone w) \<and>
     (kw_removed w \<longrightarrow> (\<exists>k. pg_revoking (kw_page w) = Some k \<and> k \<in> kw_gone w))"

definition revokes_loaded :: "key_world \<Rightarrow> bool" where
  "revokes_loaded w \<longleftrightarrow> kw_data w \<or>
     pg_revoking (kw_page w) = None \<and> (\<forall>k. pg_dialog (kw_page w) \<noteq> RevokeDialog k) \<and> shown_keys w = []"

definition fetch_inv :: "key_world \<Rightarrow> bool" where
  "fetch_inv w \<longleftrightarrow>
     (\<forall>ks. kw_fetch w = Some (Some ks) \<longrightarrow> up_to_date w ks) \<and>
     (\<forall>ks. kw_fetch w = None \<longrightarrow> kw_shown w = Loaded ks \<longrightarrow> up_to_date w ks)"

definition key_inv :: "(bool \<Rightarrow> bool) \<Rightarrow> key_world \<Rightarrow> bool" where
  "key_inv restarts w \<longleftrightarrow> server_inv w \<and> revokes_loaded w \<and> fetch_inv w \<and> (restarts False \<longrightarrow> kw_early w = {})"

lemma reply_invalidates [simp]:
  "pg_invalidations (create_reply (Inr r) pg) = Suc (pg_invalidations pg)"
  "pg_invalidations (create_reply (Inl e) pg) = pg_invalidations pg"
  "pg_invalidations (revoke_reply (Inr u) pg) = Suc (pg_invalidations pg)"
  "pg_invalidations (revoke_reply (Inl e) pg) = pg_invalidations pg"
  "pg_creating (create_reply x pg) = None" "pg_revoking (create_reply x pg) = pg_revoking pg"
  "pg_creating (revoke_reply y pg) = pg_creating pg" "pg_revoking (revoke_reply y pg) = None"
  by (auto simp: create_reply_def revoke_reply_def close_revoke_def Let_def split: sum.split prod.split)

lemma reply_dialog:
  "pg_dialog (create_reply x pg) = RevokeDialog k \<Longrightarrow> pg_dialog pg = RevokeDialog k"
  "pg_dialog (revoke_reply y pg) \<noteq> RevokeDialog k"
  by (auto simp: create_reply_def revoke_reply_def close_revoke_def Let_def split: sum.splits prod.splits)

lemma user_revokes:
  assumes "user_step models ks pg pg'" and "pg_revoking pg = None \<and> (\<forall>k. pg_dialog pg \<noteq> RevokeDialog k)" and "ks = []"
  shows "pg_revoking pg' = None \<and> (\<forall>k. pg_dialog pg' \<noteq> RevokeDialog k)"
proof -
  from assms(1) have "km_step models ks pg pg'" by (simp add: user_step_def)
  then show ?thesis
  proof cases
    case (CreateReply r)
    with assms(2) reply_dialog(1) [of r pg] show ?thesis by auto
  qed (use assms(2,3) in \<open>simp_all add: close_create_def pick_model_def on_submit_def close_created_def copy_key_def
      copy_timeout_def Let_def\<close>)
qed

lemma up_to_date_server: "server_inv w \<Longrightarrow> up_to_date w (kw_server w)"
  by (auto simp: server_inv_def up_to_date_def)

lemma shown_keys_simps [simp]:
  "shown_keys (set_page pg w) = shown_keys w" "shown_keys (begin_fetch w) = shown_keys w"
  "shown_keys (remove_keys K w) = shown_keys w" "shown_keys (w\<lparr>kw_shown := Failed e\<rparr>) = []"
  by (simp_all add: shown_keys_def set_page_def begin_fetch_def remove_keys_def)

text \<open>Each part is kept by the operations; the answers of the mutations settle the page in one way.\<close>

lemma settle_page_fields [simp]:
  "kw_page (settle_page restarts pg w) = pg" "kw_server (settle_page restarts pg w) = kw_server w"
  "kw_made (settle_page restarts pg w) = kw_made w" "kw_removed (settle_page restarts pg w) = kw_removed w"
  "kw_shown (settle_page restarts pg w) = kw_shown w" "kw_data (settle_page restarts pg w) = kw_data w"
  "kw_acked (settle_page restarts pg w) = kw_acked w" "kw_dead (settle_page restarts pg w) = kw_dead w"
  "kw_gone (settle_page restarts pg w) = kw_gone w"
  by (simp_all add: settle_page_def set_page_def begin_fetch_def)

lemma settle_page_told:
  assumes "pg_invalidations pg \<noteq> pg_invalidations (kw_page w)"
  shows "kw_fetch (settle_page restarts pg w) = Some None \<and> kw_early (settle_page restarts pg w) = {} \<or>
    kw_fetch w \<noteq> None \<and> \<not> restarts (kw_data w) \<and>
      kw_fetch (settle_page restarts pg w) = kw_fetch w \<and> kw_early (settle_page restarts pg w) = kw_early w"
  using assms by (auto simp: settle_page_def set_page_def begin_fetch_def)

lemma settle_page_quiet:
  "pg_invalidations pg = pg_invalidations (kw_page w) \<Longrightarrow> settle_page restarts pg w = set_page pg w"
  by (simp add: settle_page_def)

lemma server_inv_step: "key_step restarts models w w' \<Longrightarrow> server_inv w \<Longrightarrow> server_inv w'"
proof (induction rule: key_step.induct)
  case (User w pg)
  then show ?case by (auto simp: server_inv_def set_page_def user_step_def)
qed (auto simp: server_inv_def create_served_def create_answered_def create_failed_def revoke_served_def revoke_answered_def
    revoke_failed_def remove_keys_def begin_fetch_def)

lemma revokes_loaded_step: "key_step restarts models w w' \<Longrightarrow> revokes_loaded w \<Longrightarrow> revokes_loaded w'"
proof (induction rule: key_step.induct)
  case (User w pg)
  then show ?case
    using user_revokes [OF User(1)] by (auto simp: revokes_loaded_def set_page_def shown_keys_def)
next
  case (CreateAnswered w k a)
  then show ?case by (auto simp: revokes_loaded_def create_answered_def shown_keys_def dest!: reply_dialog(1))
next
  case (CreateFailed w e)
  then show ?case by (auto simp: revokes_loaded_def create_failed_def shown_keys_def dest!: reply_dialog(1))
qed (auto simp: revokes_loaded_def create_served_def revoke_served_def revoke_answered_def revoke_failed_def remove_keys_def
    begin_fetch_def shown_keys_def)

lemma fetch_inv_step:
  assumes "restarts True"
  shows "key_step restarts models w w' \<Longrightarrow> server_inv w \<Longrightarrow> revokes_loaded w \<Longrightarrow> fetch_inv w \<Longrightarrow> fetch_inv w'"
proof (induction rule: key_step.induct)
  case (User w pg)
  then show ?case by (simp add: fetch_inv_def up_to_date_def set_page_def)
next
  case (CreateAnswered w k a)
  let ?pg = "create_reply (Inr (uk_clientId k, a)) (kw_page w)"
  let ?w = "w\<lparr>kw_made := None, kw_acked := insert k (kw_acked w), kw_early := insert k (kw_early w)\<rparr>"
  have "up_to_date (settle_page restarts ?pg ?w) xs"
    if "up_to_date w xs" "kw_early (settle_page restarts ?pg ?w) = insert k (kw_early w)" for xs
    using that by (auto simp: up_to_date_def)
  with settle_page_told [of ?pg ?w restarts] CreateAnswered(5) show ?case
    unfolding create_answered_def by (auto simp: fetch_inv_def)
next
  case (RevokeAnswered w k)
  let ?pg = "revoke_reply (Inr ()) (kw_page w)"
  let ?w = "w\<lparr>kw_removed := False, kw_dead := insert k (kw_dead w)\<rparr>"
  have "kw_data w" using RevokeAnswered(1,4) by (auto simp: revokes_loaded_def)
  with settle_page_told [of ?pg ?w restarts] assms show ?case
    unfolding revoke_answered_def by (auto simp: fetch_inv_def up_to_date_def)
next
  case (FetchServed w)
  from up_to_date_server [OF FetchServed(2)] FetchServed(1) show ?case by (simp add: fetch_inv_def up_to_date_def)
qed (auto simp: fetch_inv_def up_to_date_def create_served_def create_failed_def revoke_served_def
    revoke_failed_def settle_page_quiet set_page_def remove_keys_def begin_fetch_def)

lemma early_step:
  assumes "restarts True" and all: "restarts False"
  shows "key_step restarts models w w' \<Longrightarrow> kw_early w = {} \<Longrightarrow> kw_early w' = {}"
proof (induction rule: key_step.induct)
  case (CreateAnswered w k a)
  have "restarts b" for b using assms by (cases b) simp_all
  then show ?case by (simp add: create_answered_def settle_page_def begin_fetch_def)
qed (auto simp: create_served_def create_failed_def revoke_served_def revoke_answered_def revoke_failed_def set_page_def
    settle_page_def remove_keys_def begin_fetch_def)

lemma key_run_inv:
  assumes "restarts True" and "key_run restarts models ks w"
  shows "key_inv restarts w"
  using assms(2)
proof (induction rule: key_run.induct)
  case Open
  show ?case
    by (simp add: key_inv_def server_inv_def revokes_loaded_def fetch_inv_def key_world_init_def page_init_def shown_keys_def)
next
  case (Step w w')
  then show ?case
    using server_inv_step [OF Step(2)] revokes_loaded_step [OF Step(2)] fetch_inv_step [OF assms(1) Step(2)]
      early_step [OF assms(1) _ Step(2)] by (auto simp: key_inv_def)
qed

text \<open>Once the list is quiet, it has what the page created and has not what it revoked.\<close>

lemma quiet_list:
  assumes "restarts True" and "key_run restarts models ks w" and "kw_fetch w = None" and "kw_shown w = Loaded xs"
  shows "kw_acked w \<subseteq> set xs \<union> kw_gone w \<union> kw_early w" and "set xs \<inter> kw_dead w = {}"
    and "restarts False \<Longrightarrow> kw_early w = {}"
  using key_run_inv [OF assms(1,2)] assms(3,4) by (simp_all add: key_inv_def fetch_inv_def up_to_date_def)

text \<open>An answered mutation leaves a fetch under way; with data on the page it is a new one.\<close>

lemma answered_fetches:
  "kw_fetch w = None \<or> restarts (kw_data w) \<Longrightarrow> kw_fetch (create_answered restarts a k w) = Some None"
  "kw_fetch w = None \<or> restarts (kw_data w) \<Longrightarrow> kw_fetch (revoke_answered restarts k w) = Some None"
  by (simp_all add: create_answered_def revoke_answered_def settle_page_def begin_fetch_def)

end
