(* ===== verification/KeyScreen.thy ===== *)
theory KeyScreen
  imports KeyRefetch
begin

text \<open>
  What the key manager's page offers against the steps that its state machine has.  The machine's guards (a dialog is
  open or none is, a mutation is pending or not, a key is listed) are not written in the handlers; they hold because of
  what the page draws.  Here the actions of the drawn page are read off, and each is shown to be a step.
\<close>

section \<open>The actions that can be taken\<close>

text \<open>
  A closed dialog draws nothing, a disabled control does nothing, and a form is not submitted while its submit button
  is disabled.
\<close>

fun disabled_submit :: "'e ui \<Rightarrow> bool" where
  "disabled_submit (Txt s) = False"
| "disabled_submit (El n a h cs) =
     (map_of a ''type'' = Some ''submit'' \<and> map_of a ''disabled'' = Some ''true'' \<or> list_ex disabled_submit cs)"

fun live_actions :: "'e ui \<Rightarrow> 'e list" where
  "live_actions (Txt s) = []"
| "live_actions (El n a h cs) =
     (if n = ''Dialog'' \<and> map_of a ''open'' \<noteq> Some ''true'' then []
      else (if map_of a ''disabled'' = Some ''true'' \<or> n = ''form'' \<and> list_ex disabled_submit cs then [] else map snd h)
        @ concat (map live_actions cs))"

text \<open>Dialogs are modal: while one is open, nothing outside of it can be reached.\<close>

definition offered_actions ::
  "(string \<Rightarrow> int option) \<Rightarrow> (int \<Rightarrow> string) \<Rightarrow> user option \<Rightarrow> theme \<Rightarrow> app_config option
    \<Rightarrow> user_key list query \<Rightarrow> km_model list option \<Rightarrow> page \<Rightarrow> km_event list" where
  "offered_actions pd dt u th branding q models pg =
     (if pg_dialog pg = NoDialog then live_actions (KeyManagerApp pd dt u th branding q models pg)
      else concat (map live_actions [CreateKeyDialog models pg, KeyCreatedDialog pg, RevokeKeyDialog pg]))"

text \<open>The handlers; the theme, the session, the download and a selection do not touch the page's state.\<close>

definition km_act :: "km_event \<Rightarrow> page \<Rightarrow> page" where
  "km_act x pg =
     (case x of
        OpenCreate \<Rightarrow> pg\<lparr>pg_dialog := CreateDialog\<rparr>
      | OpenRevoke k \<Rightarrow> pg\<lparr>pg_dialog := RevokeDialog k\<rparr>
      | CloseCreate \<Rightarrow> close_create pg
      | CloseCreated \<Rightarrow> close_created pg
      | CloseRevoke \<Rightarrow> close_revoke pg
      | PickModel v \<Rightarrow> pick_model v pg
      | TypeDescription d \<Rightarrow> pg\<lparr>pg_description := d\<rparr>
      | Submit \<Rightarrow> on_submit pg
      | ConfirmRevoke \<Rightarrow> confirm_revoke pg
      | CopyKey \<Rightarrow> copy_key True pg
      | DismissError \<Rightarrow> pg\<lparr>pg_error := None\<rparr>
      | _ \<Rightarrow> pg)"

section \<open>Lemmas\<close>

lemma live_actions_helpers [simp]:
  "live_actions (icon n) = []" "live_actions (tag n s) = []"
  "n \<noteq> ''Dialog'' \<Longrightarrow> live_actions (elem n cs) = concat (map live_actions cs)"
  "disabled_submit (icon n) = False" "disabled_submit (tag n s) = False" "disabled_submit (elem n cs) = list_ex disabled_submit cs"
  by (simp_all add: icon_def tag_def elem_def)

lemma bool_str_eq [simp]: "bool_str b = ''true'' \<longleftrightarrow> b"
  by (simp add: bool_str_def)

text \<open>What each part offers.\<close>

lemma live_card:
  "set (live_actions (KeysCard pd dt q)) = insert OpenCreate (OpenRevoke ` set (case q of Loaded ks \<Rightarrow> ks | _ \<Rightarrow> []))"
proof -
  have "live_actions (key_row pd dt k) = [OpenRevoke k]" for k
    by (simp add: key_row_def KeyRowActions_def)
  then show ?thesis by (auto simp: KeysCard_def split: query.split)
qed

lemma live_topbar: "set (live_actions (Topbar u th b)) \<subseteq> range PickTheme \<union> {SignOut}"
  by (cases u) (auto simp: Topbar_def Let_def ThemeOption_def only_if_def)

lemma live_banner: "set (concat (map live_actions (ErrorBanner e))) \<subseteq> {DismissError}"
  by (auto simp: ErrorBanner_def split: option.split)

lemma live_create:
  "set (live_actions (CreateKeyDialog models pg)) \<subseteq>
     (if pg_dialog pg \<noteq> CreateDialog then {}
      else {CloseCreate} \<union> (if pg_creating pg = None then {Submit} else {}) \<union>
        {PickModel (Some (km_name m)) | m. m \<in> set (case models of None \<Rightarrow> [] | Some ms \<Rightarrow> ms)})"
  by (cases "pg_fieldError pg")
    (auto simp: CreateKeyDialog_def Let_def model_items_def only_if_def split: option.splits)

lemma live_created:
  "set (live_actions (KeyCreatedDialog pg)) \<subseteq>
     (case pg_dialog pg of CreatedDialog i a \<Rightarrow> {CloseCreated, CopyKey, DownloadKey, SelectText} | _ \<Rightarrow> {})"
  by (cases "pg_dialog pg") (auto simp: KeyCreatedDialog_def Let_def)

lemma live_revoke:
  "set (live_actions (RevokeKeyDialog pg)) \<subseteq>
     (case pg_dialog pg of RevokeDialog k \<Rightarrow> insert CloseRevoke (if pg_revoking pg = None then {ConfirmRevoke} else {}) | _ \<Rightarrow> {})"
  by (cases "pg_dialog pg") (auto simp: RevokeKeyDialog_def Let_def)

lemma offered_actions_cases:
  assumes "x \<in> set (offered_actions pd dt u th b q models pg)"
  obtains "x \<in> range PickTheme \<union> {SignOut, DownloadKey, SelectText}"
    | "pg_dialog pg = NoDialog" "x = OpenCreate \<or> x = DismissError"
    | k where "pg_dialog pg = NoDialog" "x = OpenRevoke k" "k \<in> set (case q of Loaded ks \<Rightarrow> ks | _ \<Rightarrow> [])"
    | "pg_dialog pg = CreateDialog" "x = CloseCreate \<or> x = Submit \<and> pg_creating pg = None"
    | m where "pg_dialog pg = CreateDialog" "x = PickModel (Some (km_name m))" "m \<in> set (case models of None \<Rightarrow> [] | Some ms \<Rightarrow> ms)"
    | i a where "pg_dialog pg = CreatedDialog i a" "x = CloseCreated \<or> x = CopyKey"
    | k where "pg_dialog pg = RevokeDialog k" "x = CloseRevoke \<or> x = ConfirmRevoke \<and> pg_revoking pg = None"
proof (cases "pg_dialog pg = NoDialog")
  case True
  have "x \<in> set (live_actions (Topbar u th b)) \<union> set (concat (map live_actions (ErrorBanner (pg_error pg)))) \<union>
      set (live_actions (KeysCard pd dt q))"
    using assms True live_create [of models pg] live_created [of pg] live_revoke [of pg]
    by (auto simp: offered_actions_def KeyManagerApp_def)
  with live_topbar live_banner show thesis using that(1-3) True unfolding live_card by blast
next
  case False
  with assms have "x \<in> set (live_actions (CreateKeyDialog models pg)) \<union> set (live_actions (KeyCreatedDialog pg)) \<union>
      set (live_actions (RevokeKeyDialog pg))" by (simp add: offered_actions_def)
  with live_create [of models pg] live_created [of pg] live_revoke [of pg] show thesis
    using that(1,4-7) by (cases "pg_dialog pg") (auto split: if_splits)
qed

text \<open>Every action that the page offers is a step of the machine, or leaves its state as it is.\<close>

lemma offered_step:
  assumes "x \<in> set (offered_actions pd dt u th b q models pg)"
  shows "km_act x pg = pg \<or>
    user_step (case models of None \<Rightarrow> [] | Some ms \<Rightarrow> ms) (case q of Loaded ks \<Rightarrow> ks | _ \<Rightarrow> []) pg (km_act x pg)"
  using assms
proof (cases rule: offered_actions_cases)
  case 1
  then show ?thesis by (auto simp: km_act_def)
next
  case 2
  then show ?thesis by (auto simp: km_act_def user_step_def intro: km_step.OpenCreate km_step.DismissError)
next
  case (3 k)
  then show ?thesis by (simp add: km_act_def user_step_def km_step.OpenRevoke)
next
  case 4
  have frame: "pg_invalidations (on_submit pg) = pg_invalidations pg" "pg_revoking (on_submit pg) = pg_revoking pg"
    "pg_invalidations (close_create pg) = pg_invalidations pg" "pg_revoking (close_create pg) = pg_revoking pg"
    "pg_creating (close_create pg) = pg_creating pg"
    by (simp_all add: on_submit_def close_create_def Let_def)
  with 4 show ?thesis
    using km_step.CloseCreate [OF 4(1)] km_step.Submit [OF 4(1)] by (auto simp: km_act_def user_step_def)
next
  case (5 m)
  then show ?thesis
    using km_step.PickModel [of pg "Some (km_name m)" "case models of None \<Rightarrow> [] | Some ms \<Rightarrow> ms"]
    by (auto simp: km_act_def user_step_def pick_model_def)
next
  case (6 i a)
  then show ?thesis
    using km_step.CloseCreated [OF 6(1)] km_step.Copy [OF 6(1), of _ _ True]
    by (auto simp: km_act_def user_step_def close_created_def copy_key_def)
next
  case (7 k)
  then show ?thesis
    using km_step.CloseRevoke [OF 7(1)] km_step.Confirm [OF 7(1)]
    by (auto simp: km_act_def user_step_def close_revoke_def confirm_revoke_def)
qed

text \<open>So it is a step of the page against the control plane, with the list that is shown.\<close>

lemma set_page_same [simp]: "set_page (kw_page w) w = w"
  by (simp add: set_page_def)

lemma offered_key_step:
  assumes "x \<in> set (offered_actions pd dt u th b (kw_shown w) (Some models) (kw_page w))"
  shows "set_page (km_act x (kw_page w)) w = w \<or> key_step restarts models w (set_page (km_act x (kw_page w)) w)"
  using offered_step [OF assms] key_step.User [of models w _ restarts]
  by (auto simp: shown_keys_def split: query.splits)

end
