(* ===== verification/Controls.thy ===== *)
theory Controls
  imports Browser
begin

text \<open>
  The usage console's controls over its component library: \<open>components/ui\<close> button, spinner, skeleton, alert,
  tooltip, tabs, dialog and table, and \<open>components/avatar.tsx\<close>.  What a control decides itself is modelled: its
  content, roles, labels, focusability and the attributes over which its caller's are spread.  Class names are left
  out.  A React context is a parameter.
\<close>

section \<open>Spinner, skeleton, avatar, alert\<close>

definition Spinner :: "string option \<Rightarrow> string option \<Rightarrow> attrs \<Rightarrow> 'e ui" where
  "Spinner sz label props =
     El ''LoaderCircle''
       (spread [(''aria-label'', or_else label ''Loading''), (''data-size'', or_else sz ''default''),
                (''data-slot'', ''spinner''), (''role'', ''status'')] props) [] []"

text \<open>The skeleton's own attributes come after the caller's, so it is always hidden from assistive technology.\<close>

definition Skeleton :: "string option \<Rightarrow> attrs \<Rightarrow> 'e ui" where
  "Skeleton shape props =
     El ''div'' (spread props [(''aria-hidden'', ''true''), (''data-slot'', ''skeleton''),
       (''data-variant'', or_else shape ''line'')]) [] []"

definition Avatar :: "attrs \<Rightarrow> 'e ui list \<Rightarrow> 'e ui" where
  "Avatar props cs = El ''AvatarRoot'' (spread [(''data-slot'', ''avatar'')] props) [] cs"

definition AvatarImage :: "attrs \<Rightarrow> 'e ui" where
  "AvatarImage props = El ''AvatarImage'' (spread [(''data-slot'', ''avatar-image'')] props) [] []"

definition AvatarFallback :: "attrs \<Rightarrow> 'e ui list \<Rightarrow> 'e ui" where
  "AvatarFallback props cs = El ''AvatarFallback'' (spread [(''data-slot'', ''avatar-fallback'')] props) [] cs"

datatype alert_variant = AlertDefault | AlertSuccess | AlertWarning | AlertDestructive

definition alert_variant_str :: "alert_variant \<Rightarrow> string" where
  "alert_variant_str v = (case v of AlertDefault \<Rightarrow> ''default'' | AlertSuccess \<Rightarrow> ''success''
     | AlertWarning \<Rightarrow> ''warning'' | AlertDestructive \<Rightarrow> ''destructive'')"

definition alertRoleForVariant :: "alert_variant \<Rightarrow> string" where
  "alertRoleForVariant v = (case v of AlertDefault \<Rightarrow> ''status'' | AlertSuccess \<Rightarrow> ''status''
     | AlertWarning \<Rightarrow> ''alert'' | AlertDestructive \<Rightarrow> ''alert'')"

definition Alert :: "alert_variant option \<Rightarrow> string option \<Rightarrow> attrs \<Rightarrow> 'e ui list \<Rightarrow> 'e ui" where
  "Alert variant role props cs =
     El ''div''
       (spread [(''role'', or_else role (alertRoleForVariant (or_else variant AlertDefault))), (''data-slot'', ''alert''),
                (''data-variant'', alert_variant_str (or_else variant AlertDefault))] props) [] cs"

definition AlertTitle :: "attrs \<Rightarrow> 'e ui list \<Rightarrow> 'e ui" where
  "AlertTitle props cs = El ''div'' (spread [(''data-slot'', ''alert-title'')] props) [] cs"

definition AlertDescription :: "attrs \<Rightarrow> 'e ui list \<Rightarrow> 'e ui" where
  "AlertDescription props cs = El ''div'' (spread [(''data-slot'', ''alert-description'')] props) [] cs"

definition AlertAction :: "attrs \<Rightarrow> 'e ui list \<Rightarrow> 'e ui" where
  "AlertAction props cs = El ''div'' (spread [(''data-slot'', ''alert-action'')] props) [] cs"

section \<open>Button\<close>

text \<open>
  \<open>useRender\<close>: an element to render with its own attributes, merged with the properties; the element's own win,
  as the library documents and the comment in the code says.
\<close>

type_synonym render_element = "string \<times> attrs"

definition use_render :: "render_element \<Rightarrow> attrs \<Rightarrow> (string \<times> 'e) list \<Rightarrow> 'e ui list \<Rightarrow> 'e ui" where
  "use_render render props hs cs = El (fst render) (spread props (snd render)) hs cs"

record 'e button_props =
  bt_variant :: "string option"
  bt_size :: "string option"
  bt_loading :: bool
  bt_loadingText :: "'e ui list option"
  bt_disabled :: bool
  bt_render :: "render_element option"

definition isIconSize :: "string option \<Rightarrow> bool" where
  "isIconSize sz = (case sz of None \<Rightarrow> False | Some s \<Rightarrow> starts_with ''icon'' s)"

definition is_element :: "'e ui \<Rightarrow> bool" where
  "is_element u = (case u of Txt s \<Rightarrow> False | El n a h cs \<Rightarrow> True)"

definition without_leading_icon :: "'e ui list \<Rightarrow> 'e ui list" where
  "without_leading_icon items = (case items of [] \<Rightarrow> [] | i # rest \<Rightarrow> if is_element i then rest else items)"

definition button_content :: "'e button_props \<Rightarrow> 'e ui list \<Rightarrow> 'e ui list" where
  "button_content b children =
     (if bt_loading b
      then (if isIconSize (bt_size b) then [Spinner None None []]
            else case bt_loadingText b of
                Some t \<Rightarrow> Spinner None None [] # t
              | None \<Rightarrow> Spinner None None [] # without_leading_icon children)
      else children)"

definition button_disabled :: "'e button_props \<Rightarrow> bool" where
  "button_disabled b \<longleftrightarrow> bt_disabled b \<or> bt_loading b"

definition button_attrs :: "'e button_props \<Rightarrow> attrs \<Rightarrow> attrs" where
  "button_attrs b props =
     spread
       ([(''data-slot'', ''button''), (''data-variant'', or_else (bt_variant b) ''default''),
         (''data-size'', or_else (bt_size b) ''default'')]
        @ opt_attr ''data-disabled'' (if button_disabled b then Some ''true'' else None)
        @ [(''disabled'', bool_str (button_disabled b))]
        @ opt_attr ''aria-busy'' (if bt_loading b then Some ''true'' else None)
        @ opt_attr ''aria-disabled'' (if button_disabled b then Some ''true'' else None)) props"

text \<open>The console's button takes its \<open>type\<close> from the properties.\<close>

definition Button :: "'e button_props \<Rightarrow> attrs \<Rightarrow> (string \<times> 'e) list \<Rightarrow> 'e ui list \<Rightarrow> 'e ui" where
  "Button b props hs children =
     use_render (or_else (bt_render b) (''button'', [(''type'', or_else (map_of props ''type'') ''button'')]))
       (button_attrs b props) hs (button_content b children)"

section \<open>Tooltip\<close>

record tooltip_context =
  tc_contentId :: string
  tc_disabled :: bool

definition TooltipProvider :: "int option \<Rightarrow> int option \<Rightarrow> attrs \<Rightarrow> 'e ui list \<Rightarrow> 'e ui" where
  "TooltipProvider delay closeDelay props cs =
     El ''TooltipProvider''
       (spread [(''data-slot'', ''tooltip-provider''), (''delay'', int_str (or_else delay 0)),
                (''closeDelay'', int_str (or_else closeDelay 100))] props) [] cs"

definition tooltip_provides :: "string \<Rightarrow> bool option \<Rightarrow> tooltip_context" where
  "tooltip_provides generatedId disabled =
     \<lparr>tc_contentId = generatedId @ ''-tooltip'', tc_disabled = or_else disabled False\<rparr>"

definition Tooltip ::
  "string \<Rightarrow> bool option \<Rightarrow> bool option \<Rightarrow> attrs \<Rightarrow> (tooltip_context option \<Rightarrow> 'e ui list) option \<Rightarrow> 'e ui" where
  "Tooltip generatedId disabled disableHoverablePopup props children =
     El ''TooltipRoot''
       (spread [(''disabled'', bool_str (or_else disabled False)),
                (''disableHoverablePopup'', bool_str (or_else disableHoverablePopup False))] props) []
       (case children of
          Some f \<Rightarrow> f (Some (tooltip_provides generatedId disabled))
        | None \<Rightarrow> [El ''span'' [(''data-slot'', ''tooltip''), (''hidden'', ''true'')] [] []])"

definition described_by :: "tooltip_context option \<Rightarrow> string option \<Rightarrow> bool \<Rightarrow> string" where
  "described_by context ariaDescribedBy disabled =
     (let contentId = (case context of None \<Rightarrow> [] | Some c \<Rightarrow> if tc_disabled c \<or> disabled then [] else tc_contentId c)
      in join_str '' '' (filter (\<lambda>s. s \<noteq> []) [or_else ariaDescribedBy [], contentId]))"

definition TooltipTrigger :: "tooltip_context option \<Rightarrow> string option \<Rightarrow> bool \<Rightarrow> attrs \<Rightarrow> 'e ui list \<Rightarrow> 'e ui" where
  "TooltipTrigger context ariaDescribedBy disabled props cs =
     (let d = described_by context ariaDescribedBy disabled in
      El ''TooltipTrigger''
        (spread (opt_attr ''aria-describedby'' (if d = [] then None else Some d)
           @ [(''data-slot'', ''tooltip-trigger''), (''disabled'', bool_str disabled)]) props) [] cs)"

record tooltip_place =
  tp_side :: "string option"
  tp_sideOffset :: "int option"
  tp_align :: "string option"
  tp_alignOffset :: "int option"
  tp_showArrow :: "bool option"

definition TooltipContent :: "tooltip_context option \<Rightarrow> tooltip_place \<Rightarrow> attrs \<Rightarrow> attrs \<Rightarrow> 'e ui list \<Rightarrow> 'e ui" where
  "TooltipContent context p portalProps props children =
     El ''TooltipPortal'' portalProps []
       [El ''TooltipPositioner''
          [(''align'', or_else (tp_align p) ''center''), (''alignOffset'', int_str (or_else (tp_alignOffset p) 0)),
           (''side'', or_else (tp_side p) ''top''), (''sideOffset'', int_str (or_else (tp_sideOffset p) 8))] []
          [El ''TooltipPopup''
             (spread props ([(''data-slot'', ''tooltip-content'')]
                @ opt_attr ''id'' (case context of Some c \<Rightarrow> Some (tc_contentId c) | None \<Rightarrow> map_of props ''id'')
                @ [(''role'', ''tooltip'')])) []
             (children @ only_if (or_else (tp_showArrow p) True)
                (El ''TooltipArrow'' [(''data-slot'', ''tooltip-arrow'')] [] []))]]"

section \<open>Tabs\<close>

definition DEFAULT_TABS_VARIANT :: string where "DEFAULT_TABS_VARIANT = ''pill''"

definition Tabs :: "attrs \<Rightarrow> 'e ui list \<Rightarrow> 'e ui" where
  "Tabs props cs = El ''TabsRoot'' (spread [(''data-slot'', ''tabs'')] props) [] cs"

text \<open>The list provides its variant to its children.\<close>

definition TabsList :: "string option \<Rightarrow> attrs \<Rightarrow> (string \<Rightarrow> 'e ui list) \<Rightarrow> 'e ui" where
  "TabsList variant props children =
     (let selected = or_else variant DEFAULT_TABS_VARIANT in
      El ''TabsList'' (spread [(''data-slot'', ''tabs-list''), (''data-variant'', selected)] props) [] (children selected))"

definition TabsTab :: "string \<Rightarrow> string option \<Rightarrow> attrs \<Rightarrow> 'e ui list \<Rightarrow> 'e ui" where
  "TabsTab contextVariant variant props cs =
     El ''TabsTab'' (spread [(''data-slot'', ''tabs-tab''), (''data-variant'', or_else variant contextVariant)] props) [] cs"

definition TabsIndicator :: "string \<Rightarrow> string option \<Rightarrow> attrs \<Rightarrow> 'e ui" where
  "TabsIndicator contextVariant variant props =
     El ''TabsIndicator''
       (spread [(''data-slot'', ''tabs-indicator''), (''data-variant'', or_else variant contextVariant)] props) [] []"

definition TabsPanel :: "attrs \<Rightarrow> 'e ui list \<Rightarrow> 'e ui" where
  "TabsPanel props cs = El ''TabsPanel'' (spread [(''data-slot'', ''tabs-panel'')] props) [] cs"

section \<open>Dialog\<close>

definition Dialog :: "attrs \<Rightarrow> 'e ui list option \<Rightarrow> 'e ui" where
  "Dialog props children =
     El ''DialogRoot'' props []
       (or_else children [El ''span'' [(''data-slot'', ''dialog''), (''hidden'', ''true'')] [] []])"

definition DialogTrigger :: "attrs \<Rightarrow> 'e ui list \<Rightarrow> 'e ui" where
  "DialogTrigger props cs = El ''DialogTrigger'' (spread [(''data-slot'', ''dialog-trigger'')] props) [] cs"

definition DialogPortal :: "attrs \<Rightarrow> 'e ui list \<Rightarrow> 'e ui" where
  "DialogPortal props cs = El ''DialogPortal'' (spread [(''data-slot'', ''dialog-portal'')] props) [] cs"

definition DialogOverlay :: "attrs \<Rightarrow> 'e ui" where
  "DialogOverlay props = El ''DialogOverlay'' (spread [(''data-slot'', ''dialog-overlay'')] props) [] []"

definition DialogClose :: "attrs \<Rightarrow> 'e ui list \<Rightarrow> 'e ui" where
  "DialogClose props cs = El ''DialogClose'' (spread [(''data-slot'', ''dialog-close'')] props) [] cs"

definition DialogContent :: "bool option \<Rightarrow> attrs \<Rightarrow> attrs \<Rightarrow> 'e ui list \<Rightarrow> 'e ui" where
  "DialogContent showCloseButton portalProps props children =
     DialogPortal portalProps
       [DialogOverlay [],
        El ''DialogViewport'' [(''data-slot'', ''dialog-viewport'')] []
          [El ''DialogPopup'' (spread [(''data-slot'', ''dialog-content'')] props) []
             (children @ only_if (or_else showCloseButton True)
                (DialogClose [] [El ''XIcon'' [(''aria-hidden'', ''true'')] [] [], tag ''span'' ''Close'']))]]"

definition DialogHeader :: "attrs \<Rightarrow> 'e ui list \<Rightarrow> 'e ui" where
  "DialogHeader props cs = El ''div'' (spread [(''data-slot'', ''dialog-header'')] props) [] cs"

definition DialogFooter :: "attrs \<Rightarrow> 'e ui list \<Rightarrow> 'e ui" where
  "DialogFooter props cs = El ''div'' (spread [(''data-slot'', ''dialog-footer'')] props) [] cs"

definition DialogTitle :: "attrs \<Rightarrow> 'e ui list \<Rightarrow> 'e ui" where
  "DialogTitle props cs = El ''DialogTitle'' (spread [(''data-slot'', ''dialog-title'')] props) [] cs"

definition DialogDescription :: "attrs \<Rightarrow> 'e ui list \<Rightarrow> 'e ui" where
  "DialogDescription props cs = El ''DialogDescription'' (spread [(''data-slot'', ''dialog-description'')] props) [] cs"

section \<open>Table\<close>

text \<open>
  The scroll container's own properties: \<open>sp_rest\<close> is what is left of them.  \<open>measured\<close> is the container's
  scroll width and client width once the effect has run.
\<close>

record table_props =
  tb_ariaLabel :: "string option"
  tb_ariaLabelledBy :: "string option"
  tb_scrollContainerLabel :: "string option"
  sp_ariaLabel :: "string option"
  sp_ariaLabelledBy :: "string option"
  sp_tabIndex :: "int option"
  sp_rest :: attrs

definition scroll_label :: "table_props \<Rightarrow> string" where
  "scroll_label t =
     (case sp_ariaLabel t of
        Some l \<Rightarrow> l
      | None \<Rightarrow> (case tb_scrollContainerLabel t of
          Some l \<Rightarrow> l
        | None \<Rightarrow> (case tb_ariaLabel t of None \<Rightarrow> ''Table scroll area'' | Some l \<Rightarrow> l @ '' scroll area'')))"

definition isHorizontallyScrollable :: "(int \<times> int) option \<Rightarrow> bool" where
  "isHorizontallyScrollable measured = (case measured of None \<Rightarrow> False | Some (scrollWidth, clientWidth) \<Rightarrow> scrollWidth > clientWidth)"

definition Table :: "table_props \<Rightarrow> (int \<times> int) option \<Rightarrow> attrs \<Rightarrow> 'e ui list \<Rightarrow> 'e ui" where
  "Table t measured props cs =
     El ''section''
       (spread (sp_rest t)
          (opt_attr ''aria-label'' (if sp_ariaLabelledBy t = None then Some (scroll_label t) else None)
           @ opt_attr ''aria-labelledby'' (sp_ariaLabelledBy t)
           @ [(''data-slot'', ''table-container'')]
           @ opt_attr ''tabIndex'' (map_option int_str (case sp_tabIndex t of
               Some i \<Rightarrow> Some i | None \<Rightarrow> if isHorizontallyScrollable measured then Some 0 else None)))) []
       [El ''table''
          (spread (opt_attr ''aria-label'' (tb_ariaLabel t) @ opt_attr ''aria-labelledby'' (tb_ariaLabelledBy t)
             @ [(''data-slot'', ''table'')]) props) [] cs]"

definition TableHeader :: "attrs \<Rightarrow> 'e ui list \<Rightarrow> 'e ui" where
  "TableHeader props cs = El ''thead'' (spread [(''data-slot'', ''table-header'')] props) [] cs"

definition TableBody :: "attrs \<Rightarrow> 'e ui list \<Rightarrow> 'e ui" where
  "TableBody props cs = El ''tbody'' (spread [(''data-slot'', ''table-body'')] props) [] cs"

definition TableFooter :: "attrs \<Rightarrow> 'e ui list \<Rightarrow> 'e ui" where
  "TableFooter props cs = El ''tfoot'' (spread [(''data-slot'', ''table-footer'')] props) [] cs"

definition TableRow :: "attrs \<Rightarrow> (string \<times> 'e) list \<Rightarrow> 'e ui list \<Rightarrow> 'e ui" where
  "TableRow props hs cs = El ''tr'' (spread [(''data-slot'', ''table-row'')] props) hs cs"

definition TableCell :: "attrs \<Rightarrow> 'e ui list \<Rightarrow> 'e ui" where
  "TableCell props cs = El ''td'' (spread [(''data-slot'', ''table-cell'')] props) [] cs"

definition TableCaption :: "attrs \<Rightarrow> 'e ui list \<Rightarrow> 'e ui" where
  "TableCaption props cs = El ''caption'' (spread [(''data-slot'', ''table-caption'')] props) [] cs"

record 'e head_props =
  hp_onClick :: "'e option"
  hp_onKeyDown :: "'e option"
  hp_tabIndex :: "int option"

definition opt_handler :: "string \<Rightarrow> 'e option \<Rightarrow> (string \<times> 'e) list" where
  "opt_handler k h = (case h of None \<Rightarrow> [] | Some e \<Rightarrow> [(k, e)])"

definition aria_sort :: "'e head_props \<Rightarrow> attrs \<Rightarrow> string option" where
  "aria_sort h props =
     (case map_of props ''aria-sort'' of Some s \<Rightarrow> Some s | None \<Rightarrow> if hp_onClick h \<noteq> None then Some ''none'' else None)"

definition TableHead :: "'e head_props \<Rightarrow> attrs \<Rightarrow> 'e ui list \<Rightarrow> 'e ui" where
  "TableHead h props children =
     (let isInteractive = (hp_onClick h \<noteq> None); tab = opt_attr ''tabIndex'' (map_option int_str (hp_tabIndex h)) in
      El ''th''
        (spread props (opt_attr ''aria-sort'' (aria_sort h props) @ [(''data-slot'', ''table-head'')]
           @ (if isInteractive then [] else tab))) []
        (if isInteractive
         then [El ''button'' ([(''data-slot'', ''table-head-button'')] @ tab @ [(''type'', ''button'')])
                 (opt_handler ''onClick'' (hp_onClick h) @ opt_handler ''onKeyDown'' (hp_onKeyDown h)) children]
         else children))"

section \<open>Lemmas\<close>

lemma ui_attr_El [simp]: "ui_attr (El n a h cs) k = map_of a k"
  by (simp add: ui_attr_def)

lemma opt_attr_get [simp]: "(m ++ map_of (opt_attr k v)) j = (if j = k \<and> v \<noteq> None then v else m j)"
  by (auto simp: opt_attr_def split: option.split)

lemma opt_attr_get_alone [simp]: "map_of (opt_attr k v) j = (if j = k then v else None)"
  by (auto simp: opt_attr_def split: option.split)

text \<open>A button that has no element of its own to render submits a form when, and only when, it is asked to.\<close>

lemma Button_type:
  "bt_render b = None \<Longrightarrow> ui_attr (Button b props hs cs) ''type'' = Some (or_else (map_of props ''type'') ''button'')"
  by (simp add: Button_def use_render_def spread_get)

text \<open>A loading button is disabled, and its first and only spinner stands where the leading icon was.\<close>

lemma loading_disables: "bt_loading b \<Longrightarrow> map_of props ''disabled'' = None \<Longrightarrow> map_of (button_attrs b props) ''disabled'' = Some ''true''"
  by (simp add: button_attrs_def button_disabled_def spread_get bool_str_def)

lemma loading_content:
  "bt_loading b \<Longrightarrow> button_content b cs =
     Spinner None None [] # (if isIconSize (bt_size b) then []
       else case bt_loadingText b of Some t \<Rightarrow> t | None \<Rightarrow> without_leading_icon cs)"
  by (simp add: button_content_def split: option.split)

text \<open>The trigger of a tooltip names the element that its content renders.\<close>

lemma join_filter_last:
  "i \<noteq> [] \<Longrightarrow> join_str '' '' (filter (\<lambda>s. s \<noteq> []) [d, i]) = (if d = [] then i else d @ '' '' @ i)"
  by simp

lemma trigger_names_content:
  "\<not> tc_disabled c \<Longrightarrow> tc_contentId c \<noteq> [] \<Longrightarrow>
     described_by (Some c) d False = (case d of None \<Rightarrow> [] | Some s \<Rightarrow> if s = [] then [] else s @ '' '') @ tc_contentId c"
  unfolding described_by_def Let_def by (simp split: option.split)

lemma content_id:
  "ui_find ''TooltipPopup'' (TooltipContent (Some c) p pp props []) \<noteq> [] \<and>
   (\<forall>u \<in> set (ui_find ''TooltipPopup'' (TooltipContent (Some c) p pp props [])). ui_attr u ''id'' = Some (tc_contentId c))"
  by (auto simp: TooltipContent_def ui_find_def only_if_def spread_get)

lemma tooltip_id_set: "tc_contentId (tooltip_provides i d) \<noteq> []"
  by (simp add: tooltip_provides_def)

text \<open>A tab without a variant of its own has the variant of its list.\<close>

lemma tab_inherits:
  "ui_kids (TabsList v [] (\<lambda>c. [TabsTab c None [] cs])) = [t] \<Longrightarrow>
     ui_attr t ''data-variant'' = ui_attr (TabsList v [] (\<lambda>c. [TabsTab c None [] cs])) ''data-variant''"
  by (auto simp: TabsList_def TabsTab_def ui_kids_def Let_def spread_get)

text \<open>A heading is sortable exactly when it holds a button, and only one of the two can be tabbed to.\<close>

lemma head_button:
  "hp_onClick h = Some e \<Longrightarrow>
     (\<exists>hs a. ui_kids (TableHead h props cs) = [El ''button'' a ((''onClick'', e) # hs) cs] \<and>
        map_of a ''tabIndex'' = map_option int_str (hp_tabIndex h)) \<and>
     ui_attr (TableHead h props cs) ''aria-sort'' = Some (or_else (map_of props ''aria-sort'') ''none'')"
  by (auto simp: TableHead_def Let_def ui_kids_def opt_handler_def aria_sort_def spread_get split: option.split)

text \<open>The scroll area is named, one way or the other, and focusable when the table overflows.\<close>

lemma table_area_named:
  "ui_attr (Table t m props cs) ''aria-label'' \<noteq> None \<or> ui_attr (Table t m props cs) ''aria-labelledby'' \<noteq> None"
  by (cases "sp_ariaLabelledBy t") (simp_all add: Table_def spread_get)

lemma table_area_focusable:
  "sp_tabIndex t = None \<Longrightarrow> sw > cw \<Longrightarrow> ui_attr (Table t (Some (sw, cw)) props cs) ''tabIndex'' = Some (int_str 0)"
  by (simp add: Table_def spread_get isHorizontallyScrollable_def)

end
