(* ===== verification/Menus.thy ===== *)
theory Menus
  imports Controls
begin

text \<open>
  The usage console's menus: \<open>components/ui\<close> dropdown-menu, select and navigation-menu.
\<close>

section \<open>Dropdown menu\<close>

definition DropdownMenu :: "attrs \<Rightarrow> 'e ui list option \<Rightarrow> 'e ui" where
  "DropdownMenu props children =
     El ''MenuRoot'' props [] (or_else children [El ''span'' [(''data-slot'', ''dropdown-menu''), (''hidden'', ''true'')] [] []])"

record 'e menu_trigger =
  mt_variant :: "string option"
  mt_showExpandIcon :: "bool option"
  mt_expandIcon :: "'e ui option"

definition DropdownMenuTrigger :: "'e menu_trigger \<Rightarrow> attrs \<Rightarrow> 'e ui list \<Rightarrow> 'e ui" where
  "DropdownMenuTrigger m props children =
     El ''MenuTrigger''
       (spread [(''data-slot'', ''dropdown-menu-trigger''), (''data-variant'', or_else (mt_variant m) ''default'')] props) []
       (children @ only_if (or_else (mt_showExpandIcon m) False)
          (El ''span'' [(''aria-hidden'', ''true''), (''data-slot'', ''dropdown-menu-trigger-icon'')] []
             [or_else (mt_expandIcon m) (icon ''ChevronsUpDownIcon'')]))"

definition DropdownMenuGroup :: "attrs \<Rightarrow> 'e ui list \<Rightarrow> 'e ui" where
  "DropdownMenuGroup props cs = El ''MenuGroup'' (spread [(''data-slot'', ''dropdown-menu-group'')] props) [] cs"

definition DropdownMenuPortal :: "attrs \<Rightarrow> 'e ui list \<Rightarrow> 'e ui" where
  "DropdownMenuPortal props cs = El ''MenuPortal'' props [] cs"

record menu_place =
  pl_side :: "string option"
  pl_sideOffset :: "int option"
  pl_align :: "string option"
  pl_alignOffset :: "int option"

definition DropdownMenuContent :: "menu_place \<Rightarrow> attrs \<Rightarrow> 'e ui list \<Rightarrow> 'e ui" where
  "DropdownMenuContent p props children =
     El ''MenuPositioner''
       [(''align'', or_else (pl_align p) ''start''), (''alignOffset'', int_str (or_else (pl_alignOffset p) 0)),
        (''side'', or_else (pl_side p) ''bottom''), (''sideOffset'', int_str (or_else (pl_sideOffset p) 4))] []
       [El ''MenuPopup'' (spread [(''data-slot'', ''dropdown-menu-content'')] props) [] children]"

definition DropdownMenuItem :: "string option \<Rightarrow> attrs \<Rightarrow> (string \<times> 'e) list \<Rightarrow> 'e ui list \<Rightarrow> 'e ui" where
  "DropdownMenuItem variant props hs children =
     El ''MenuItem''
       (spread [(''data-slot'', ''dropdown-menu-item''), (''data-variant'', or_else variant ''default'')] props) hs children"

definition DropdownMenuSeparator :: "attrs \<Rightarrow> 'e ui" where
  "DropdownMenuSeparator props = El ''MenuSeparator'' (spread [(''data-slot'', ''dropdown-menu-separator'')] props) [] []"

definition DropdownMenuGroupLabel :: "attrs \<Rightarrow> 'e ui list \<Rightarrow> 'e ui" where
  "DropdownMenuGroupLabel props cs =
     El ''MenuGroupLabel'' (spread [(''data-slot'', ''dropdown-menu-group-label'')] props) [] cs"

definition DropdownMenuCheckboxItem :: "string option \<Rightarrow> attrs \<Rightarrow> (string \<times> 'e) list \<Rightarrow> 'e ui list \<Rightarrow> 'e ui" where
  "DropdownMenuCheckboxItem variant props hs children =
     El ''MenuCheckboxItem''
       (spread [(''data-slot'', ''dropdown-menu-checkbox-item''), (''data-variant'', or_else variant ''default'')] props) hs
       [elem ''span'' children,
        El ''MenuCheckboxItemIndicator'' [(''data-slot'', ''dropdown-menu-checkbox-item-indicator'')] [] [icon ''CheckIcon'']]"

definition DropdownMenuSubmenu :: "string option \<Rightarrow> 'e ui list \<Rightarrow> attrs \<Rightarrow> 'e ui list \<Rightarrow> 'e ui" where
  "DropdownMenuSubmenu variant label props children =
     El ''MenuSubmenuRoot'' props []
       [El ''MenuSubmenuTrigger''
          [(''data-slot'', ''dropdown-menu-submenu-trigger''), (''data-variant'', or_else variant ''default'')] []
          [elem ''span'' label, icon ''ChevronRightIcon''],
        DropdownMenuPortal []
          [DropdownMenuContent
             \<lparr>pl_side = Some ''right'', pl_sideOffset = Some 8, pl_align = None, pl_alignOffset = None\<rparr> [] children]]"

section \<open>Select\<close>

definition SelectGroup :: "attrs \<Rightarrow> 'e ui list \<Rightarrow> 'e ui" where
  "SelectGroup props cs = El ''SelectGroup'' (spread [(''data-slot'', ''select-group'')] props) [] cs"

definition SelectValue :: "attrs \<Rightarrow> 'e ui" where
  "SelectValue props = El ''SelectValue'' (spread [(''data-slot'', ''select-value'')] props) [] []"

definition SelectTrigger :: "attrs \<Rightarrow> 'e ui list \<Rightarrow> 'e ui" where
  "SelectTrigger props children =
     El ''SelectTrigger'' (spread [(''data-slot'', ''select-trigger'')] props) []
       (children @ [elem ''SelectIcon'' [icon ''ChevronDownIcon'']])"

definition SelectScrollUpButton :: "attrs \<Rightarrow> 'e ui" where
  "SelectScrollUpButton props =
     El ''SelectScrollUpArrow'' (spread [(''data-slot'', ''select-scroll-up-button'')] props) [] [icon ''ChevronUpIcon'']"

definition SelectScrollDownButton :: "attrs \<Rightarrow> 'e ui" where
  "SelectScrollDownButton props =
     El ''SelectScrollDownArrow'' (spread [(''data-slot'', ''select-scroll-down-button'')] props) [] [icon ''ChevronDownIcon'']"

definition SelectContent :: "menu_place \<Rightarrow> bool option \<Rightarrow> attrs \<Rightarrow> 'e ui list \<Rightarrow> 'e ui" where
  "SelectContent p alignItemWithTrigger props children =
     (let a = bool_str (or_else alignItemWithTrigger False) in
      elem ''SelectPortal''
       [El ''SelectPositioner''
          [(''side'', or_else (pl_side p) ''bottom''), (''sideOffset'', int_str (or_else (pl_sideOffset p) 0)),
           (''align'', or_else (pl_align p) ''center''), (''alignOffset'', int_str (or_else (pl_alignOffset p) 0)),
           (''alignItemWithTrigger'', a)] []
          [El ''SelectPopup'' (spread [(''data-slot'', ''select-content''), (''data-align-trigger'', a)] props) []
             [SelectScrollUpButton [], elem ''SelectList'' children, SelectScrollDownButton []]]])"

definition SelectLabel :: "attrs \<Rightarrow> 'e ui list \<Rightarrow> 'e ui" where
  "SelectLabel props cs = El ''SelectGroupLabel'' (spread [(''data-slot'', ''select-label'')] props) [] cs"

definition SelectItem :: "attrs \<Rightarrow> 'e ui list \<Rightarrow> 'e ui" where
  "SelectItem props children =
     El ''SelectItem'' (spread [(''data-slot'', ''select-item'')] props) []
       [elem ''SelectItemText'' children, elem ''SelectItemIndicator'' [icon ''CheckIcon'']]"

definition SelectSeparator :: "attrs \<Rightarrow> 'e ui" where
  "SelectSeparator props = El ''SelectSeparator'' (spread [(''data-slot'', ''select-separator'')] props) [] []"

section \<open>Navigation bar\<close>

record nav_link =
  nl_active :: bool
  nl_disabled :: bool
  nl_tabIndex :: "int option"

text \<open>The click: nothing but the default is prevented when the link leads nowhere, else the caller's handler runs.\<close>

datatype 'e click = Prevented | Handled "'e option"

definition handleClick :: "nav_link \<Rightarrow> 'e option \<Rightarrow> 'e click" where
  "handleClick n onClick = (if nl_disabled n \<or> nl_active n then Prevented else Handled onClick)"

text \<open>The properties that are handed to \<open>useRender\<close>; the link's own come after the caller's.\<close>

definition nav_link_attrs :: "nav_link \<Rightarrow> attrs \<Rightarrow> attrs" where
  "nav_link_attrs n props =
     spread props
       (opt_attr ''aria-current'' (if nl_active n then Some ''page'' else None)
        @ opt_attr ''aria-disabled'' (if nl_disabled n then Some ''true'' else None)
        @ opt_attr ''data-active'' (if nl_active n then Some ''true'' else None)
        @ opt_attr ''data-disabled'' (if nl_disabled n then Some ''true'' else None)
        @ [(''data-slot'', ''nav-link'')]
        @ opt_attr ''tabIndex'' (map_option int_str (if nl_disabled n then Some (-1) else nl_tabIndex n)))"

definition nav_link_children :: "'e ui list \<Rightarrow> 'e ui list option \<Rightarrow> 'e ui list" where
  "nav_link_children ico children = ico @ (case children of None \<Rightarrow> [] | Some cs \<Rightarrow> [elem ''span'' cs])"

record 'e nav_dropdown =
  nd_active :: bool
  nd_disabled :: bool
  nd_icon :: "'e ui list"
  nd_trigger :: "'e ui list"
  nd_triggerProps :: attrs
  nd_showExpandIcon :: "bool option"
  nd_expandIcon :: "'e ui option"
  nd_contentProps :: attrs
  nd_place :: menu_place

definition NavDropdownMenu :: "'e nav_dropdown \<Rightarrow> attrs \<Rightarrow> 'e ui list \<Rightarrow> 'e ui" where
  "NavDropdownMenu n props children =
     DropdownMenu props (Some
       [DropdownMenuTrigger
          \<lparr>mt_variant = Some ''ghost'', mt_showExpandIcon = Some (or_else (nd_showExpandIcon n) True),
           mt_expandIcon = nd_expandIcon n\<rparr>
          (spread (nd_triggerProps n)
             (opt_attr ''aria-current'' (if nd_active n then Some ''page'' else None)
              @ opt_attr ''data-active'' (if nd_active n then Some ''true'' else None)
              @ opt_attr ''data-disabled'' (if nd_disabled n then Some ''true'' else None)
              @ [(''data-slot'', ''nav-dropdown-menu-trigger''), (''disabled'', bool_str (nd_disabled n))]))
          (nd_icon n @ nd_trigger n),
        DropdownMenuPortal []
          [DropdownMenuContent (nd_place n) (spread (nd_contentProps n) [(''data-slot'', ''nav-dropdown-menu-content'')])
             children]])"

definition MenuBar :: "attrs \<Rightarrow> 'e ui list \<Rightarrow> 'e ui" where
  "MenuBar props cs = El ''header'' (spread [(''data-slot'', ''menu-bar'')] props) [] cs"

definition NavigationMenu :: "attrs \<Rightarrow> 'e ui list \<Rightarrow> 'e ui" where
  "NavigationMenu = MenuBar"

definition MenuBarBrand :: "attrs \<Rightarrow> 'e ui list \<Rightarrow> 'e ui" where
  "MenuBarBrand props cs = El ''a'' (spread [(''data-slot'', ''menu-bar-brand'')] props) [] cs"

definition MenuBarNav :: "attrs \<Rightarrow> 'e ui list \<Rightarrow> 'e ui" where
  "MenuBarNav props cs = El ''nav'' (spread [(''data-slot'', ''menu-bar-nav'')] props) [] cs"

definition MenuBarActions :: "attrs \<Rightarrow> 'e ui list \<Rightarrow> 'e ui" where
  "MenuBarActions props cs = El ''div'' (spread [(''data-slot'', ''menu-bar-actions'')] props) [] cs"

section \<open>Lemmas\<close>

text \<open>A link that is disabled leads nowhere: its handler does not run, it is announced as disabled and not tabbed to.\<close>

lemma disabled_link:
  "nl_disabled n \<Longrightarrow> handleClick n e = Prevented \<and> map_of (nav_link_attrs n props) ''aria-disabled'' = Some ''true'' \<and>
     map_of (nav_link_attrs n props) ''tabIndex'' = Some (int_str (-1))"
  by (simp add: handleClick_def nav_link_attrs_def spread_get)

lemma link_handler_runs: "handleClick n e = Handled h \<longleftrightarrow> h = e \<and> \<not> nl_disabled n \<and> \<not> nl_active n"
  by (auto simp: handleClick_def)

text \<open>The caller of a navigation dropdown cannot take its marks away.\<close>

lemma nav_dropdown_marks:
  "\<exists>t rest. ui_kids (NavDropdownMenu n props cs) = t # rest \<and>
     ui_attr t ''disabled'' = Some (bool_str (nd_disabled n)) \<and> ui_attr t ''data-slot'' = Some ''nav-dropdown-menu-trigger'' \<and>
     (nd_active n \<longrightarrow> ui_attr t ''aria-current'' = Some ''page'')"
  by (simp add: NavDropdownMenu_def DropdownMenu_def DropdownMenuTrigger_def ui_kids_def spread_get)

end
