(* ===== verification/ManagerUi.thy ===== *)
theory ManagerUi
  imports Controls
begin

text \<open>
  The key manager's own controls (\<open>frontend/src/components/ui\<close> badge, button, card, input, label and
  \<open>components/Avatar\<close>).  Its dialog, menus and table are the same registry files as the console's; its button is an
  older one that differs in one point.
\<close>

section \<open>Badge, card, input, label\<close>

definition Badge :: "string option \<Rightarrow> render_element option \<Rightarrow> attrs \<Rightarrow> (string \<times> 'e) list \<Rightarrow> 'e ui list \<Rightarrow> 'e ui" where
  "Badge variant render props hs cs =
     use_render (or_else render (''span'', []))
       (spread [(''data-slot'', ''badge''), (''data-variant'', or_else variant ''default'')] props) hs cs"

definition Card :: "string option \<Rightarrow> attrs \<Rightarrow> 'e ui list \<Rightarrow> 'e ui" where
  "Card sz props cs = El ''div'' (spread [(''data-slot'', ''card''), (''data-size'', or_else sz ''default'')] props) [] cs"

definition CardHeader :: "attrs \<Rightarrow> 'e ui list \<Rightarrow> 'e ui" where
  "CardHeader props cs = El ''div'' (spread [(''data-slot'', ''card-header'')] props) [] cs"

definition CardTitle :: "attrs \<Rightarrow> 'e ui list \<Rightarrow> 'e ui" where
  "CardTitle props cs = El ''div'' (spread [(''data-slot'', ''card-title'')] props) [] cs"

definition CardDescription :: "attrs \<Rightarrow> 'e ui list \<Rightarrow> 'e ui" where
  "CardDescription props cs = El ''div'' (spread [(''data-slot'', ''card-description'')] props) [] cs"

definition CardAction :: "attrs \<Rightarrow> 'e ui list \<Rightarrow> 'e ui" where
  "CardAction props cs = El ''div'' (spread [(''data-slot'', ''card-action'')] props) [] cs"

definition CardContent :: "attrs \<Rightarrow> 'e ui list \<Rightarrow> 'e ui" where
  "CardContent props cs = El ''div'' (spread [(''data-slot'', ''card-content'')] props) [] cs"

definition CardFooter :: "attrs \<Rightarrow> 'e ui list \<Rightarrow> 'e ui" where
  "CardFooter props cs = El ''div'' (spread [(''data-slot'', ''card-footer'')] props) [] cs"

text \<open>The warning icon is always there; styling shows it for an invalid field.\<close>

definition Input :: "attrs \<Rightarrow> (string \<times> 'e) list \<Rightarrow> 'e ui" where
  "Input props hs =
     elem ''div'' [El ''Input'' (spread [(''data-slot'', ''input'')] props) hs [],
       El ''TriangleAlert'' [(''aria-hidden'', ''true'')] [] []]"

definition Label :: "attrs \<Rightarrow> 'e ui list \<Rightarrow> 'e ui" where
  "Label props cs = El ''label'' (spread [(''data-slot'', ''label'')] props) [] cs"

section \<open>Avatar\<close>

definition ManagerAvatar :: "string option \<Rightarrow> attrs \<Rightarrow> 'e ui list \<Rightarrow> 'e ui" where
  "ManagerAvatar sz props cs =
     El ''AvatarRoot'' (spread [(''data-slot'', ''avatar''), (''data-size'', or_else sz ''default'')] props) [] cs"

definition ManagerAvatarImage :: "attrs \<Rightarrow> 'e ui" where
  "ManagerAvatarImage props = El ''AvatarImage'' (spread [(''data-slot'', ''avatar-image'')] props) [] []"

definition ManagerAvatarFallback :: "attrs \<Rightarrow> 'e ui list \<Rightarrow> 'e ui" where
  "ManagerAvatarFallback props cs = El ''AvatarFallback'' (spread [(''data-slot'', ''avatar-fallback'')] props) [] cs"

definition AvatarBadge :: "attrs \<Rightarrow> 'e ui list \<Rightarrow> 'e ui" where
  "AvatarBadge props cs = El ''span'' (spread [(''data-slot'', ''avatar-badge'')] props) [] cs"

definition AvatarGroup :: "attrs \<Rightarrow> 'e ui list \<Rightarrow> 'e ui" where
  "AvatarGroup props cs = El ''div'' (spread [(''data-slot'', ''avatar-group'')] props) [] cs"

definition AvatarGroupCount :: "attrs \<Rightarrow> 'e ui list \<Rightarrow> 'e ui" where
  "AvatarGroupCount props cs = El ''div'' (spread [(''data-slot'', ''avatar-group-count'')] props) [] cs"

section \<open>Button\<close>

text \<open>The default element says \<open>type="button"\<close> itself, and an element's own attributes win.\<close>

definition ManagerButton :: "'e button_props \<Rightarrow> attrs \<Rightarrow> (string \<times> 'e) list \<Rightarrow> 'e ui list \<Rightarrow> 'e ui" where
  "ManagerButton b props hs children =
     use_render (or_else (bt_render b) (''button'', [(''type'', ''button'')])) (button_attrs b props) hs
       (button_content b children)"

section \<open>Lemmas\<close>

text \<open>
  The two buttons are the same, except that a \<open>type\<close> property has no effect on the key manager's: it submits a form
  only through an element of its own.
\<close>

lemma buttons_agree:
  "bt_render b \<noteq> None \<or> map_of props ''type'' \<in> {None, Some ''button''} \<Longrightarrow> ManagerButton b props hs cs = Button b props hs cs"
  by (auto simp: ManagerButton_def Button_def)

lemma manager_button_type:
  "ui_attr (ManagerButton b props hs cs) ''type'' =
     (case bt_render b of
        None \<Rightarrow> Some ''button''
      | Some (n, a) \<Rightarrow> (case map_of a ''type'' of Some t \<Rightarrow> Some t | None \<Rightarrow> map_of (button_attrs b props) ''type''))"
  by (simp add: ManagerButton_def use_render_def spread_get split: option.split prod.split)

end
