(* ===== verification/ManagerRegistry.thy ===== *)
theory ManagerRegistry
  imports Menus ManagerUi
begin

text \<open>
  The files of \<open>frontend/src/components/ui\<close> that are the same registry components as the console's: spinner,
  alert, dialog, table, dropdown menu, select and navigation bar.  The two copies differ in quotes, line breaks and
  comments only, so each function is the one of the console's theory.
\<close>

section \<open>spinner.tsx\<close>

definition ManagerSpinner :: "string option \<Rightarrow> string option \<Rightarrow> attrs \<Rightarrow> 'e ui" where
  "ManagerSpinner = Spinner"

section \<open>alert.tsx\<close>

definition ManagerAlert :: "alert_variant option \<Rightarrow> string option \<Rightarrow> attrs \<Rightarrow> 'e ui list \<Rightarrow> 'e ui" where
  "ManagerAlert = Alert"

definition ManagerAlertTitle :: "attrs \<Rightarrow> 'e ui list \<Rightarrow> 'e ui" where
  "ManagerAlertTitle = AlertTitle"

definition ManagerAlertDescription :: "attrs \<Rightarrow> 'e ui list \<Rightarrow> 'e ui" where
  "ManagerAlertDescription = AlertDescription"

definition ManagerAlertAction :: "attrs \<Rightarrow> 'e ui list \<Rightarrow> 'e ui" where
  "ManagerAlertAction = AlertAction"

section \<open>dialog.tsx\<close>

definition ManagerDialog :: "attrs \<Rightarrow> 'e ui list option \<Rightarrow> 'e ui" where
  "ManagerDialog = Dialog"

definition ManagerDialogTrigger :: "attrs \<Rightarrow> 'e ui list \<Rightarrow> 'e ui" where
  "ManagerDialogTrigger = DialogTrigger"

definition ManagerDialogPortal :: "attrs \<Rightarrow> 'e ui list \<Rightarrow> 'e ui" where
  "ManagerDialogPortal = DialogPortal"

definition ManagerDialogOverlay :: "attrs \<Rightarrow> 'e ui" where
  "ManagerDialogOverlay = DialogOverlay"

definition ManagerDialogContent :: "bool option \<Rightarrow> attrs \<Rightarrow> attrs \<Rightarrow> 'e ui list \<Rightarrow> 'e ui" where
  "ManagerDialogContent = DialogContent"

definition ManagerDialogClose :: "attrs \<Rightarrow> 'e ui list \<Rightarrow> 'e ui" where
  "ManagerDialogClose = DialogClose"

definition ManagerDialogHeader :: "attrs \<Rightarrow> 'e ui list \<Rightarrow> 'e ui" where
  "ManagerDialogHeader = DialogHeader"

definition ManagerDialogFooter :: "attrs \<Rightarrow> 'e ui list \<Rightarrow> 'e ui" where
  "ManagerDialogFooter = DialogFooter"

definition ManagerDialogTitle :: "attrs \<Rightarrow> 'e ui list \<Rightarrow> 'e ui" where
  "ManagerDialogTitle = DialogTitle"

definition ManagerDialogDescription :: "attrs \<Rightarrow> 'e ui list \<Rightarrow> 'e ui" where
  "ManagerDialogDescription = DialogDescription"

section \<open>table.tsx\<close>

definition ManagerTable :: "table_props \<Rightarrow> (int \<times> int) option \<Rightarrow> attrs \<Rightarrow> 'e ui list \<Rightarrow> 'e ui" where
  "ManagerTable = Table"

definition ManagerTableHeader :: "attrs \<Rightarrow> 'e ui list \<Rightarrow> 'e ui" where
  "ManagerTableHeader = TableHeader"

definition ManagerTableBody :: "attrs \<Rightarrow> 'e ui list \<Rightarrow> 'e ui" where
  "ManagerTableBody = TableBody"

definition ManagerTableFooter :: "attrs \<Rightarrow> 'e ui list \<Rightarrow> 'e ui" where
  "ManagerTableFooter = TableFooter"

definition ManagerTableRow :: "attrs \<Rightarrow> (string \<times> 'e) list \<Rightarrow> 'e ui list \<Rightarrow> 'e ui" where
  "ManagerTableRow = TableRow"

definition ManagerTableHead :: "'e head_props \<Rightarrow> attrs \<Rightarrow> 'e ui list \<Rightarrow> 'e ui" where
  "ManagerTableHead = TableHead"

definition ManagerTableCell :: "attrs \<Rightarrow> 'e ui list \<Rightarrow> 'e ui" where
  "ManagerTableCell = TableCell"

definition ManagerTableCaption :: "attrs \<Rightarrow> 'e ui list \<Rightarrow> 'e ui" where
  "ManagerTableCaption = TableCaption"

section \<open>dropdown-menu.tsx\<close>

definition ManagerDropdownMenu :: "attrs \<Rightarrow> 'e ui list option \<Rightarrow> 'e ui" where
  "ManagerDropdownMenu = DropdownMenu"

definition ManagerDropdownMenuTrigger :: "'e menu_trigger \<Rightarrow> attrs \<Rightarrow> 'e ui list \<Rightarrow> 'e ui" where
  "ManagerDropdownMenuTrigger = DropdownMenuTrigger"

definition ManagerDropdownMenuGroup :: "attrs \<Rightarrow> 'e ui list \<Rightarrow> 'e ui" where
  "ManagerDropdownMenuGroup = DropdownMenuGroup"

definition ManagerDropdownMenuContent :: "menu_place \<Rightarrow> attrs \<Rightarrow> 'e ui list \<Rightarrow> 'e ui" where
  "ManagerDropdownMenuContent = DropdownMenuContent"

definition ManagerDropdownMenuItem :: "string option \<Rightarrow> attrs \<Rightarrow> (string \<times> 'e) list \<Rightarrow> 'e ui list \<Rightarrow> 'e ui" where
  "ManagerDropdownMenuItem = DropdownMenuItem"

definition ManagerDropdownMenuSeparator :: "attrs \<Rightarrow> 'e ui" where
  "ManagerDropdownMenuSeparator = DropdownMenuSeparator"

definition ManagerDropdownMenuGroupLabel :: "attrs \<Rightarrow> 'e ui list \<Rightarrow> 'e ui" where
  "ManagerDropdownMenuGroupLabel = DropdownMenuGroupLabel"

definition ManagerDropdownMenuCheckboxItem :: "string option \<Rightarrow> attrs \<Rightarrow> (string \<times> 'e) list \<Rightarrow> 'e ui list \<Rightarrow> 'e ui" where
  "ManagerDropdownMenuCheckboxItem = DropdownMenuCheckboxItem"

definition ManagerDropdownMenuSubmenu :: "string option \<Rightarrow> 'e ui list \<Rightarrow> attrs \<Rightarrow> 'e ui list \<Rightarrow> 'e ui" where
  "ManagerDropdownMenuSubmenu = DropdownMenuSubmenu"

section \<open>select.tsx\<close>

definition ManagerSelectGroup :: "attrs \<Rightarrow> 'e ui list \<Rightarrow> 'e ui" where
  "ManagerSelectGroup = SelectGroup"

definition ManagerSelectValue :: "attrs \<Rightarrow> 'e ui" where
  "ManagerSelectValue = SelectValue"

definition ManagerSelectTrigger :: "attrs \<Rightarrow> 'e ui list \<Rightarrow> 'e ui" where
  "ManagerSelectTrigger = SelectTrigger"

definition ManagerSelectContent :: "menu_place \<Rightarrow> bool option \<Rightarrow> attrs \<Rightarrow> 'e ui list \<Rightarrow> 'e ui" where
  "ManagerSelectContent = SelectContent"

definition ManagerSelectLabel :: "attrs \<Rightarrow> 'e ui list \<Rightarrow> 'e ui" where
  "ManagerSelectLabel = SelectLabel"

definition ManagerSelectItem :: "attrs \<Rightarrow> 'e ui list \<Rightarrow> 'e ui" where
  "ManagerSelectItem = SelectItem"

definition ManagerSelectSeparator :: "attrs \<Rightarrow> 'e ui" where
  "ManagerSelectSeparator = SelectSeparator"

definition ManagerSelectScrollUpButton :: "attrs \<Rightarrow> 'e ui" where
  "ManagerSelectScrollUpButton = SelectScrollUpButton"

definition ManagerSelectScrollDownButton :: "attrs \<Rightarrow> 'e ui" where
  "ManagerSelectScrollDownButton = SelectScrollDownButton"

section \<open>navigation-menu.tsx\<close>

definition manager_handleClick :: "nav_link \<Rightarrow> 'e option \<Rightarrow> 'e click" where
  "manager_handleClick = handleClick"

definition manager_nav_link_attrs :: "nav_link \<Rightarrow> attrs \<Rightarrow> attrs" where
  "manager_nav_link_attrs = nav_link_attrs"

definition manager_nav_link_children :: "'e ui list \<Rightarrow> 'e ui list option \<Rightarrow> 'e ui list" where
  "manager_nav_link_children = nav_link_children"

definition ManagerNavDropdownMenu :: "'e nav_dropdown \<Rightarrow> attrs \<Rightarrow> 'e ui list \<Rightarrow> 'e ui" where
  "ManagerNavDropdownMenu = NavDropdownMenu"

definition ManagerMenuBar :: "attrs \<Rightarrow> 'e ui list \<Rightarrow> 'e ui" where
  "ManagerMenuBar = MenuBar"

definition ManagerMenuBarBrand :: "attrs \<Rightarrow> 'e ui list \<Rightarrow> 'e ui" where
  "ManagerMenuBarBrand = MenuBarBrand"

definition ManagerMenuBarNav :: "attrs \<Rightarrow> 'e ui list \<Rightarrow> 'e ui" where
  "ManagerMenuBarNav = MenuBarNav"

definition ManagerMenuBarActions :: "attrs \<Rightarrow> 'e ui list \<Rightarrow> 'e ui" where
  "ManagerMenuBarActions = MenuBarActions"

section \<open>Lemmas\<close>

text \<open>
  What was proved of the console's components holds of the key manager's: a sortable heading holds its button, a
  disabled link does nothing, and the area a table scrolls in has a name.
\<close>

lemma manager_table_area_named:
  "ui_attr (ManagerTable t m props cs) ''aria-label'' \<noteq> None \<or> ui_attr (ManagerTable t m props cs) ''aria-labelledby'' \<noteq> None"
  unfolding ManagerTable_def by (rule table_area_named)

lemma manager_disabled_link: "nl_disabled n \<Longrightarrow> manager_handleClick n e = Prevented"
  unfolding manager_handleClick_def by (simp add: disabled_link)

text \<open>The submit button of the create dialog: it submits through an element of its own, and is disabled while busy.\<close>

lemma submit_button_type:
  "bt_render b = Some (''button'', [(''type'', ''submit'')]) \<Longrightarrow> ui_attr (ManagerButton b props hs cs) ''type'' = Some ''submit''"
  by (simp add: manager_button_type)

end
