(* ===== verification/DocsLinks.thy ===== *)
theory DocsLinks
  imports Browser
begin

text \<open>
  \<open>docs/src/plugins/remark-base-links.ts\<close>: the base path of the documentation site in front of root-relative
  links and images of a page.  A page is a tree of nodes; only links and images with a text as their address are
  touched.
\<close>

text \<open>\<open>base.replace(/\/$/, '')\<close>.\<close>

definition drop_final_slash :: "string \<Rightarrow> string" where
  "drop_final_slash s = (if s \<noteq> [] \<and> last s = CHR ''/'' then butlast s else s)"

definition prefixUrl :: "string \<Rightarrow> string \<Rightarrow> string" where
  "prefixUrl url base =
     (if base = [] \<or> base = ''/'' then url
      else if \<not> starts_with ''/'' url then url
      else if starts_with ''//'' url then url
      else let p = drop_final_slash base in if starts_with (p @ ''/'') url then url else p @ url)"

datatype mdast = Node (md_type: string) (md_url: "string option") (md_children: "mdast list")

primrec visit_links :: "(string \<Rightarrow> string) \<Rightarrow> mdast \<Rightarrow> mdast" where
  "visit_links f (Node t u cs) =
     Node t (if t = ''link'' \<or> t = ''image'' then map_option f u else u) (map (visit_links f) cs)"

definition remarkBaseLinks :: "string option \<Rightarrow> mdast \<Rightarrow> mdast" where
  "remarkBaseLinks base tree = visit_links (\<lambda>u. prefixUrl u (or_else base ''/'')) tree"

section \<open>Lemmas\<close>

text \<open>Addresses with a scheme, anchors, relative and protocol-relative ones stay as they are.\<close>

lemma prefixUrl_untouched:
  "\<not> starts_with ''/'' url \<or> starts_with ''//'' url \<Longrightarrow> prefixUrl url base = url"
  by (simp add: prefixUrl_def)

lemma starts_with_common: "starts_with (p @ q) (p @ r) = starts_with q r"
  by (induction p) simp_all

lemma prefixUrl_idem: "prefixUrl (prefixUrl url base) base = prefixUrl url base"
proof (cases "base = [] \<or> base = ''/'' \<or> \<not> starts_with ''/'' url \<or> starts_with ''//'' url")
  case False
  let ?p = "drop_final_slash base"
  show ?thesis
  proof (cases "starts_with (?p @ ''/'') url")
    case False
    then have "prefixUrl url base = ?p @ url" using \<open>\<not> (base = [] \<or> _)\<close> by (simp add: prefixUrl_def Let_def)
    moreover have "starts_with (?p @ ''/'') (?p @ url)" using \<open>\<not> (base = [] \<or> _)\<close> by (simp add: starts_with_common)
    ultimately show ?thesis by (simp add: prefixUrl_def Let_def)
  qed (simp add: prefixUrl_def Let_def)
qed (auto simp: prefixUrl_def)

lemma visit_links_comp: "visit_links f (visit_links g t) = visit_links (\<lambda>u. f (g u)) t"
  by (induction t) (simp add: option.map_comp o_def)

lemma remarkBaseLinks_idem: "remarkBaseLinks base (remarkBaseLinks base tree) = remarkBaseLinks base tree"
  by (simp add: remarkBaseLinks_def visit_links_comp prefixUrl_idem)

text \<open>The root of the site itself is not recognised as prefixed.\<close>

lemma prefix_of_root: "prefixUrl ''/docs'' ''/docs'' = ''/docs/docs''"
  by (simp add: prefixUrl_def drop_final_slash_def Let_def)

end
