(* ===== verification/Samples.thy ===== *)
theory Samples
  imports TrafficScreen ConsoleLinks BootScript KeyScreen ManagerRegistry DocsLinks
begin

text \<open>
  Small concrete inputs: a receipt, filters, a session, a key, a day of spend, and short runs of the feed, the
  stream, a polled read, the palette and the key manager page, with the facts that make them runs.  The witnesses of the root
  theory apply its properties to them.
\<close>

definition ex_receipt :: "string \<Rightarrow> int \<Rightarrow> receipt" where
  "ex_receipt i t =
     \<lparr>rc_id = i, rc_traceId = ''t'', rc_sessionId = None, rc_ts = t, rc_durationMs = 10, rc_keyId = ''k1'',
      rc_keyName = ''ci'', rc_team = ''web'', rc_project = ''site'', rc_projectId = None, rc_actor = None,
      rc_requestedModel = ''m'', rc_resolvedModel = ''m'', rc_backend = ''vllm'', rc_inputTokens = 1,
      rc_cachedInputTokens = 0, rc_outputTokens = 1, rc_reasoningTokens = 0, rc_cacheWriteTokens = None,
      rc_costUsd = None, rc_verdict = Allowed, rc_status = 200, rc_errorCode = None, rc_errorDetail = None,
      rc_inFlight = False\<rparr>"

definition ex_filters :: "string \<Rightarrow> filters" where
  "ex_filters t = [(DimTeam, [t])]"

definition ex_window :: traffic_window where
  "ex_window = \<lparr>tw_since = 0, tw_before = None\<rparr>"

lemma ex_receipt_sel [simp]:
  "rc_id (ex_receipt i t) = i" "rc_ts (ex_receipt i t) = t" "rc_inFlight (ex_receipt i t) = False"
  by (simp_all add: ex_receipt_def)

text \<open>A run of the feed: mounted, its first page answered with a continuation, an older page asked for.\<close>

definition ex_loaded :: feed where
  "ex_loaded =
     (let s = mount [] 5 (ex_filters ''web'') ex_window
      in first_reply (hd (fd_first s)) (Inr ([ex_receipt ''a'' 3], Some 2)) s)"

lemma ex_loaded_run: "feed_run [] (\<lambda>q r. True) ex_loaded"
proof -
  let ?s = "mount [] 5 (ex_filters ''web'') ex_window"
  have "feed_step [] (\<lambda>q r. True) ?s (first_reply (hd (fd_first ?s)) (Inr ([ex_receipt ''a'' 3], Some 2)) ?s)"
    by (rule feed_step.FirstReply [where f = "ex_filters ''web''" and w = ex_window])
      (simp_all add: mount_def run_effect_def Let_def page_ok_def in_window_def ex_window_def)
  with feed_run.Mount show ?thesis unfolding ex_loaded_def Let_def by (rule feed_run.Step)
qed

lemma ex_loaded_rows: "fs_rows (fd_state ex_loaded) = [ex_receipt ''a'' 3]" "fs_loaded (fd_state ex_loaded)"
  "fs_continueBefore (fd_state ex_loaded) = Some 2" "\<not> fs_reachedEnd (fd_state ex_loaded)"
  "fd_filters ex_loaded = ex_filters ''web''" "fd_window ex_loaded = ex_window"
  "fs_key (fd_state ex_loaded) = Some (feed_key [] (ex_filters ''web'') ex_window)"
  "fd_older ex_loaded = []" "\<not> fd_loadingOlder ex_loaded"
  by (simp_all add: ex_loaded_def mount_def run_effect_def first_reply_def update_if_def empty_state_def
      mergeNewer_def Let_def)

text \<open>The same run, with an older page asked for.\<close>

definition ex_asked :: feed where "ex_asked = loadOlder [] ex_loaded"

lemma ex_key_neq: "feed_key [] (ex_filters ''b'') ex_window \<noteq> feed_key [] (ex_filters ''web'') ex_window"
proof
  assume "feed_key [] (ex_filters ''b'') ex_window = feed_key [] (ex_filters ''web'') ex_window"
  from feed_key_inj [OF this] have "tail_query [] (ex_filters ''b'') = tail_query [] (ex_filters ''web'')" by simp
  then have "queryString [] (ex_filters ''b'') None = queryString [] (ex_filters ''web'') None"
    unfolding tail_query_def by (rule p_string_inj)
  then show False
    by (simp add: queryString_eq filter_params_def ex_filters_def window_params_def key_value_def)
qed

lemma ex_asked_older:
  "fd_loadingOlder ex_asked" "fd_filters ex_asked = ex_filters ''web''" "fd_window ex_asked = ex_window"
  "\<exists>p. fd_older ex_asked = [\<lparr>oq_key = feed_key [] (ex_filters ''web'') ex_window, oq_path = p,
     oq_window = \<lparr>tw_since = 0, tw_before = Some 2\<rparr>\<rparr>]"
  by (simp_all add: ex_asked_def loadOlder_def current_def ex_loaded_rows older_before_def Let_def ex_window_def)

lemma ex_asked_run: "feed_run [] (\<lambda>q r. True) ex_asked"
  unfolding ex_asked_def by (rule feed_run.Step [OF ex_loaded_run feed_step.LoadOlder])

text \<open>A run: a tail opens the connection, a receipt arrives, the timer flushes it to the tailer.\<close>

definition ex_streaming :: stream where
  "ex_streaming = flush (on_receipt (ex_receipt ''a'' 3) (tail Api ''team=web'' 7 (init_stream [])))"

lemma ex_streaming_run: "stream_run Api [] ex_streaming"
proof -
  let ?t = "tail Api ''team=web'' 7 (init_stream [])"
  have o: "st_es ?t = Some ''team=web''"
    by (simp add: tail_def start_def Let_def init_stream_def)
  have "stream_run Api [] ?t" by (rule stream_run.Step [OF stream_run.Start stream_step.Tail])
  then have "stream_run Api [] (on_receipt (ex_receipt ''a'' 3) ?t)"
    by (rule stream_run.Step) (rule stream_step.Receipt, simp add: o)
  then show ?thesis unfolding ex_streaming_def
    by (rule stream_run.Step) (rule stream_step.Timer, simp add: on_receipt_def o)
qed

definition ex_live :: "nat live" where
  "ex_live = live_reply (1, ''/a'') (Inr 7) (live_mount Api 0 (Some ''/a''))"

lemma ex_live_run: "live_run Api (\<lambda>p d. d = 7) 0 ex_live"
  unfolding ex_live_def
  by (rule live_run.Step [OF live_run.Mount], rule live_step.Reply)
    (simp_all add: live_mount_def live_effect_def live_load_def live_path_set_def Let_def)

definition ex_session :: auth_state where
  "ex_session =
     \<lparr>au_keycloak = Some \<lparr>kc_authenticated = True, kc_token = Some ''t'', kc_claims = None, kc_fake = False\<rparr>,
      au_config = \<lparr>cs_config = None, cs_fetches = 0\<rparr>, au_logins = 0, au_updates = [], au_logouts = []\<rparr>"

definition ex_refused :: "nat \<Rightarrow> request \<Rightarrow> string + reply" where
  "ex_refused n q = Inr \<lparr>rp_status = (if n = 0 then 401 else 204), rp_text = None, rp_json = Inl []\<rparr>"

definition ex_env :: auth_env where
  "ex_env = \<lparr>ae_production = True, ae_devNoAuth = True, ae_injected = Some
     \<lparr>ij_authenticated = True, ij_token = Some ''fake'', ij_claims = None\<rparr>\<rparr>"

definition ex_config :: app_config where
  "ex_config = \<lparr>cf_keycloak = \<lparr>kcf_url = ''https://kc'', kcf_realm = ''r'', kcf_clientId = ''c''\<rparr>, cf_title = None,
     cf_logoUrl = Some ''javascript:alert(1)'', cf_logoUrlDark = None, cf_faviconUrl = None, cf_theme = None\<rparr>"

definition ex_fetch :: "nat \<Rightarrow> string + config_response" where
  "ex_fetch n = Inr \<lparr>cr_status = 200, cr_body = Inr ex_config\<rparr>"

definition ex_real :: keycloak where
  "ex_real = \<lparr>kc_authenticated = True, kc_token = Some ''real'', kc_claims = None, kc_fake = False\<rparr>"

definition ex_login :: "keycloak_config \<Rightarrow> string + keycloak" where
  "ex_login c = Inr ex_real"

definition ex_storage :: storage where
  "ex_storage = \<lparr>st_data = [''nebari:themeMode'' \<mapsto> ''sepia''], st_read_ok = True, st_write_ok = True\<rparr>"

definition ex_model :: km_model where "ex_model = \<lparr>km_name = ''llama'', km_namespace = ''ns''\<rparr>"

definition ex_creating :: page where
  "ex_creating = on_submit (pick_model (Some ''llama'') (page_init\<lparr>pg_dialog := CreateDialog\<rparr>))"

lemma ex_creating_run: "km_run [ex_model] [] ex_creating"
proof -
  have "km_run [ex_model] [] (page_init\<lparr>pg_dialog := CreateDialog\<rparr>)"
    by (rule km_run.Step [OF km_run.Start km_step.OpenCreate]) (simp add: page_init_def)
  then have "km_run [ex_model] [] (pick_model (Some ''llama'') (page_init\<lparr>pg_dialog := CreateDialog\<rparr>))"
    by (rule km_run.Step) (rule km_step.PickModel, simp_all add: ex_model_def)
  then show ?thesis unfolding ex_creating_def
    by (rule km_run.Step) (rule km_step.Submit, simp_all add: pick_model_def page_init_def)
qed

definition ex_created :: page where "ex_created = create_reply (Inr (''cid'', ''sk-1'')) ex_creating"

definition ex_key :: user_key where
  "ex_key = \<lparr>uk_clientId = ''old'', uk_creator = ''u'', uk_description = [], uk_createdAt = [], uk_modelName = ''llama'',
     uk_namespace = ''ns''\<rparr>"

definition ex_team :: team where
  "ex_team = \<lparr>tm_id = ''web'', tm_name = ''Web'', tm_costCenter = ''CC-1''\<rparr>"

definition ex_api_key :: "string \<Rightarrow> int \<Rightarrow> api_key" where
  "ex_api_key i n =
     \<lparr>ak_id = i, ak_name = ''ci'', ak_prefix = ''sk'', ak_team = ''web'', ak_project = ''site'', ak_projectId = ''p1'',
      ak_lastUsed = ''now'', ak_requests24h = n, ak_hourly24h = [], ak_spend24hUsd = None, ak_unpriced24h = None,
      ak_owner = ''ann''\<rparr>"

definition ex_fixtures :: fixtures where
  "ex_fixtures =
     \<lparr>fx_teams = [ex_team], fx_keys = [ex_api_key ''k1'' 30, ex_api_key ''k2'' 10],
      fx_keyModels = [(''k1'', [''gpt-5-mini'', ''claude-haiku-4-5'']), (''k2'', [''gpt-5-mini''])],
      fx_models = [], fx_spendSeries = [\<lparr>sp_day = ''09-24'', sp_byTeam = [(''web'', 12)]\<rparr>], fx_now = 0\<rparr>"

definition ex_point :: trend_point where
  "ex_point = \<lparr>tp_t = 0, tp_values = [(''a'', 1), (''b'', 2), (''c'', 3), (''d'', 4), (''e'', 5), (''f'', 6), (''g'', 7)]\<rparr>"

definition ex_trend :: trend_view where
  "ex_trend = \<lparr>tr_bucketMs = DAY, tr_points = [ex_point],
     tr_order = [''g'', ''f'', ''e'', ''d'', ''c'', ''b'', ''a''], tr_labels = [], tr_unpriced = None\<rparr>"

definition ex_row :: "string \<Rightarrow> rat \<Rightarrow> spend_row" where
  "ex_row i x =
     \<lparr>sw_id = i, sw_label = i, sw_sub = None, sw_spendUsd = x, sw_prevSpendUsd = 0, sw_requests = 1, sw_tokens = 1,
      sw_unpriced = None, sw_p50Ms = None, sw_noDrill = False\<rparr>"

definition ex_daily :: trend_view where
  "ex_daily = \<lparr>tr_bucketMs = DAY, tr_points = [\<lparr>tp_t = 59 * DAY_MS, tp_values = []\<rparr>], tr_order = [], tr_labels = [], tr_unpriced = None\<rparr>"

definition ex_app :: app where
  "ex_app = app_init (\<lparr>st_data = Map.empty, st_read_ok = True, st_write_ok = True\<rparr>) [(''receipt'', ''a'')]"

definition ex_palette :: palette_env where
  "ex_palette = \<lparr>pe_keys = [], pe_models = [], pe_cached = [ex_receipt ''7f3a91c2'' 3]\<rparr>"

text \<open>A manager that keeps its items under numbered ids.\<close>

definition ex_manager :: "(toast_options list) toast_manager" where
  "ex_manager =
     \<lparr>mg_add = (\<lambda>o' m. (replicate (length m) CHR ''t'', m @ [o'])),
      mg_update = (\<lambda>i u m. if length i < length m \<and> i = replicate (length i) CHR ''t''
        then m[length i := spread_options (m ! length i) u] else m),
      mg_promise = (\<lambda>p m. m)\<rparr>"

definition ex_item :: "toast_options list \<Rightarrow> string \<Rightarrow> toast_options option" where
  "ex_item m i = (if length i < length m \<and> i = replicate (length i) CHR ''t'' then Some (m ! length i) else None)"

lemma ex_manager_shallow: "shallow_manager ex_manager ex_item"
proof -
  have "length i \<noteq> length j"
    if "i \<noteq> j" "i = replicate (length i) CHR ''t''" "j = replicate (length j) CHR ''t''" for i j :: string
    using that by metis
  then show ?thesis
    unfolding shallow_manager_def ex_manager_def ex_item_def
    by (auto simp: nth_list_update)
qed

definition ex_toast :: toast_options where
  "ex_toast = \<lparr>to_title = Given ''Key revoked'', to_description = Absent, to_type = Given ''warning'', to_priority = Absent,
     to_timeout = Given 5000, to_action = Given ''Undo'', to_data = Absent\<rparr>"

definition ex_retitle :: toast_options where
  "ex_retitle = \<lparr>to_title = Given ''Done'', to_description = Undef, to_type = Absent, to_priority = Absent,
     to_timeout = Absent, to_action = Absent, to_data = Absent\<rparr>"

text \<open>The list of filters \<open>web\<close>, opened on an empty stream; a receipt has arrived and waits for the timer.\<close>

definition ex_list :: live_list where
  "ex_list = list_mount [] 5 (ex_filters ''web'') ex_window (list_init [])"

lemma ex_list_run: "list_run [] (\<lambda>q r. True) [] ex_list"
  unfolding ex_list_def
  by (rule list_run.Step [OF list_run.Open list_step.Mount]) (simp add: list_init_def)

lemma tail_fresh:
  "st_queue (tail Api q e (init_stream [])) = []" "st_byId (tail Api q e (init_stream [])) = []"
  "st_opened (tail Api q e (init_stream [])) = [q]" "st_es (tail Api q e (init_stream [])) = Some q"
  by (simp_all add: tail_def start_def connect_def setSampling_def flush_def init_stream_def om_of_def Let_def)

lemma ex_list_state:
  "ll_feed ex_list = Some (mount [] 5 (ex_filters ''web'') ex_window)" "st_queue (ll_stream ex_list) = []"
  "st_byId (ll_stream ex_list) = []" "st_opened (ll_stream ex_list) = [tail_query [] (ex_filters ''web'')]"
  "st_es (ll_stream ex_list) = Some (tail_query [] (ex_filters ''web''))"
proof -
  have m: "\<exists>e k w. fd_tail (mount [] 5 (ex_filters ''web'') ex_window) = Some (e, k, w, tail_query [] (ex_filters ''web''))"
    by (simp add: mount_def run_effect_def ex_window_def Let_def)
  then obtain e k w where m: "fd_tail (mount [] 5 (ex_filters ''web'') ex_window) = Some (e, k, w, tail_query [] (ex_filters ''web''))"
    by blast
  have "open_tail (mount [] 5 (ex_filters ''web'') ex_window) (list_init []) =
      (list_init [])\<lparr>ll_feed := Some (mount [] 5 (ex_filters ''web'') ex_window),
        ll_stream := tail Api (tail_query [] (ex_filters ''web'')) e (init_stream [])\<rparr>"
    by (simp add: open_tail_def m Let_def on_stream_quiet tail_delivered list_init_def init_stream_def)
  then have x: "ex_list = (list_init [])\<lparr>ll_feed := Some (mount [] 5 (ex_filters ''web'') ex_window),
        ll_stream := tail Api (tail_query [] (ex_filters ''web'')) e (init_stream [])\<rparr>"
    unfolding ex_list_def list_mount_def by simp
  show "ll_feed ex_list = Some (mount [] 5 (ex_filters ''web'') ex_window)" "st_queue (ll_stream ex_list) = []"
    "st_byId (ll_stream ex_list) = []" "st_opened (ll_stream ex_list) = [tail_query [] (ex_filters ''web'')]"
    "st_es (ll_stream ex_list) = Some (tail_query [] (ex_filters ''web''))"
    unfolding x by (simp_all add: tail_fresh)
qed

lemma ex_mount:
  "fd_tail (mount [] 5 (ex_filters f) ex_window) \<noteq> None" "fd_window (mount [] 5 (ex_filters f) ex_window) = ex_window"
  "fd_filters (mount [] 5 (ex_filters f) ex_window) = ex_filters f" "fs_rows (fd_state (mount [] 5 (ex_filters f) ex_window)) = []"
  by (simp_all add: mount_def run_effect_def empty_state_def ex_window_def Let_def)

definition ex_arrived :: live_list where
  "ex_arrived = on_stream (on_receipt (ex_receipt ''a'' 3)) ex_list"

lemma ex_arrived_run: "list_run [] (\<lambda>q r. True) [] ex_arrived"
  unfolding ex_arrived_def
  by (rule list_run.Step [OF ex_list_run list_step.Receipt]) (simp_all add: ex_list_state)

lemma ex_arrived_state:
  "ll_feed ex_arrived = Some (mount [] 5 (ex_filters ''web'') ex_window)"
  "st_queue (ll_stream ex_arrived) = [(tail_query [] (ex_filters ''web''), ex_receipt ''a'' 3)]"
  by (simp_all add: ex_arrived_def on_stream_def on_receipt_def ex_list_state Let_def)

definition ex_shown :: live_list where "ex_shown = on_stream flush ex_arrived"

lemma ex_shown_run: "list_run [] (\<lambda>q r. True) [] ex_shown"
  unfolding ex_shown_def
  by (rule list_run.Step [OF ex_arrived_run list_step.Timer])
    (simp add: ex_arrived_def on_stream_def on_receipt_def ex_list_state Let_def)

lemma ex_shown_cache: "length (st_byId (ll_stream ex_shown)) \<le> 1"
proof -
  have q: "st_queue (ll_stream ex_arrived) = [(tail_query [] (ex_filters ''web''), ex_receipt ''a'' 3)]" "st_byId (ll_stream ex_arrived) = []"
    by (simp_all add: ex_arrived_state ex_arrived_def on_receipt_def ex_list_state)
  show ?thesis
    by (simp add: ex_shown_def flush_def deliver_def Let_def q rc.remember_all_def remember_def om_delete_def BYID_CAP_def
      split: option.split)
qed

definition ex_seen :: tab where
  "ex_seen = tell_readers (on_stream flush ex_arrived) (tell_readers ex_arrived (tell_readers ex_list (open_tab [] ex_app)))"

lemma ex_seen_run: "tab_run [] (\<lambda>q r. True) [] ex_seen"
proof -
  let ?sat = "\<lambda>q r. True" and ?t = "open_tab [] ex_app"
  have step: "tab_run [] ?sat [] t \<Longrightarrow> list_step [] ?sat (tb_list t) L \<Longrightarrow> tab_run [] ?sat [] (tell_readers L t)" for t L
    by (blast intro: tab_run.Step tab_step.ListStep)
  have "list_step [] ?sat (tb_list ?t) ex_list"
    unfolding ex_list_def open_tab_def tab.simps by (rule list_step.Mount) (simp add: list_init_def)
  moreover have "list_step [] ?sat ex_list ex_arrived"
    unfolding ex_arrived_def by (rule list_step.Receipt) (simp_all add: ex_list_state)
  moreover have "list_step [] ?sat ex_arrived (on_stream flush ex_arrived)"
    by (rule list_step.Timer) (simp add: ex_arrived_def on_stream_def on_receipt_def ex_list_state Let_def)
  ultimately show ?thesis
    unfolding ex_seen_def by (intro step tab_run.Load) simp_all
qed

lemma ex_seen_rows: "st_rows (ll_stream (tb_list ex_seen)) = [ex_receipt ''a'' 3]"
proof -
  have "st_rows (ll_stream ex_arrived) = []"
    using list_mount_quiet(4) [of "[]" 5 "ex_filters ''web''" ex_window "[]"]
    by (simp add: ex_arrived_def on_receipt_def ex_list_def split: option.split)
  then show ?thesis by (simp add: ex_seen_def ex_arrived_state rows_spec_def unknown_of_def ROWS_CAP_def)
qed

definition ex_looking :: traffic_ui where
  "ex_looking = (traffic_ui_mount [] [ex_receipt ''a'' 3])\<lparr>tu_live := False, tu_frozenTop := Some 3\<rparr>"

definition ex_looks :: "(int \<times> view_event) list" where
  "ex_looks = [(5, HoverRows True), (6, BatchOf [ex_receipt ''b'' 4, ex_receipt ''a'' 3]), (7, TogglePause)]"

lemma ex_looks_still: "stays_still 3 ex_looks ([ex_receipt ''a'' 3], ex_looking)"
  by (simp add: ex_looks_def ex_looking_def traffic_ui_mount_def view_apply_def view_event_act_def hover_rows_def toggle_live_def
      freeze_effect_def is_frozen_def quiet_event_def quiet_batch_def index_by_Cons MAX_ROWS_def)

definition ex_media :: media where "ex_media = \<lparr>md_matches = Some False, md_events = True\<rparr>"

definition ex_themed :: theme_hook where
  "ex_themed = scheme_changes True (hook_mount (Some ''k'') (page_load ''k'' ex_media (\<lparr>st_data = Map.empty, st_read_ok = True, st_write_ok = True\<rparr>)))"

lemma ex_themed_run:
  "theme_step\<^sup>*\<^sup>* (page_load ''k'' ex_media (\<lparr>st_data = Map.empty, st_read_ok = True, st_write_ok = True\<rparr>)) ex_themed"
  (is "theme_step\<^sup>*\<^sup>* ?p _")
proof -
  have "theme_step ?p (hook_mount (Some ''k'') ?p)" using theme_step.Mount [of ?p] by (simp add: page_load_def)
  moreover have "theme_step (hook_mount (Some ''k'') ?p) ex_themed"
    unfolding ex_themed_def by (rule theme_step.Scheme) (simp add: hook_mount_def page_load_def ex_media_def)
  ultimately show ?thesis by (meson converse_rtranclp_into_rtranclp rtranclp.rtrancl_refl)
qed

definition ex_wire :: wire where
  "ex_wire = \<lparr>wr_body = ci_modelName, wr_created = (\<lambda>j. \<lparr>cr_clientId = j, cr_apiKey = ''sk''\<rparr>), wr_keys = (\<lambda>j. None),
     wr_models = (\<lambda>j. None), wr_null_field = ''null''\<rparr>"

definition ex_ready :: page where
  "ex_ready = pick_model (Some ''llama'') (page_init\<lparr>pg_dialog := CreateDialog\<rparr>)"

definition ex_granted :: "nat \<Rightarrow> request \<Rightarrow> string + reply" where
  "ex_granted n q = Inr \<lparr>rp_status = 201, rp_text = None, rp_json = Inr ''cid''\<rparr>"

definition ex_url :: app where
  "ex_url = app_init (\<lparr>st_data = Map.empty, st_read_ok = True, st_write_ok = True\<rparr>) [(''team'', ''web''), (''receipt'', ''a'')]"

definition ex_linked :: tab where
  "ex_linked = deep_link [] (page_filters (ap_params ex_url)) (tab_window 5 ex_url) [] (ex_receipt ''a'' 3) ex_url"

definition ex_linked_feed :: feed where
  "ex_linked_feed =
     (let fd = mount [] 5 (page_filters (ap_params ex_url)) (tab_window 5 ex_url)
      in first_reply (hd (fd_first fd)) (Inr ([ex_receipt ''a'' 3], None)) fd)"

lemma ex_url_sel:
  "ap_params ex_url = [(''team'', ''web''), (''receipt'', ''a'')]" "ap_range ex_url = ''24h''" "rangeMs ''24h'' = Some 86400000"
  by (simp_all add: ex_url_def app_init_def persisted_init_def get_item_def rangeMs_def rangeMinutes_def)

lemma ex_url_window: "in_window (tab_window 5 ex_url) (ex_receipt ''a'' 3)"
proof -
  have "(5 - min 86400000 HOT_WINDOW_MS) div BUCKET_MS * BUCKET_MS \<le> 3" by code_simp
  then show ?thesis
    by (simp add: tab_window_def range_of_def ex_url_sel page_window_def useWindow_def num_param_def p_get_def truthy_num_def
        in_window_def)
qed

lemma ex_linked_run:
  "ll_feed (tb_list ex_linked) = Some ex_linked_feed" "tb_app ex_linked = ex_url"
  "fd_filters ex_linked_feed = page_filters (ap_params ex_url)" "fd_window ex_linked_feed = tab_window 5 ex_url"
  "fs_rows (current [] ex_linked_feed) = [ex_receipt ''a'' 3]" "fs_loaded (current [] ex_linked_feed)"
proof -
  show "ll_feed (tb_list ex_linked) = Some ex_linked_feed"
    by (simp add: ex_linked_def ex_linked_feed_def deep_link_def list_first_def Let_def)
  show "tb_app ex_linked = ex_url"
    by (simp add: ex_linked_def deep_link_def tell_readers_def render_readers_def open_tab_def Let_def)
  show "fd_filters ex_linked_feed = page_filters (ap_params ex_url)" "fd_window ex_linked_feed = tab_window 5 ex_url"
    "fs_rows (current [] ex_linked_feed) = [ex_receipt ''a'' 3]" "fs_loaded (current [] ex_linked_feed)"
    by (simp_all add: ex_linked_feed_def first_reply_def mount_first(2-6) update_if_def current_def mergeNewer_def Let_def)
qed

text \<open>The page at that URL, once its first rows are in.\<close>

definition ex_page :: traffic_tab where
  "ex_page = (visit_page [] 5 5 (traffic_ui_mount [] []) (open_tab [] ex_url))\<lparr>tt_tab := ex_linked\<rparr>"

lemma ex_page_sel [simp]:
  "tt_tab ex_page = ex_linked" "tt_ui ex_page = traffic_ui_mount [] []" "tt_at ex_page = 5" "tt_visited ex_page = [ap_params ex_url]"
  by (simp_all add: ex_page_def visit_page_def open_tab_def Let_def)

lemma ex_page_run: "page_run [] (\<lambda>q r. True) [] ex_page"
proof -
  let ?v = "visit_page [] 5 5 (traffic_ui_mount [] []) (open_tab [] ex_url)"
  let ?fd = "mount [] 5 (page_filters (ap_params ex_url)) (tab_window 5 ex_url)"
  let ?L = "list_first (hd (fd_first ?fd)) (Inr ([ex_receipt ''a'' 3], None)) ?fd (tb_list (tt_tab ?v))"
  have o: "tb_list (open_tab [] ex_url) = list_init []" "tb_app (open_tab [] ex_url) = ex_url" by (simp_all add: open_tab_def)
  have t: "tb_list (tt_tab ?v) = list_mount [] 5 (page_filters (ap_params ex_url)) (tab_window 5 ex_url) (list_init [])"
    by (simp add: visit_page_def o filters_memo_def Let_def)
  have fd: "ll_feed (tb_list (tt_tab ?v)) = Some ?fd" unfolding t by (rule list_mount_quiet)
  have "tab_run [] (\<lambda>q r. True) [] (open_tab [] ex_url)" by (rule tab_run.Load)
  then have run: "page_run [] (\<lambda>q r. True) [] ?v"
    by (rule page_run.Visit) (simp_all add: o list_init_def ex_url_sel)
  have step: "list_step [] (\<lambda>q r. True) (tb_list (tt_tab ?v)) ?L"
    using ex_url_window by (intro list_step.FirstReply [OF fd _ mount_first(3)]) (subst mount_first(1), simp_all add: page_ok_def)
  have keeps: "keeps_args (tb_list (tt_tab ?v)) ?L"
    using fd by (simp add: keeps_args_def list_first_def first_reply_def update_if_def Let_def)
  have "ex_page = ?v\<lparr>tt_tab := tell_readers ?L (tt_tab ?v)\<rparr>"
    by (simp add: ex_page_def ex_linked_def deep_link_def visit_page_def o filters_memo_def Let_def)
  with page_run.Step [OF run page_step.Listed [OF step keeps]] show ?thesis by (simp only:)
qed

lemma ex_table_row:
  "OpenRow ''a'' \<in> set (ui_actions (VirtualTable tz [ex_receipt ''a'' 3] True cnt cols m \<lparr>vw_top = 0, vw_height = 100\<rparr> 10 ft))"
proof -
  have "win_start \<lparr>vw_top = 0, vw_height = 100\<rparr> 10 = 0" "win_end \<lparr>vw_top = 0, vw_height = 100\<rparr> 10 1 = 1"
    by (simp_all add: win_start_def win_end_def OVERSCAN_def ceil_div_def)
  then show ?thesis by (simp add: VirtualTable_def Let_def Prelude.slice_def row_actions)
qed

lemma ex_linked_row:
  "OpenRow ''a'' \<in> set (ui_actions (traffic_screen c (\<lambda>t. t) edge 5 0 ex_url (traffic_ui_mount [] []) [] ex_linked_feed None None []
     \<lparr>vw_top = 0, vw_height = 100\<rparr> 10))"
  using ex_table_row
  by (simp add: traffic_screen_def TrafficPage_def traffic_body_def api_feed_view_def useTrafficFeed_def
      ex_linked_run visible_rows_def traffic_ui_mount_def Let_def)

definition ex_day :: app where
  "ex_day = app_init (\<lparr>st_data = Map.empty, st_read_ok = True, st_write_ok = True\<rparr>) [(''day'', ''2026-01-02''), (''team'', ''web'')]"

lemma ex_day_chip:
  "SetFilter ''day'' [] \<in> set (ui_actions (traffic_screen c (\<lambda>t. t) edge 5 0 ex_day (traffic_ui_mount [] []) [] ex_linked_feed None None []
     \<lparr>vw_top = 0, vw_height = 100\<rparr> 10))"
  by (simp add: traffic_screen_def TrafficPage_def traffic_head_def toolbar_def param_chip_def ex_day_def app_init_def p_get_def)

definition ex_made :: user_key where
  "ex_made = \<lparr>uk_clientId = ''new'', uk_creator = ''u'', uk_description = [], uk_createdAt = [], uk_modelName = ''llama'',
     uk_namespace = ''ns''\<rparr>"

definition ex_submitted :: key_world where
  "ex_submitted =
     set_page (on_submit (pick_model (Some ''llama'') (page_init\<lparr>pg_dialog := CreateDialog\<rparr>)))
       (set_page (pick_model (Some ''llama'') (page_init\<lparr>pg_dialog := CreateDialog\<rparr>))
         (set_page (page_init\<lparr>pg_dialog := CreateDialog\<rparr>) (key_world_init [])))"

text \<open>The key is created while the first load is under way, which is given up for a new one.\<close>

definition ex_listed :: key_world where
  "ex_listed = (create_answered (\<lambda>b. True) ''sk'' ex_made (create_served ex_made ex_submitted))
     \<lparr>kw_fetch := None, kw_shown := Loaded [ex_made], kw_data := True\<rparr>"

lemma ex_submitted_run: "key_run restarts [ex_model] [] ex_submitted"
proof -
  have user: "key_run restarts [ex_model] [] (set_page pg w)"
    if "key_run restarts [ex_model] [] w" "user_step [ex_model] (shown_keys w) (kw_page w) pg" for pg w
    using that by (blast intro: key_run.Step key_step.User)
  have "km_step [ex_model] xs page_init (page_init\<lparr>pg_dialog := CreateDialog\<rparr>)" for xs
    by (rule km_step.OpenCreate) (simp add: page_init_def)
  moreover have "km_step [ex_model] xs (page_init\<lparr>pg_dialog := CreateDialog\<rparr>) (pick_model (Some ''llama'') (page_init\<lparr>pg_dialog := CreateDialog\<rparr>))" for xs
    by (rule km_step.PickModel) (simp_all add: ex_model_def)
  moreover have "km_step [ex_model] xs (pick_model (Some ''llama'') (page_init\<lparr>pg_dialog := CreateDialog\<rparr>))
      (on_submit (pick_model (Some ''llama'') (page_init\<lparr>pg_dialog := CreateDialog\<rparr>)))" for xs
    by (rule km_step.Submit) (simp_all add: pick_model_def page_init_def)
  ultimately show ?thesis
    unfolding ex_submitted_def
    by (intro user key_run.Open)
      (simp_all add: user_step_def set_page_def key_world_init_def page_init_def pick_model_def on_submit_def Let_def)
qed

lemma ex_submitted_sel:
  "pg_creating (kw_page ex_submitted) = Some (''llama'', [])" "kw_made ex_submitted = None" "kw_server ex_submitted = []"
  "kw_gone ex_submitted = {}" "kw_fetch ex_submitted = Some None" "kw_data ex_submitted = False" "kw_early ex_submitted = {}"
  "uk_modelName ex_made = ''llama''" "uk_description ex_made = []"
  by (simp_all add: ex_submitted_def set_page_def key_world_init_def page_init_def pick_model_def on_submit_def ex_made_def
      js_trim_def Let_def)

lemma ex_created_run:
  assumes "key_run restarts [ex_model] [] w" and "pg_creating (kw_page w) = Some (''llama'', [])"
    and "kw_made w = None" "kw_server w = []" "kw_gone w = {}"
  shows "key_run restarts [ex_model] [] (create_answered restarts ''sk'' ex_made (create_served ex_made w))"
proof -
  have "key_step restarts [ex_model] w (create_served ex_made w)"
    using assms(2-5) by (intro key_step.CreateServed) (simp_all add: ex_submitted_sel)
  moreover have "key_step restarts [ex_model] (create_served ex_made w)
      (create_answered restarts ''sk'' ex_made (create_served ex_made w))"
    using assms(2) by (intro key_step.CreateAnswered) (simp_all add: create_served_def)
  ultimately show ?thesis using assms(1) by (meson key_run.Step)
qed

lemma ex_listed_run: "key_run (\<lambda>b. True) [ex_model] [] ex_listed"
proof -
  let ?a = "create_answered (\<lambda>b. True) ''sk'' ex_made (create_served ex_made ex_submitted)"
  have "key_run (\<lambda>b. True) [ex_model] [] ?a"
    by (rule ex_created_run [OF ex_submitted_run]) (simp_all add: ex_submitted_sel)
  moreover have "key_step (\<lambda>b. True) [ex_model] ?a (?a\<lparr>kw_fetch := Some (Some (kw_server ?a))\<rparr>)"
    by (rule key_step.FetchServed) (rule answered_fetches(1), simp)
  moreover have "key_step (\<lambda>b. True) [ex_model] (?a\<lparr>kw_fetch := Some (Some (kw_server ?a))\<rparr>) ex_listed"
    using key_step.FetchAnswered [of "?a\<lparr>kw_fetch := Some (Some (kw_server ?a))\<rparr>" "[ex_made]" "\<lambda>b. True" "[ex_model]"]
    by (simp add: ex_listed_def create_answered_def create_served_def ex_submitted_sel)
  ultimately show ?thesis by (meson key_run.Step)
qed

end
