(* ===== verification/Further.thy ===== *)
theory Further
  imports Samples
begin

text \<open>
  Further facts about single operations, beside the properties of the root theory: what they do well, and the
  inputs on which they do something the code should not.
\<close>

text \<open>Whatever the order of renders, reloads, first pages, older pages, live batches and drops, the Traffic
  list shows distinct receipts, and each of them answers the filters and lies in the window of the last render,
  never those of a query the reader has left.\<close>

theorem feed_rows_belong:
  assumes "feed_run ks sat s"
  shows "distinct (map rc_id (fs_rows (current ks s))) \<and>
    (\<forall>r \<in> set (fs_rows (current ks s)). sat (tail_query ks (fd_filters s)) r \<and> in_window (fd_window s) r)"
  using feed_run_inv [OF assms] by (simp add: feed_inv_def current_def rows_ok_def)

theorem feed_rows_belong_witness:
  "fs_rows (current [] ex_loaded) = [ex_receipt ''a'' 3] \<and>
   distinct (map rc_id (fs_rows (current [] ex_loaded))) \<and> in_window ex_window (ex_receipt ''a'' 3)"
  using feed_rows_belong [OF ex_loaded_run] by (simp add: current_def ex_loaded_rows)

text \<open>A page that races the live rows: every row already shown stays, the page adds exactly the receipts not
  shown, nothing repeats, and the merged list is ordered newest first when the page is.\<close>

theorem mergeNewer_refines:
  assumes "distinct (map rc_id had)" and "distinct (map rc_id page)"
    and "sorted_wrt (\<lambda>a b. rc_ts b \<le> rc_ts a) page"
  shows "distinct (map rc_id (mergeNewer had page)) \<and>
    set (mergeNewer had page) = set had \<union> {r \<in> set page. rc_id r \<notin> rc_id ` set had} \<and>
    sorted_wrt (\<lambda>a b. rc_ts b \<le> rc_ts a) (mergeNewer had page)"
  using mergeNewer_distinct [OF assms(1,2)] mergeNewer_set mergeNewer_sorted [OF assms(3)] by simp

theorem mergeNewer_refines_witness:
  "ex_receipt ''a'' 3 \<in> set (mergeNewer [ex_receipt ''a'' 3] [ex_receipt ''b'' 4, ex_receipt ''a'' 2]) \<and>
   ex_receipt ''a'' 2 \<notin> set (mergeNewer [ex_receipt ''a'' 3] [ex_receipt ''b'' 4, ex_receipt ''a'' 2])"
  using mergeNewer_refines [of "[ex_receipt ''a'' 3]" "[ex_receipt ''b'' 4, ex_receipt ''a'' 2]"]
  by (auto simp: ex_receipt_def)

text \<open>The text of a query is its identity: two queries of the list with the same text have the same window and
  ask the stream for the same receipts, for any filter values (the encoding never confuses two of them).\<close>

theorem query_identity:
  assumes "feed_key ks f w = feed_key ks g u"
  shows "w = u \<and> queryString ks f None = queryString ks g None"
  using feed_key_inj [OF assms] p_string_inj by (simp add: tail_query_def)

theorem query_identity_witness:
  "queryString [] (ex_filters ''a&team=b'') None = queryString [] (ex_filters ''a&team=b'') None"
  using query_identity [of "[]" "ex_filters ''a&team=b''" ex_window "ex_filters ''a&team=b''" ex_window, OF refl] by simp

text \<open>The id of a receipt stays the id of one row: a batch without repetitions keeps the live rows free of
  them.\<close>

theorem live_rows_distinct:
  assumes "distinct (map rc_id (st_rows s))" and "distinct (map rc_id batch)"
  shows "distinct (map rc_id (st_rows (upsertMany batch s)))"
  using rows_spec_distinct [OF assms] by simp

theorem live_rows_distinct_witness:
  "distinct (map rc_id (st_rows (upsertMany [ex_receipt ''b'' 4, ex_receipt ''a'' 5] (init_stream [ex_receipt ''a'' 3]))))"
  by (rule live_rows_distinct) (simp_all add: init_stream_def)

text \<open>Without that the rows do repeat: a new receipt that arrives twice between two flushes (streaming, then
  settled) is put on top twice, with the streaming copy below the settled one.\<close>

theorem new_receipt_twice:
  "st_rows (upsertMany [(ex_receipt ''a'' 3)\<lparr>rc_inFlight := True\<rparr>, ex_receipt ''a'' 3] (init_stream [])) =
     [ex_receipt ''a'' 3, (ex_receipt ''a'' 3)\<lparr>rc_inFlight := True\<rparr>]"
  by (simp add: rows_spec_def unknown_of_def init_stream_def ROWS_CAP_def)

text \<open>The cache: after a batch, the last receipt of it is found under its id; while there is room nothing else
  is forgotten; and whatever is found is from the batch or was there before.\<close>

theorem cache_after_batch:
  assumes "cache_wf (st_byId s)"
  shows "om_get (st_byId (upsertMany (batch @ [r]) s)) (rc_id r) = Some r \<and>
    (\<forall>k v. om_get (st_byId (upsertMany batch s)) k = Some v \<longrightarrow> v \<in> set batch \<or> om_get (st_byId s) k = Some v) \<and>
    (\<forall>k. length (st_byId s) + length batch \<le> BYID_CAP \<and> k \<notin> rc_id ` set batch \<longrightarrow>
       om_get (st_byId (upsertMany batch s)) k = om_get (st_byId s) k)"
  using rc.lookup_remember_all_last [OF assms, of batch r] rc.lookup_remember_all [OF assms, of batch]
    rc.lookup_remember_all_room [OF assms, of batch] by simp

theorem cache_after_batch_witness:
  "om_get (st_byId (upsertMany ([] @ [ex_receipt ''a'' 3]) (init_stream []))) ''a'' = Some (ex_receipt ''a'' 3)"
  using cache_after_batch [of "init_stream []" "[]" "ex_receipt ''a'' 3"]
  by (simp add: init_stream_def om_of_def cache_wf_def)

text \<open>A flush empties the queue and the timer, applies every queued receipt, and hands the whole batch to the
  tailer once, under the query it asked for; with nothing queued it hands over nothing.\<close>

theorem flush_delivers_once:
  "st_queue (flush s) = [] \<and> \<not> st_timer (flush s) \<and>
   st_rows (flush s) = st_rows (upsertMany (map snd (st_queue s)) s) \<and>
   st_delivered (flush s) = st_delivered s @
     (case st_tailer s of None \<Rightarrow> []
      | Some t \<Rightarrow> if st_queue s = [] then [] else [(t, st_tailQuery s, st_queue s)])"
  by (simp add: flush_delivered)

text \<open>A production build ignores both ways around the login (the injected test session and the
  development flag): the session it starts with is what the adapter's own login made, for the Keycloak server of
  the loaded configuration.\<close>

theorem production_ignores_bypass:
  assumes "ae_production env" and "au_keycloak s = None"
    and "initKeycloak env up fetch kc_init s = (s', Inr k)"
  shows "\<exists>c. cs_config (au_config s') = Some c \<and> kc_init (cf_keycloak c) = Inr k"
  by (rule initKeycloak_production [OF assms])

theorem production_ignores_bypass_witness:
  "\<exists>s'. initKeycloak ex_env (\<lambda>u. None) ex_fetch ex_login (ex_session\<lparr>au_keycloak := None\<rparr>) = (s', Inr ex_real) \<and>
     (\<exists>c. cs_config (au_config s') = Some c \<and> ex_login (cf_keycloak c) = Inr ex_real)"
proof -
  obtain s' where "initKeycloak ex_env (\<lambda>u. None) ex_fetch ex_login (ex_session\<lparr>au_keycloak := None\<rparr>) = (s', Inr ex_real)"
    by (simp add: initKeycloak_def ex_env_def ex_session_def ex_fetch_def ex_login_def ex_real_def loadAppConfig_def Let_def)
  moreover have "ae_production ex_env" "au_keycloak (ex_session\<lparr>au_keycloak := None\<rparr>) = None"
    by (simp_all add: ex_env_def)
  ultimately show ?thesis using production_ignores_bypass by blast
qed

text \<open>A network-path address passes the filter as it is, though the comment in the code lets only root-relative ones
  and the listed schemes through.\<close>

theorem network_path_passes:
  assumes "network_path w"
  shows "sanitizeUrl up (Some w) = Some w"
  by (rule sanitizeUrl_network [OF assms])

theorem network_path_passes_witness: "sanitizeUrl (\<lambda>u. None) (Some ''//host/x'') = Some ''//host/x''"
  by (rule network_path_passes) code_simp

text \<open>The style rule made of a theme's tokens has exactly one opening and one closing brace, or is empty, when
  the token names are alphanumeric: no value can leave its declaration.\<close>

theorem theme_rule_contained:
  assumes "\<forall>(k, v) \<in> set t. \<forall>c \<in> set k. is_alnum c"
  shows "css_block '':root'' (Some t) = [] \<or>
    (count_list (css_block '':root'' (Some t)) (CHR ''{'') = 1 \<and>
     count_list (css_block '':root'' (Some t)) (CHR ''}'') = 1)"
  using css_block_shape [OF assms, of "'':root''"] by simp

theorem theme_rule_contained_witness:
  "count_list (css_block '':root'' (Some [(''primary'', ''red''), (''bg'', ''blue} body {'')])) (CHR ''{'') = 1"
  using theme_rule_contained [of "[(''primary'', ''red''), (''bg'', ''blue} body {'')]"] by code_simp

text \<open>The names of the tokens are written unchecked: with a name that holds braces the rule closes early and a
  second one opens, whatever the value.\<close>

theorem theme_name_escapes:
  "count_list (css_block '':root'' (Some [(''x: red} body{y'', ''red'')])) (CHR ''{'') = 2 \<and>
   count_list (css_block '':root'' (Some [(''x: red} body{y'', ''red'')])) (CHR ''}'') = 2"
  by code_simp

text \<open>The usage console's hand-written copy of that script agrees with the generated one exactly when the
  system does not prefer dark, or the storage is readable and holds nothing or a known mode.\<close>

theorem console_script_agrees:
  "consoleBootstrap media st = themeBootstrap DEFAULT_THEME_STORAGE_KEY media st \<longleftrightarrow>
     (if prefersDark media
      then (\<exists>v. get_item st DEFAULT_THEME_STORAGE_KEY = Inr v \<and>
        (v = None \<or> v = Some [] \<or> (\<exists>m. v = Some m \<and> isThemeMode m)))
      else True)"
  by (simp add: console_bootstrap_agrees)

text \<open>A chosen theme is the one read back, when the storage works or cannot be used at all; choosing one never
  changes what another page's key reads.\<close>

theorem theme_choice_kept:
  assumes "isThemeMode m" and "st_read_ok (ts_storage s) = st_write_ok (ts_storage s)"
  shows "readStoredMode k (writeStoredMode k m s) = m \<and>
    (\<forall>k'. k' = k \<or> readStoredMode k' (writeStoredMode k m s) = readStoredMode k' s)"
  using read_write [OF assms(1), of s k] write_other [of _ k m s] assms(2) by auto

theorem theme_choice_kept_witness:
  "readStoredMode ''nebari:themeMode'' (writeStoredMode ''nebari:themeMode'' ''dark''
     \<lparr>ts_storage = ex_storage, ts_inMemory = Map.empty\<rparr>) = ''dark''"
  using theme_choice_kept [of "''dark''" "\<lparr>ts_storage = ex_storage, ts_inMemory = Map.empty\<rparr>" "''nebari:themeMode''"]
  by (simp add: ex_storage_def isThemeMode_def THEME_MODES_def)

text \<open>A storage that can be read but not written loses every choice: what is read stays what it was.\<close>

theorem theme_choice_lost:
  assumes "st_read_ok (ts_storage s)" and "\<not> st_write_ok (ts_storage s)"
  shows "readStoredMode k (writeStoredMode k m s) = readStoredMode k s"
  by (rule read_write_readonly [OF assms])

theorem theme_choice_lost_witness:
  "readStoredMode ''nebari:themeMode'' (writeStoredMode ''nebari:themeMode'' ''dark''
     \<lparr>ts_storage = ex_storage\<lparr>st_write_ok := False\<rparr>, ts_inMemory = Map.empty\<rparr>) = ''system''"
  using theme_choice_lost [of "\<lparr>ts_storage = ex_storage\<lparr>st_write_ok := False\<rparr>, ts_inMemory = Map.empty\<rparr>"
    "''nebari:themeMode''" "''dark''"]
  by (simp add: ex_storage_def readStoredMode_def get_item_def isThemeMode_def THEME_MODES_def)

text \<open>The dialog that shows a new key once is only taken away by the user closing it, or by the answer to a
  revocation that was still in flight.\<close>

theorem created_key_dismissal:
  assumes "km_run models ks s" and "km_step models ks s s'"
    and "pg_dialog s = CreatedDialog i a" and "pg_dialog s' \<noteq> CreatedDialog i a"
  shows "s' = close_created s \<or> (\<exists>r. pg_revoking s \<noteq> None \<and> s' = revoke_reply r s)"
  by (rule created_dismissed [OF assms(2) km_run_inv [OF assms(1)] assms(3,4)])

theorem created_key_dismissal_witness:
  "close_created ex_created = close_created ex_created \<or> (\<exists>r. pg_revoking ex_created \<noteq> None \<and> close_created ex_created = revoke_reply r ex_created)"
proof (rule created_key_dismissal)
  have c: "pg_creating ex_creating \<noteq> None"
    by (simp add: ex_creating_def on_submit_def pick_model_def page_init_def Let_def)
  show "km_run [ex_model] [] ex_created" unfolding ex_created_def
    by (rule km_run.Step [OF ex_creating_run], rule km_step.CreateReply) (rule c)
  show d: "pg_dialog ex_created = CreatedDialog ''cid'' ''sk-1''"
    by (simp add: ex_created_def create_reply_def Let_def)
  show "km_step [ex_model] [] ex_created (close_created ex_created)" by (rule km_step.CloseCreated [OF d])
  show "pg_dialog (close_created ex_created) \<noteq> CreatedDialog ''cid'' ''sk-1''" by (simp add: close_created_def)
qed

text \<open>A creation that fails after its dialog was closed leaves its message behind: there is a run that ends with
  no dialog open and the message set, for the next time the dialog opens.\<close>

theorem stale_create_error:
  assumes "m \<in> set models" and "km_name m \<noteq> []"
  shows "\<exists>s. km_run models ks s \<and> pg_dialog s = NoDialog \<and> pg_fieldError s = Some (''Failed to create key: '' @ e)"
  by (rule stale_field_error_run [OF assms])

theorem stale_create_error_witness:
  "\<exists>s. km_run [ex_model] [] s \<and> pg_dialog s = NoDialog \<and> pg_fieldError s = Some (''Failed to create key: '' @ ''x'')"
  by (rule stale_create_error [of ex_model "[ex_model]"]) (simp_all add: ex_model_def)

text \<open>A team's cells share out all of its spend and no more, when every key of the team may use a weighted model
  and the team made requests.\<close>

theorem team_shares_whole:
  assumes "\<forall>k \<in> set (fx_keys fx). ak_team k = tm_id t \<longrightarrow> weighted fx t k"
    and "sum_list (map (\<lambda>k. of_int (ak_requests24h k)) (filter (\<lambda>k. ak_team k = tm_id t) (fx_keys fx))) \<noteq> (0::rat)"
  shows "sum_list (map ce_share (team_cells fx t)) = 1"
  by (rule team_cells_share [OF assms])

theorem team_shares_whole_witness:
  "sum_list (map ce_share (team_cells ex_fixtures ex_team)) = 1 \<and> length (team_cells ex_fixtures ex_team) = 3"
proof -
  have "\<forall>k \<in> set (fx_keys ex_fixtures). ak_team k = tm_id ex_team \<longrightarrow> weighted ex_fixtures ex_team k"
    by (simp add: weighted_def ex_fixtures_def ex_api_key_def ex_team_def list_of_def num_of_def modelWeight_def)
  moreover have "sum_list (map (\<lambda>k. of_int (ak_requests24h k))
      (filter (\<lambda>k. ak_team k = tm_id ex_team) (fx_keys ex_fixtures))) \<noteq> (0::rat)"
    by (simp add: ex_fixtures_def ex_api_key_def ex_team_def)
  moreover have "length (team_cells ex_fixtures ex_team) = 3"
    by (simp add: team_cells_def key_cells_def ex_fixtures_def ex_api_key_def ex_team_def list_of_def num_of_def
        modelWeight_def Let_def)
  ultimately show ?thesis using team_shares_whole by blast
qed

text \<open>The billing period of the view contains the present: it has begun, it has not ended, and the days that
  remain of it are positive, in every year.\<close>

theorem period_contains_now:
  "pv_periodStart (spend_period fx) \<le> fx_now fx \<and> fx_now fx < pv_periodEnd (spend_period fx) \<and>
   0 < pv_remainingDays (spend_period fx)"
  by (rule spend_period_now)

text \<open>A window of whole days is the sum of that many days of the series, the latest ones.\<close>

theorem whole_days_summed:
  "om_total (teamSpendOver series (of_nat n) 0) = sum_list (map day_total (take_last n series))"
  by (rule teamSpendOver_days)

text \<open>Folding the trend into five series and "Other" loses nothing: every bar is as high as all its groups
  together, in at most six segments, when amounts are not negative and no group is called like the folded one.\<close>

theorem trend_folds_all:
  assumes "distinct (tr_order tr)" and "''__other'' \<notin> set (tr_order tr)" and "p \<in> set (tr_points tr)"
    and "\<forall>q \<in> set (tr_points tr). \<forall>k. 0 \<le> value_at (tp_values q) k"
  shows "series_total (trend_series tr) (trend_row tr p) = sum_list (map (value_at (tp_values p)) (tr_order tr)) \<and>
    length (trend_series tr) \<le> 6"
  using trend_fold_total [OF assms] trend_series_count by simp

theorem trend_folds_all_witness:
  "series_total (trend_series ex_trend) (trend_row ex_trend ex_point) = 28 \<and> length (trend_series ex_trend) \<le> 6"
proof -
  have "\<forall>q \<in> set (tr_points ex_trend). \<forall>k. 0 \<le> value_at (tp_values q) k"
    by (simp add: ex_trend_def ex_point_def value_at_def split: option.split)
  moreover have "sum_list (map (value_at (tp_values ex_point)) (tr_order ex_trend)) = 28"
    by (simp add: ex_trend_def ex_point_def value_at_def)
  ultimately show ?thesis using trend_folds_all [of ex_trend ex_point] by (simp add: ex_trend_def)
qed

text \<open>Sorting the breakdown by any column but the label keeps exactly its rows and puts them in the order of that
  column, whichever direction is chosen; a row without a previous window counts as an infinite rise.\<close>

theorem breakdown_sorted:
  assumes "so_key so \<noteq> ByLabel"
  shows "mset (sorted_rows lc so rows) = mset rows \<and>
    sorted_wrt (\<lambda>a b. row_cmp lc so a b \<le> 0) (sorted_rows lc so rows)"
  using sorted_rows_perm sorted_rows_sorted [OF assms] by simp

theorem breakdown_sorted_witness:
  "mset (sorted_rows (\<lambda>a b. 0) initial_sort [ex_row ''a'' 1, ex_row ''b'' 2]) = mset [ex_row ''a'' 1, ex_row ''b'' 2]"
  using breakdown_sorted [of initial_sort "\<lambda>a b. 0" "[ex_row ''a'' 1, ex_row ''b'' 2]"] by (simp add: initial_sort_def)

text \<open>A provider row looks like it can be opened and cannot: it offers the same action as any other, and the
  action goes nowhere.\<close>

theorem provider_row_goes_nowhere:
  assumes "\<not> sw_noDrill r"
  shows "Drill r \<in> set (ui_actions (breakdown_tr DProvider tot p50 r)) \<and> on_drill DProvider r = None"
  by (rule provider_row_dead [OF assms])

theorem provider_row_goes_nowhere_witness: "on_drill DProvider (ex_row ''openai'' 1) = None"
  using provider_row_goes_nowhere [of "ex_row ''openai'' 1"] by (simp add: ex_row_def)

text \<open>An amount shown in dollars reads as zero exactly when it is zero: a cost too small for cents is shown with
  more digits or as a bound, never as $0.00.\<close>

theorem money_zero_only_for_zero:
  "num_val (money usd 2) = 0 \<longleftrightarrow> usd = 0"
  by (rule money_digits_zero_iff)

text \<open>The ticks of a value axis start at zero, are four or five, and reach the largest value.\<close>

theorem value_axis_ticks:
  assumes "0 < mx"
  shows "(length (niceTicks mx) = 4 \<or> length (niceTicks mx) = 5) \<and> hd (niceTicks mx) = 0 \<and>
    mx \<le> of_nat (length (niceTicks mx) - 1) * tick_step (mx / 4) \<and> tick_step (mx / 4) < mx / 2"
  using niceTicks_shape [OF assms] tick_step_range [of "mx / 4"] assms by simp

theorem value_axis_ticks_witness:
  "hd (niceTicks 7) = 0 \<and> tick_step (7 / 4) < 7 / 2"
  using value_axis_ticks [of 7] by simp

text \<open>The bar of a day before the page's time range opens an empty window, because the link does not carry the range
  that Spend shows.\<close>

theorem old_bar_opens_nothing:
  assumes "trend_daily tr" and "p \<in> set (tr_points tr)"
    and "DAY_MS dvd tp_t p" and "tp_t p \<le> now" and "now - tp_t p < 365 * DAY_MS"
    and "tp_t p + 86400000 \<le> range_start now rng"
  shows "\<exists>l. bar_href tz tr (trend_label tz tr (tp_t p)) = Some l \<and> starts_with ''/traffic?'' l \<and>
    (\<forall>r. \<not> in_window (page_window now rng (p_parse (drop (length ''/traffic?'') l))) r)"
  using bar_link [OF assms(1,2), of tz] bar_rows [OF assms(3-5), of rng] assms(6)
  unfolding day_param [of "tp_t p", symmetric] by (intro exI [of _ "''/traffic?day='' @ iso_month_day (tp_t p)"]) simp

theorem old_bar_opens_nothing_witness:
  "\<exists>l. bar_href (\<lambda>t. t) ex_daily (trend_label (\<lambda>t. t) ex_daily (59 * DAY_MS)) = Some l \<and>
     \<not> in_window (page_window (62 * DAY_MS) DAY_MS (p_parse (drop (length ''/traffic?'') l))) (ex_receipt ''a'' (59 * DAY_MS + 5))"
  using old_bar_opens_nothing [of ex_daily "\<lparr>tp_t = 59 * DAY_MS, tp_values = []\<rparr>" "62 * DAY_MS" DAY_MS "\<lambda>t. t"]
  by (auto simp: ex_daily_def trend_daily_def DAY_MS_def range_start_def BUCKET_MS_def HOT_WINDOW_MS_def)

text \<open>An arrow key moves the focus by one row and leaves that row fully inside the viewport, below the sticky
  header, and rendered, wherever the list was scrolled.\<close>

theorem arrow_key_shows_row:
  assumes "0 < rowH" and "0 \<le> header" and "rowH \<le> clientH - header"
    and "mv_focus (move_row rowH n header clientH scroll i step v) = Some k"
  shows "let m = move_row rowH n header clientH scroll i step v in
    k = i + step \<and> 0 \<le> k \<and> k < n \<and> mv_scroll m \<le> k * rowH \<and>
    k * rowH + rowH \<le> mv_scroll m + clientH - header \<and>
    win_start (mv_view m) rowH \<le> k \<and> k < win_end (mv_view m) rowH n"
  by (rule move_row_visible [OF assms])

theorem arrow_key_shows_row_witness:
  "mv_scroll (move_row 28 100 32 600 0 20 1 \<lparr>vw_top = 0, vw_height = 600\<rparr>) = 48 \<and>
   win_start (mv_view (move_row 28 100 32 600 0 20 1 \<lparr>vw_top = 0, vw_height = 600\<rparr>)) 28 \<le> 21"
  using arrow_key_shows_row [of 28 32 600 100 0 20 1 "\<lparr>vw_top = 0, vw_height = 600\<rparr>" 21]
  by (simp add: move_row_def Let_def)

text \<open>Rows that arrive on top do not move what the reader looks at: the scroll offset grows by exactly their
  height, so the row that was first keeps its place on screen.\<close>

theorem arrivals_keep_place:
  assumes "tpos \<noteq> 0" and "rc_id r \<noteq> []" and "new \<noteq> []" and "\<forall>x \<in> set new. rc_id x \<noteq> rc_id r"
  shows "anchor_scroll (Some (rc_id r)) (new @ r # rows) rowH tpos - int (length new) * rowH = tpos"
  by (rule anchor_scroll_keeps [OF assms])

theorem arrivals_keep_place_witness:
  "anchor_scroll (Some ''a'') [ex_receipt ''c'' 5, ex_receipt ''b'' 4, ex_receipt ''a'' 3] 28 100 - 56 = 100"
  using arrivals_keep_place [of 100 "ex_receipt ''a'' 3" "[ex_receipt ''c'' 5, ex_receipt ''b'' 4]" "[]" 28] by simp

text \<open>A frozen list takes no row newer than the moment it was frozen, and counts each of them as new; a late
  receipt that is not newer is still put on top of it.\<close>

theorem frozen_list:
  assumes "\<forall>r \<in> set new. rc_ts r > t" and "\<forall>r \<in> set rows. rc_ts r \<le> t" and "rc_ts late \<le> t"
  shows "visible_rows (Some t) (new @ rows) = rows \<and> new_count (Some t) (new @ rows) = length new \<and>
    visible_rows (Some t) (late # rows) = late # rows"
  using frozen_newer [OF assms(1), of rows] new_count_newer [OF assms(1,2)] frozen_late_receipt [OF assms(3), of rows]
    assms(2) by (simp add: visible_rows_def)

theorem frozen_list_witness:
  "new_count (Some 3) ([ex_receipt ''b'' 4] @ [ex_receipt ''a'' 3]) = 1 \<and>
   visible_rows (Some 3) (ex_receipt ''c'' 2 # [ex_receipt ''a'' 3]) = [ex_receipt ''c'' 2, ex_receipt ''a'' 3]"
  using frozen_list [of "[ex_receipt ''b'' 4]" 3 "[ex_receipt ''a'' 3]" "ex_receipt ''c'' 2"] by simp

text \<open>The drawer never shows another receipt than the one the URL names, in any state the stream can reach, however its
  cache has been filled.\<close>

theorem drawer_shows_its_receipt:
  assumes "stream_run mode seed s" and "length seed \<le> 600" and "drawer_receipt s a = Some r"
  shows "receiptId a = Some (rc_id r)"
  by (rule drawer_shows_named [OF assms(1) _ assms(3)]) (use assms(2) in \<open>simp add: ROWS_CAP_def\<close>)

theorem drawer_shows_its_receipt_witness:
  "drawer_receipt (init_stream [ex_receipt ''a'' 3]) ex_app = Some (ex_receipt ''a'' 3) \<and> receiptId ex_app = Some ''a''"
proof -
  have d: "drawer_receipt (init_stream [ex_receipt ''a'' 3]) ex_app = Some (ex_receipt ''a'' 3)"
    by (simp add: drawer_receipt_def init_stream_def om_of_def om_get_def receiptId_def ex_app_def app_init_def set_string_def p_get_def)
  from drawer_shows_its_receipt [OF stream_run.Start _ d] d show ?thesis by simp
qed

text \<open>The usage lines of a receipt add up to the larger of its input and the parts of it, plus the larger of its output
  and its reasoning; so to the total shown below them exactly when the parts are parts.\<close>

theorem usage_lines_reconcile:
  assumes "0 \<le> cache_writes r"
  shows "sum_list (map snd (usage_lines r)) =
      max (rc_inputTokens r) (rc_cachedInputTokens r + cache_writes r) + max (rc_outputTokens r) (rc_reasoningTokens r) \<and>
    (sum_list (map snd (usage_lines r)) = usage_total r \<longleftrightarrow>
      rc_cachedInputTokens r + cache_writes r \<le> rc_inputTokens r \<and> rc_reasoningTokens r \<le> rc_outputTokens r)"
  by (rule conjI [OF usage_lines_sum [OF assms] usage_lines_total_iff [OF assms]])

theorem usage_lines_reconcile_witness:
  "sum_list (map snd (usage_lines (ex_receipt ''a'' 3))) = 2 \<and> usage_total (ex_receipt ''a'' 3) = 2"
  using usage_lines_reconcile [of "ex_receipt ''a'' 3"] by (simp add: cache_writes_def ex_receipt_def usage_total_def)

text \<open>A prefix of six hex characters is taken for a trace id too, though the comment in the code asks for eight: typed
  and entered, it opens the receipt that entered the cache first of those whose id it begins.\<close>

theorem six_characters_open:
  "pa_ran (press_enter ex_palette (on_query ex_palette ''7f3a91'' (palette_mount ex_palette))) = [RunReceipt ''7f3a91c2''] \<and>
   \<not> trace_id_text ''7f3a91''"
proof
  have n: "needle_of ''7f3a91'' = ''7f3a91''" by code_simp
  have l: "looks_like_trace ''7f3a91''" by code_simp
  have f: "filter (receipt_matches ''7f3a91'') (pe_cached ex_palette) = ex_receipt ''7f3a91c2'' 3 # []"
    by (simp add: ex_palette_def receipt_matches_def)
  from enter_runs_first [of "''7f3a91''" "palette_mount ex_palette" ex_palette "ex_receipt ''7f3a91c2'' 3" "[]"] n l f
  show "pa_ran (press_enter ex_palette (on_query ex_palette ''7f3a91'' (palette_mount ex_palette))) = [RunReceipt ''7f3a91c2'']"
    by (simp add: palette_mount_def)
  show "\<not> trace_id_text ''7f3a91''" by code_simp
qed

text \<open>The tokens of a model in a key's top models are input, output and reasoning, though elsewhere the program says that
  reasoning tokens are part of the output: they are counted twice.\<close>

theorem reasoning_counted_twice:
  assumes "gp \<in> set (topModels rs)"
  shows "mo_tokens (fst gp) =
      sum_list (map (\<lambda>r. rc_inputTokens r + rc_outputTokens r) (of_model (mo_model (fst gp)) rs)) +
      sum_list (map rc_reasoningTokens (of_model (mo_model (fst gp)) rs))"
  using topModels_row(2) [OF assms] receipt_tokens_sum by simp

theorem reasoning_counted_twice_witness:
  "\<forall>gp \<in> set (topModels [(ex_receipt ''a'' 3)\<lparr>rc_reasoningTokens := 1\<rparr>]). mo_tokens (fst gp) = 3"
proof
  let ?r = "(ex_receipt ''a'' 3)\<lparr>rc_reasoningTokens := 1\<rparr>"
  fix gp assume g: "gp \<in> set (topModels [?r])"
  have "of_model (mo_model (fst gp)) [?r] \<noteq> []" by (rule topModels_row(4) [OF g])
  then have "of_model (mo_model (fst gp)) [?r] = [?r]" by (auto simp: of_model_def settled_def split: if_splits)
  then show "mo_tokens (fst gp) = 3" using reasoning_counted_twice [OF g] by (simp add: ex_receipt_def)
qed

text \<open>A row of the list opens in the drawer.  While the tab has not yet cached 20,000 receipts, every row that the list
  shows is found by the drawer under its id once it is clicked, whether the stream or a page brought it.\<close>

theorem rows_open_in_drawer:
  assumes "list_run ks sat seed L" and "length seed \<le> 600" and "ll_feed L = Some fd"
    and "length (st_byId (ll_stream L)) < 20000" and "r \<in> set (fs_rows (current ks fd))" and "rc_id r \<noteq> []"
  shows "\<exists>r'. drawer_receipt (ll_stream L) (openReceipt (rc_id r) a) = Some r' \<and> rc_id r' = rc_id r"
  by (rule row_opens [OF assms(1) _ assms(3) _ assms(5,6)]) (use assms(2,4) in \<open>simp_all add: ROWS_CAP_def BYID_CAP_def\<close>)

theorem rows_open_in_drawer_witness:
  "\<exists>r'. drawer_receipt (ll_stream ex_shown) (openReceipt ''a'' ex_app) = Some r' \<and> rc_id r' = ''a''"
proof -
  obtain fd r' where *: "ll_feed ex_shown = Some fd" "r' \<in> set (fs_rows (current [] fd))" "rc_id r' = ''a''"
    using flush_shows [OF ex_arrived_run _ ex_arrived_state(1) ex_mount(1), of _ "ex_receipt ''a'' 3"] ex_mount
    by (auto simp: ex_arrived_state(2) ex_shown_def in_window_def ex_window_def ROWS_CAP_def MAX_ROWS_def)
  show ?thesis
    using rows_open_in_drawer [OF ex_shown_run _ *(1) _ *(2)] ex_shown_cache *(3) by simp
qed

text \<open>A choice takes effect at once and lasts.  Where storage can be read exactly when it can be written, picking a mode
  renders that mode and sets its class; and where it works, the next load of the page paints that mode from the start.\<close>

theorem choice_takes_effect:
  assumes "theme_step\<^sup>*\<^sup>* (page_load k m st) s" and "th_snap s \<noteq> None" and "isThemeMode c"
    and "st_write_ok (ts_storage (th_store s)) = st_read_ok (ts_storage (th_store s))"
  shows "(\<exists>p. th_snap (setThemeMode c s) = Some p \<and> fst p = c \<and> th_class (setThemeMode c s) = resolved_dark p) \<and>
    (st_read_ok (ts_storage (th_store s)) \<longrightarrow>
      th_class (page_load (th_key s) m' (ts_storage (th_store (setThemeMode c s)))) = resolved_dark (c, prefersDark (md_matches m')))"
  using setThemeMode_shows [OF assms] stored_choice_reloads [of s c m'] assms(3,4) by simp

theorem choice_takes_effect_witness:
  "th_class (page_load ''k'' ex_media (ts_storage (th_store (setThemeMode ''dark'' ex_themed))))"
proof -
  have s: "th_snap ex_themed \<noteq> None" "th_key ex_themed = ''k''"
    "ts_storage (th_store ex_themed) = \<lparr>st_data = Map.empty, st_read_ok = True, st_write_ok = True\<rparr>"
    by (simp_all add: ex_themed_def scheme_changes_def hook_mount_def page_load_def ex_media_def on_scheme_change_def)
  show ?thesis
    using choice_takes_effect [OF ex_themed_run s(1), of "''dark''" ex_media] s(2,3)
    by (simp add: isThemeMode_def THEME_MODES_def resolved_dark_def)
qed

text \<open>A comma in a filter value leaves the rows of an earlier URL on the page.  Opened with one key whose name is two names and
  a comma, and then sent to the URL with those two keys, the page goes on with the filters of the first URL.\<close>

theorem comma_keeps_filters:
  assumes "ap_params (a :: app) = [(''key'', ''a,b'')]" and "rangeMs (ap_range a) \<noteq> None"
  shows "\<exists>p fd. page_run ks sat [] p \<and> ap_params (tb_app (tt_tab p)) = [(''key'', ''a''), (''key'', ''b'')] \<and>
    ll_feed (tb_list (tt_tab p)) = Some fd \<and> fget (fd_filters fd) DimKey = [''a,b'']"
proof -
  have o: "tb_list (open_tab [] a) = list_init []" "tb_app (open_tab [] a) = a" by (simp_all add: open_tab_def)
  have "ll_feed (tb_list (open_tab [] a)) = None" "rangeMs (ap_range (tb_app (open_tab [] a))) \<noteq> None"
    "ap_params (tb_app (open_tab [] a)) = [(''key'', ''a,b'')]"
    using assms by (simp_all add: o list_init_def)
  note page = comma_goto [where ks = ks and sat = sat and at' = 0 and now = 0 and s = "traffic_ui_mount [] []", OF tab_run.Load this refl]
  from page(3) obtain fd where "ll_feed (tb_list (tt_tab (goto_page ks 0 0 ((tb_app (open_tab [] a))\<lparr>ap_params := [(''key'', ''a''), (''key'', ''b'')]\<rparr>)
      (visit_page ks 0 0 (traffic_ui_mount [] []) (open_tab [] a))))) = Some fd" "fget (fd_filters fd) DimKey = [''a,b'']" by blast
  with page(1,2) show ?thesis by blast
qed

theorem comma_keeps_filters_witness:
  "\<exists>p fd. page_run [] (\<lambda>q r. True) [] p \<and> ap_params (tb_app (tt_tab p)) = [(''key'', ''a''), (''key'', ''b'')] \<and>
    ll_feed (tb_list (tt_tab p)) = Some fd \<and> fget (fd_filters fd) DimKey = [''a,b'']"
  by (rule comma_keeps_filters [of "ex_url\<lparr>ap_params := [(''key'', ''a,b'')]\<rparr>"]) (simp_all add: ex_url_sel)

text \<open>A key created during the first load can stay missing.  With a query library that goes on with a first load when the list
  is invalidated, there is a run that ends with no fetch under way and the empty list shown, though the page was told of
  a creation and the control plane has the key.\<close>

theorem first_load_misses_key:
  assumes "\<not> restarts False"
  shows "\<exists>w. key_run restarts [ex_model] [] w \<and> kw_fetch w = None \<and> kw_shown w = Loaded [] \<and>
    ex_made \<in> kw_acked w \<and> ex_made \<in> set (kw_server w)"
proof -
  let ?s = "ex_submitted\<lparr>kw_fetch := Some (Some [])\<rparr>"
  let ?a = "create_answered restarts ''sk'' ex_made (create_served ex_made ?s)"
  have "key_step restarts [ex_model] ex_submitted ?s"
    using key_step.FetchServed [of ex_submitted restarts "[ex_model]"] by (simp add: ex_submitted_sel)
  with ex_submitted_run have "key_run restarts [ex_model] [] ?s" by (rule key_run.Step)
  then have "key_run restarts [ex_model] [] ?a" by (rule ex_created_run) (simp_all add: ex_submitted_sel)
  moreover have "kw_fetch ?a = Some (Some [])"
    using assms by (simp add: create_answered_def settle_page_def create_served_def set_page_def ex_submitted_sel)
  ultimately have "key_run restarts [ex_model] [] (?a\<lparr>kw_fetch := None, kw_shown := Loaded [], kw_data := True\<rparr>)"
    by (blast intro: key_run.Step key_step.FetchAnswered)
  then show ?thesis by (intro exI conjI) (assumption, simp_all add: create_answered_def create_served_def)
qed

theorem first_load_misses_key_witness:
  "\<exists>w. key_run (\<lambda>b. b) [ex_model] [] w \<and> kw_fetch w = None \<and> kw_shown w = Loaded [] \<and> ex_made \<in> set (kw_server w)"
  using first_load_misses_key [of "\<lambda>b. b"] by blast

end
