(* ===== verification/Spec2Isabelle.thy ===== *)
theory Spec2Isabelle
  imports Further
begin

text \<open>
  \<^bold>\<open>What this is.\<close>  A verification development for the two TypeScript front ends of llm-serving-pack: the key
  manager (\<open>frontend/\<close>), where a user creates and revokes API keys, and the usage console
  (\<open>usage-console/console/\<close>), where a team reads its traffic and spend.  Each theory models one part of the
  code as executable definitions named as in the source, with the lemmas that make it correct; this theory
  states the properties of the program over them, in order C1 to C40, each with a witness at a concrete input where
  it has hypotheses.  Below, U is \<open>usage-console/console/src\<close> and F is \<open>frontend/src\<close>.

  \<^bold>\<open>How the program works.\<close>  The console asks a control plane for its catalog (\<open>hydrate\<close>), polls it
  (\<open>useLive\<close>), and keeps one event stream open (\<open>ReceiptStream\<close>).  The Traffic page narrows that stream to
  its filters (\<open>tail\<close>), pages older receipts in, and draws a virtual table over the result; the Spend page draws
  a polled view, charts it and links every bar and row back into Traffic by the URL.  The key manager loads a runtime
  configuration, logs in through Keycloak, and drives dialogs around two mutations.

  \<^bold>\<open>Theories and code.\<close>
  \<^item> Prelude: strings, decimal printing, stable sorting by a comparator, slices; the lemma collections.
  \<^item> Browser: web storage, \<open>URLSearchParams\<close>, \<open>encodeURIComponent\<close>, a tree type for what a component
    renders and the actions it offers.  Each is what the language's or the browser's documentation says.
  \<^item> Catalog (U/data/catalog.ts and the types of U/data/mock.ts), Format (U/lib/format.ts,
    U/components/gw/numbers.tsx), Csv (U/lib/csv.ts).
  \<^item> OrderedMap: the insertion-ordered map of JavaScript, and the interface of a bounded cache.
  \<^item> ReceiptStream (U/state/app-state.tsx, the stream class): one record field per private field, one
    definition per method, an inductive relation of its events.
  \<^item> TrafficFeed (U/state/traffic-feed.ts): the hook's state with its effects and the requests in flight.
  \<^item> LiveList: the hook on the stream.  Each of the two theories above describes one machine with the other as its
    surroundings; here they run together, and the calls between them are those of the code.
    StreamReaders: the components that read the stream, which render only when it calls its listeners.
  \<^item> AppState (U/state/live.ts and the rest of U/state/app-state.tsx).
  \<^item> Calendar: the UTC part of ECMAScript's Date.  SpendData (U/pages/spend-data.ts), Charts
    (U/components/gw/charts.tsx), Parts (U/components/gw/page.tsx, verdict.tsx), SpendPage (U/pages/spend.tsx).
  \<^item> TrafficPage (U/pages/traffic.tsx); FrozenList: its events on a list that moves;
    TrafficScreen: the page from the URL to the rows and back by a click, and the open page in the tab, with the memos
    that its filters and its window are; Drill: what Spend links to and Traffic reads back.
  \<^item> Mock (U/data/mock.ts): the demo tenant's tables and its seeded generator, \<open>mulberry32\<close> on 32-bit words, with
    \<open>makeReceipt\<close> and the series as programs of a state monad over any source of random numbers.
  \<^item> KeysPage (U/pages/keys.tsx), Overview (U/pages/overview.tsx), ReceiptDrawer (U/components/gw/receipt-drawer.tsx).
  \<^item> Palette (U/components/shell/command-palette.tsx) and Shell (the rest of U/components/shell, U/App.tsx, U/main.tsx);
    ConsoleLinks: the links of the pages against the routes.
  \<^item> Toasts, Panels, Controls, Menus: U/components/ui (toast; drawer and sidebar; button, alert, tooltip, tabs, dialog,
    table and others; dropdown menu, select, navigation bar).  ManagerUi: the key manager's own controls;
    ManagerRegistry: its copies of the same registry components.
  \<^item> Config (F/app/config.ts), Auth (F/auth, F/lib/api.ts, F/main.tsx), Theme (storage and result of the theme hook
    of both front ends, and the scripts before the first paint), ThemeHook (its subscriptions and the class it sets, as
    steps), BootScript (the text of the generated script), KeyManager (F/App.tsx, the dialogs, cards, hooks and atoms),
    KeyMutations (F/hooks/useApiKeys.ts, useModels.ts, F/lib/queryClient.ts: the dialogs with the requests they send; the page
    that an answer finds is an argument, because the user goes on meanwhile), KeyRefetch (the
    list of keys against a control plane that serves requests between their sending and their answer; whether the query
    library gives up a running fetch when the list is invalidated is its parameter \<open>restarts\<close>), KeyScreen (what
    the drawn page offers, and that it is a step).
  \<^item> DocsLinks (docs/src/plugins/remark-base-links.ts).
  \<^item> Samples: the concrete inputs of the witnesses.  Further: facts about single operations beside the properties here.

  \<^bold>\<open>State and events.\<close>  The stream, the feed, the polled read, the palette and the key manager page are state machines: a
  record of the state, definitions for the operations, an inductive step relation whose constructors are the events
  (renders, timers, answers, clicks), and the runs from the initial state.  Invariants are proved for every step, so
  they hold for every interleaving.  What a server answers is a parameter; where a property needs it to answer
  sensibly (a page has distinct receipts that match the query asked), that is a premise of the step, stated in
  \<open>page_ok\<close>.  So are the libraries: the toast manager that the console wraps is any with the documented effect of its
  operations (\<open>shallow_manager\<close>), and the query library any that gives up a running fetch for a new one once there is data.

  \<^bold>\<open>What the lemmas show.\<close>  C1, C2: the Traffic page from the URL to the rows it draws, and back by a click.  C3, C4:
  the key manager's page against the control plane, and what it offers.  C5 to C8: the Traffic list on the stream,
  composed (what it shows and the connection it has, that filters reconnect once, that arrivals are shown, that a late
  page can put an older copy into the drawer).  C9, C10: what the readers of the stream have rendered, and a deep link
  that the drawer misses.  C11: a list that is held stays still.  C12, C13: the hook alone (an older page that is answered after the query changed, its
  merge against the specification).  C14, C15: the stream alone.  C16, C17: reads.  C18, C19: requests and session.
  C20: untrusted configuration.  C21: the first paint.  C22 to C24: key manager.  C25 to C27: spend, export and the link
  from Spend.  C28: the virtual table.  C29: the stream comes to rest.  C30, C31: the demo data, and the two pages that
  show it.  C32 and C35: the Keys page.  C33: the palette.  C34: toasts.  C36, C37: the theme in a tab and the text of its
  script.  C38: every link leads to a page.  C39, C40: the key manager's dialogs with their requests.  Some properties
  state behaviour the code should not have (C8, C10, the second case of C12, C24, the last part of C35), and so do some
  facts of Further.  Some leave a case out where the code disagrees with its own documentation, each named in their text
  and stated as a fact of Further: filter values with a comma (C1), a key created during the first load (C3), a new receipt
  twice in a batch (C15), network-path addresses (C20), bars before the range (C27), reasoning tokens (C32), six
  characters as a trace id (C33); C30 says nothing of the token counts of truncated demo receipts.

  \<^bold>\<open>Interfaces.\<close>  Web storage (\<open>kv_storage\<close>), the multi-valued parameters of a URL, the bounded cache and its extension by a cache
  that only grows (\<open>growing_cache\<close>), the
  order of a comparator, the grouping loop (\<open>grouping\<close>: the breakdown of Spend and the top models of a key are
  readings of it) and a source of random numbers in the unit interval (\<open>unit_random\<close>) are locales; their client
  lemmas are proved inside them and each is interpreted on the model's own definitions in the theory that provides
  them.

  \<^bold>\<open>Bounds.\<close>  Money, shares and axis values are rationals and times are integer milliseconds, where the program
  has doubles: rounding of binary fractions is not modelled, and neither are infinities and NaN (a division by a zero
  price counts as zero).  The generator's arithmetic is on 32-bit words, with its wrap-around.  Strings are lists of
  characters.  No definition needs fuel: the only unbounded search, for the year of a day, terminates by a measure,
  and the stream's own work terminates by another (C29).  Time zones enter as the viewer's offset; \<open>localeCompare\<close>,
  the sine of the demo's daily curve, URL parsing, JSON (but for the literal of a string), \<open>matchMedia\<close> and the Keycloak adapter
  are parameters.

  \<^bold>\<open>Not modelled.\<close>  What the component library does below the controls (focus, stacking, swipes, timers),
  React's own scheduling beyond the order of effects and events, what Recharts draws, class names, the router's
  leniency about paths, tests and build configuration, and the Go and Python services, whose answers are parameters.
\<close>

section \<open>From the URL to the screen\<close>

text \<open>C1.
  What can be clicked on the Traffic page is what the URL asks for.  In every state that the open page can reach (the URL
  changes, receipts, pages and timers arrive, the page is clicked), provided that no filter value of a URL it has had is
  empty or has a comma or an ampersand in it, each row that the page draws and that opens a receipt is a receipt that
  answers the filters of the URL and lies in its window, no newer than where a frozen list was frozen; and while the tab
  has not yet cached 20,000 receipts, clicking it makes the drawer show a receipt of that id.  (The page keeps its filters
  in a memo under a text that joins the values with commas; without the proviso it can show the rows of an earlier URL,
  which is a fact of Further.)\<close>

theorem screen_rows_sound:
  assumes "page_run ks sat seed p" and "length seed \<le> 600" and "list_all plain_url (tt_visited p)"
    and "ll_feed (tb_list (tt_tab p)) = Some fd" and "a = tb_app (tt_tab p)"
    and "OpenRow i \<in> set (ui_actions (traffic_screen c tz edge now m a (tt_ui p) ks fd cnt smp all v rowH))"
  shows "(\<exists>r. rc_id r = i \<and> sat (tail_query ks (page_filters (ap_params a))) r \<and> in_window (tab_window (tt_at p) a) r \<and>
      (\<forall>top. tu_frozenTop (tt_ui p) = Some top \<longrightarrow> rc_ts r \<le> top)) \<and>
    (length (st_byId (ll_stream (tb_list (tt_tab p)))) < 20000 \<and> i \<noteq> [] \<longrightarrow>
      (\<exists>r. tb_drawer (change_app (fst (traffic_act stringify (OpenRow i) (a, tt_ui p))) (tt_tab p)) = Some r \<and> rc_id r = i))"
proof -
  have cap: "length seed \<le> ROWS_CAP" using assms(2) by (simp add: ROWS_CAP_def)
  note url = page_run_url [OF assms(1,3,4), folded assms(5)]
  note row = screen_row [OF page_run_tab [OF assms(1)] cap assms(4,6)]
  from row(1) row(2) show ?thesis unfolding url by (simp add: BYID_CAP_def)
qed

theorem screen_rows_sound_witness:
  "\<exists>r. rc_id r = ''a'' \<and> in_window (tab_window 5 ex_url) r"
proof -
  have "plain_url (ap_params ex_url)"
    by (simp add: ex_url_sel plain_url_def plain_value_def dims_order_def dim_str_def p_get_all_def)
  then have "list_all plain_url (tt_visited ex_page)" by simp
  from screen_rows_sound [OF ex_page_run _ this, of ex_linked_feed ex_url, unfolded ex_page_sel, OF _ ex_linked_run(1)
      ex_linked_run(2) [symmetric] ex_linked_row] show ?thesis by auto
qed

text \<open>C2.
  A click in the filter bar does what it says.  Every filter that the page offers is, for some dimension, the selection
  that the page shows with one of its values more or less, or the empty one; after the click the URL has exactly that selection
  for the dimension and the same for every other; the chips of \<open>since\<close> and \<open>day\<close> take their parameter off and leave all
  filters; and an open receipt stays open.\<close>

theorem filter_click_filters:
  assumes "SetFilter k vs \<in> set (ui_actions (traffic_screen c tz edge now m a s ks fd cnt smp all v rowH))"
    and "a' = fst (traffic_act stringify (SetFilter k vs) (a, s))"
  shows "receiptId a' = receiptId a \<and>
    ((\<exists>d. k = dim_str d \<and> offered_filter c (fd_filters fd) d vs \<and>
        (\<forall>e. fget (page_filters (ap_params a')) e = (if e = d then vs else fget (page_filters (ap_params a)) e))) \<or>
      k \<in> {''since'', ''day''} \<and> p_get (ap_params a') k = None \<and> page_filters (ap_params a') = page_filters (ap_params a))"
  using filter_click [OF assms] by blast

theorem filter_click_filters_witness:
  "p_get (ap_params (fst (traffic_act concat (SetFilter ''day'' []) (ex_day, traffic_ui_mount [] [])))) ''day'' = None"
proof -
  have "''day'' \<noteq> dim_str d" for d by (cases d) (simp_all add: dim_str_def)
  with filter_click_filters [OF ex_day_chip refl, of concat] show ?thesis by blast
qed

section \<open>The key manager's page and the control plane\<close>

text \<open>C3.
  The list of keys catches up.  However clicks, answers, fetches and other hands interleave, with a query library that
  gives up a running fetch for a new one once the list has been loaded before: when no fetch is under way and the list is
  shown, it has no key whose revocation the page was told of, and it has every key whose creation the page was told of,
  unless that key has been removed since, or its creation was answered during a first load that the library went on with
  and no fetch has begun since.  With a library that gives up a first load as well, there is no such key.  (Otherwise it
  can stay missing; that is a fact of Further.)\<close>

theorem keys_catch_up:
  assumes "restarts True" and "key_run restarts models ks w" and "kw_fetch w = None" and "kw_shown w = Loaded xs"
  shows "kw_acked w \<subseteq> set xs \<union> kw_gone w \<union> kw_early w \<and> set xs \<inter> kw_dead w = {} \<and> (restarts False \<longrightarrow> kw_early w = {})"
  using quiet_list [OF assms] by simp

theorem keys_catch_up_witness: "ex_made \<in> kw_acked ex_listed \<and> kw_acked ex_listed \<subseteq> {ex_made} \<union> kw_gone ex_listed"
proof
  show "ex_made \<in> kw_acked ex_listed" by (simp add: ex_listed_def create_answered_def)
  have "kw_fetch ex_listed = None" "kw_shown ex_listed = Loaded [ex_made]" by (simp_all add: ex_listed_def)
  from keys_catch_up [OF _ ex_listed_run this] show "kw_acked ex_listed \<subseteq> {ex_made} \<union> kw_gone ex_listed" by auto
qed

text \<open>C4.
  Every click is a step.  Whatever the key manager's page offers in a reachable state (a closed dialog offers nothing, a
  dialog that is open hides the rest, a disabled control does nothing), doing it leads to a reachable state: the guards
  of the page's state machine, which no handler checks, hold because of what the page draws.\<close>

theorem offered_steps:
  assumes "key_run restarts models ks w" and "x \<in> set (offered_actions pd dt u th b (kw_shown w) (Some models) (kw_page w))"
  shows "key_run restarts models ks (set_page (km_act x (kw_page w)) w)"
  using offered_key_step [OF assms(2), of restarts] assms(1) by (auto intro: key_run.Step)

theorem offered_steps_witness:
  "key_run (\<lambda>b. b) [ex_model] [] (set_page (page_init\<lparr>pg_dialog := CreateDialog\<rparr>) (key_world_init []))"
proof -
  have "OpenCreate \<in> set (offered_actions (\<lambda>s. None) (\<lambda>t. []) None \<lparr>tm_themeMode = [], tm_isDarkMode = False\<rparr> None
      (kw_shown (key_world_init [])) (Some [ex_model]) (kw_page (key_world_init [])))"
    by (simp add: offered_actions_def KeyManagerApp_def live_card key_world_init_def page_init_def)
  from offered_steps [OF key_run.Open this] show ?thesis by (simp add: key_world_init_def km_act_def)
qed

section \<open>The list on the stream\<close>

text \<open>C5.
  The Traffic list on the tab's one stream.  However the page is opened, filtered, reloaded and closed, and however
  batches and pages arrive in between, the receipts shown are distinct, answer the filters of the last render and lie
  in its window; and while the list has a live tail, the one connection carries exactly its filters and the stream
  hands its batches to the page's current effect.\<close>

theorem console_list_sound:
  assumes "list_run ks sat seed L" and "length seed \<le> 600" and "ll_feed L = Some fd"
  shows "distinct (map rc_id (fs_rows (current ks fd))) \<and>
    (\<forall>r \<in> set (fs_rows (current ks fd)). sat (tail_query ks (fd_filters fd)) r \<and> in_window (fd_window fd) r) \<and>
    (fd_tail fd \<noteq> None \<longrightarrow> st_es (ll_stream L) = Some (tail_query ks (fd_filters fd)) \<and>
      st_tailer (ll_stream L) = Some (fd_effect fd))"
proof -
  have cap: "length seed \<le> ROWS_CAP" using assms(2) by (simp add: ROWS_CAP_def)
  show ?thesis
    using list_rows_answer [OF assms(1) cap assms(3)] connection_of_list [OF assms(1) cap assms(3)] by blast
qed

theorem console_list_sound_witness:
  "st_es (ll_stream ex_list) = Some (tail_query [] (ex_filters ''web'')) \<and>
   st_tailer (ll_stream ex_list) = Some (fd_effect (mount [] 5 (ex_filters ''web'') ex_window))"
  using console_list_sound [OF ex_list_run _ ex_list_state(1)] ex_mount by simp

text \<open>C6.
  While the list has a live tail before and after, a change of filters or window opens at most one connection: none when
  the new filters ask for the same receipts, and otherwise exactly one, for the new filters.  The microtask that untailing
  queued opens no unfiltered one in between.  (A view of a past day has no tail: it is not part of this claim.)\<close>

theorem filters_reconnect_once:
  assumes "list_run ks sat seed L" and "length seed \<le> 600" and "ll_feed L = Some fd"
    and "fd_tail fd \<noteq> None" and "fd_tail (render ks now f w fd) \<noteq> None"
  shows "st_opened (microtask (ll_stream (list_render ks now f w fd L))) = st_opened (ll_stream L) @
    (if tail_query ks f = tail_query ks (fd_filters fd) then [] else [tail_query ks f])"
proof -
  have "length seed \<le> ROWS_CAP" using assms(2) by (simp add: ROWS_CAP_def)
  from reconnect_once [OF assms(1) this assms(3-5)] show ?thesis by simp
qed

theorem filters_reconnect_once_witness:
  "\<exists>q. length (st_opened (microtask (ll_stream
      (list_render [] 5 (ex_filters ''b'') ex_window (mount [] 5 (ex_filters ''web'') ex_window) ex_list)))) = q \<and> q \<le> 2"
proof -
  have "fd_tail (render [] 5 (ex_filters ''b'') ex_window (mount [] 5 (ex_filters ''web'') ex_window)) \<noteq> None"
    using ex_mount(1) [of "''web''"] by (simp add: render_def run_effect_def ex_window_def Let_def)
  from filters_reconnect_once [OF ex_list_run _ ex_list_state(1) ex_mount(1) this] show ?thesis
    by (simp add: ex_list_state(4))
qed

text \<open>C7.
  What arrives is shown.  When the batch timer fires, every receipt that waits, answers the list's window and finds room
  (the list holds at most 10,000 rows) is in the list afterwards, in its own or a newer copy.\<close>

theorem arrivals_shown:
  assumes "list_run ks sat seed L" and "length seed \<le> 600" and "ll_feed L = Some fd" and "fd_tail fd \<noteq> None"
    and "(q, r) \<in> set (st_queue (ll_stream L))" and "in_window (fd_window fd) r"
    and "length (fs_rows (fd_state fd)) + length (st_queue (ll_stream L)) \<le> 10000"
  shows "\<exists>fd'. ll_feed (on_stream flush L) = Some fd' \<and> (\<exists>r' \<in> set (fs_rows (current ks fd')). rc_id r' = rc_id r)"
  by (rule flush_shows [OF assms(1) _ assms(3-6)]) (use assms(2,7) in \<open>simp_all add: ROWS_CAP_def MAX_ROWS_def\<close>)

theorem arrivals_shown_witness:
  "\<exists>fd'. ll_feed (on_stream flush ex_arrived) = Some fd' \<and> (\<exists>r' \<in> set (fs_rows (current [] fd')). rc_id r' = ''a'')"
  using arrivals_shown [OF ex_arrived_run _ ex_arrived_state(1), of _ "ex_receipt ''a'' 3"] ex_mount
  by (simp add: ex_arrived_state(2)) (simp add: in_window_def ex_window_def)

text \<open>C8.
  The drawer can show an older copy than the list.  Whenever a receipt has two copies that answer the filters, one
  before and one after it settled, there is a run in which the first page, answered before the stream brought the
  newer copy, arrives after it: the list keeps the newer copy, but the page is remembered all the same, and clicking
  the row opens the older one.\<close>

theorem stale_copy_in_drawer:
  assumes "length seed \<le> 600" and "tw_before w = None"
    and "sat (tail_query ks f) new" and "in_window w new" and "sat (tail_query ks f) old" and "in_window w old"
    and "rc_id old = rc_id new" and "rc_id new \<noteq> []"
  shows "\<exists>L fd. list_run ks sat seed L \<and> ll_feed L = Some fd \<and> fs_rows (current ks fd) = [new] \<and>
    drawer_receipt (ll_stream L) (openReceipt (rc_id new) a) = Some old"
proof -
  let ?fd = "mount ks 5 f w"
  let ?L = "list_mount ks 5 f w (list_init seed)"
  have cap: "length seed \<le> ROWS_CAP" using assms(1) by (simp add: ROWS_CAP_def)
  have run: "list_run ks sat seed ?L"
    by (rule list_run.Step [OF list_run.Open list_step.Mount]) (simp add: list_init_def)
  have fd: "ll_feed ?L = Some ?fd" "st_queue (ll_stream ?L) = []"
    using assms(2) by (simp_all add: list_mount_def open_tail_def list_init_def init_stream_def on_stream_def mount_def
      run_effect_def tail_def start_def connect_def setSampling_def flush_def Let_def)
  have q: "fd_tail ?fd \<noteq> None" "hd (fd_first ?fd) \<in> set (fd_first ?fd)" "fq_effect (hd (fd_first ?fd)) = fd_effect ?fd"
    "fd_filters ?fd = f" "fd_window ?fd = w"
    using assms(2) by (simp_all add: mount_def run_effect_def Let_def)
  note late = late_page [OF run cap fd(1) q(1) fd(2) mount_rows q(2,3), of new old, unfolded q(4,5), OF assms(3-7)]
  then show ?thesis using drawer_open_close(1) [OF assms(8)] by auto
qed

theorem stale_copy_in_drawer_witness:
  "\<exists>L fd. list_run [] (\<lambda>q r. True) [] L \<and> ll_feed L = Some fd \<and> fs_rows (current [] fd) = [ex_receipt ''a'' 3] \<and>
    drawer_receipt (ll_stream L) (openReceipt ''a'' ex_app) = Some ((ex_receipt ''a'' 3)\<lparr>rc_inFlight := True\<rparr>)"
  using stale_copy_in_drawer [of "[]" ex_window "\<lambda>q r. True" "[]" "ex_filters ''web''" "ex_receipt ''a'' 3"
      "(ex_receipt ''a'' 3)\<lparr>rc_inFlight := True\<rparr>" ex_app]
  by (simp add: ex_window_def in_window_def)

text \<open>C9.
  What is on the screen is current.  However list, stream and navigation interleave, the components that read the stream
  show its current rows and its current sampling, although they only render when they are told; the drawer never shows
  another receipt than the one the URL names; and a burst of receipts, however long, costs one render, at the flush.\<close>

theorem readers_up_to_date:
  assumes "tab_run ks sat seed t" and "length seed \<le> 600"
  shows "tb_rows t = st_rows (ll_stream (tb_list t)) \<and> tb_sampling t = st_sampling (ll_stream (tb_list t)) \<and>
    (\<forall>r. tb_drawer t = Some r \<longrightarrow> receiptId (tb_app t) = Some (rc_id r)) \<and>
    (\<forall>rs. rs \<noteq> [] \<and> st_es (ll_stream (tb_list t)) \<noteq> None \<longrightarrow>
      st_emits (flush (fold on_receipt rs (ll_stream (tb_list t)))) = Suc (st_emits (ll_stream (tb_list t))))"
proof -
  have "length seed \<le> ROWS_CAP" using assms(2) by (simp add: ROWS_CAP_def)
  from tab_run_named [OF assms(1) this] tab_run_current [OF assms(1)] show ?thesis
    using burst_renders_once by (fastforce simp: readers_current_def drawer_named_def)
qed

theorem readers_up_to_date_witness: "tb_rows ex_seen = [ex_receipt ''a'' 3]"
  using readers_up_to_date [OF ex_seen_run] ex_seen_rows by simp

text \<open>C10.
  A deep link can open an empty drawer.  When the Traffic page is opened with the id of a receipt that was not loaded
  at the start, there is a run in which its first page brings the receipt, the list shows it and the cache has it, but
  the drawer, which is not told of what the stream remembers, still says that there is no such receipt.\<close>

theorem deep_link_not_found:
  assumes "length seed \<le> 600" and "receiptId a = Some (rc_id r)" and "rc_id r \<noteq> []"
    and "rc_id r \<notin> rc_id ` set seed" and "sat (tail_query ks f) r" and "in_window w r"
  shows "\<exists>t fd. tab_run ks sat seed t \<and> ll_feed (tb_list t) = Some fd \<and> fs_rows (current ks fd) = [r] \<and>
    drawer_receipt (ll_stream (tb_list t)) a = Some r \<and> tb_app t = a \<and> tb_drawer t = None"
proof -
  have cap: "length seed \<le> ROWS_CAP" using assms(1) by (simp add: ROWS_CAP_def)
  have "tb_app (deep_link ks f w seed r a) = a" by (simp add: deep_link_def Let_def open_tab_def)
  with deep_link_misses [where sat = sat and ks = ks and f = f and w = w, OF cap assms(2-6)] show ?thesis by blast
qed

theorem deep_link_not_found_witness:
  "\<exists>t. tab_run [] (\<lambda>q r. True) [] t \<and> drawer_receipt (ll_stream (tb_list t)) ex_app = Some (ex_receipt ''a'' 3) \<and> tb_drawer t = None"
  using deep_link_not_found [of "[]" ex_app "ex_receipt ''a'' 3" "\<lambda>q r. True" "[]" "ex_filters ''web''" ex_window]
  by (auto simp: receiptId_def ex_app_def app_init_def p_get_def in_window_def ex_window_def)



section \<open>Traffic feed\<close>

text \<open>C12.
  An older page that is in flight while the query changes.  For every reachable state of the hook with an older page in
  flight and every render after it: if the last render asks for the query the page was asked for (the query has not
  changed, or has changed back), its answer lowers the flag that an older page is loading; if it asks for another query,
  then after the answer the flag stays up through everything that can happen to the list, and asking for older rows does
  nothing, until the page is mounted anew.\<close>

theorem older_pages_stuck:
  assumes "feed_run ks sat s" and "q \<in> set (fd_older s)"
  shows "if feed_key ks f w = oq_key q then \<not> fd_loadingOlder (older_reply ks q reply (render ks now f w s))
    else \<forall>s'. (feed_step ks sat)\<^sup>*\<^sup>* (older_reply ks q reply (render ks now f w s)) s' \<longrightarrow>
      fd_loadingOlder s' \<and> loadOlder ks s' = s'"
proof -
  let ?s = "render ks now f w s"
  have run: "feed_run ks sat ?s" by (rule feed_run.Step [OF assms(1) feed_step.Render])
  have q: "q \<in> set (fd_older ?s)" "fd_filters ?s = f" "fd_window ?s = w"
    using assms(2) by (simp_all add: render_def run_effect_def Let_def)
  show ?thesis
  proof (cases "feed_key ks f w = oq_key q")
    case True
    then show ?thesis using older_answered(1) [OF run q(1)] by (simp add: q(2,3))
  next
    case False
    then have "fd_loadingOlder (older_reply ks q reply ?s)" "fd_older (older_reply ks q reply ?s) = []"
      using older_answered(2) [OF run q(1)] by (simp_all add: q(2,3))
    from stuck_forever [OF _ this] flag_up_idle show ?thesis unfolding if_not_P [OF False] by blast
  qed
qed

theorem older_pages_stuck_witness:
  "fd_loadingOlder (older_reply [] (hd (fd_older ex_asked)) (Inl ''offline'') (render [] 5 (ex_filters ''b'') ex_window ex_asked)) \<and>
   \<not> fd_loadingOlder (older_reply [] (hd (fd_older ex_asked)) (Inl ''offline'') (render [] 5 (ex_filters ''web'') ex_window ex_asked))"
proof -
  obtain p where p: "fd_older ex_asked = [\<lparr>oq_key = feed_key [] (ex_filters ''web'') ex_window, oq_path = p,
     oq_window = \<lparr>tw_since = 0, tw_before = Some 2\<rparr>\<rparr>]" using ex_asked_older(4) by blast
  then have q: "hd (fd_older ex_asked) \<in> set (fd_older ex_asked)"
    and k: "oq_key (hd (fd_older ex_asked)) = feed_key [] (ex_filters ''web'') ex_window" by simp_all
  have up: "fd_loadingOlder (older_reply [] (hd (fd_older ex_asked)) (Inl ''offline'')
      (render [] 5 (ex_filters ''b'') ex_window ex_asked))"
    using older_pages_stuck [OF ex_asked_run q, of "ex_filters ''b''" ex_window "Inl ''offline''" 5]
    unfolding k if_not_P [OF ex_key_neq] by blast
  have "\<not> fd_loadingOlder (older_reply [] (hd (fd_older ex_asked)) (Inl ''offline'')
      (render [] 5 (ex_filters ''web'') ex_window ex_asked))"
    using older_pages_stuck [OF ex_asked_run q, of "ex_filters ''web''" ex_window "Inl ''offline''" 5]
    unfolding k if_P [OF refl] .
  with up show ?thesis by (rule conjI)
qed

text \<open>C13. Settling live rows: on a list without repetitions, a live batch puts the last copy of each receipt it
  has into the row already shown, in place, and the others on top by time, newest first; the result has no
  repetition and keeps at most ten thousand rows.\<close>

theorem applyLive_refines:
  assumes "distinct (map rc_id rows)" and "batch \<noteq> []"
  shows "applyLive rows batch = take MAX_ROWS (live_new rows batch @ map (newest batch) rows) \<and>
    distinct (map rc_id (applyLive rows batch)) \<and> length (applyLive rows batch) \<le> 10000 \<and>
    set (applyLive rows batch) \<subseteq> set rows \<union> set batch"
proof (intro conjI)
  show "applyLive rows batch = take MAX_ROWS (live_new rows batch @ map (newest batch) rows)"
    using applyLive_eq [OF assms(1)] assms(2) by (simp only: if_False)
  show "length (applyLive rows batch) \<le> 10000" using applyLive_bound [OF assms] by (simp add: MAX_ROWS_def)
qed (rule applyLive_distinct [OF assms(1)] applyLive_subset [OF assms(1)])+

theorem applyLive_refines_witness:
  "distinct (map rc_id (applyLive [ex_receipt ''a'' 3, ex_receipt ''b'' 2] [ex_receipt ''b'' 4, ex_receipt ''c'' 5])) \<and>
   length (applyLive [ex_receipt ''a'' 3, ex_receipt ''b'' 2] [ex_receipt ''b'' 4, ex_receipt ''c'' 5]) \<le> 10000"
  by (intro conjI applyLive_refines [THEN conjunct2, THEN conjunct1]
      applyLive_refines [THEN conjunct2, THEN conjunct2, THEN conjunct1]) simp_all

section \<open>Receipt stream\<close>

text \<open>C14. The stream under every interleaving of subscriptions, tails and their ends, microtasks, receipts, drops,
  sampling notices, flush timers and simulated receipts: at most 600 live rows; a cache of at most 20,000 receipts,
  each under its own id; once started against the API exactly one connection, for the current query; a queue that
  waits only while its timer is set; a narrowed query only while someone tails or the widening is scheduled; and a
  tailer is only ever handed receipts that came over a connection for the query it asked for.\<close>

theorem stream_invariant:
  assumes "stream_run mode seed s" and "length seed \<le> ROWS_CAP"
  shows "length (st_rows s) \<le> 600 \<and> length (st_byId s) \<le> 20000 \<and> (\<forall>p \<in> set (st_byId s). fst p = rc_id (snd p)) \<and>
    (st_started s \<and> mode = Api \<longrightarrow> st_es s = Some (st_query s)) \<and>
    (st_queue s \<noteq> [] \<longrightarrow> st_timer s) \<and>
    (st_query s \<noteq> [] \<longrightarrow> st_tailer s \<noteq> None \<or> 0 < st_microtasks s) \<and>
    (\<forall>(t, q, b) \<in> set (st_delivered s). \<forall>p \<in> set b. fst p = q)"
proof -
  have d: "data_inv s" and f: "flow_inv mode s" using stream_run_inv [OF assms] by simp_all
  show ?thesis
    using d f by (simp add: data_inv_def flow_inv_def cache_wf_def ROWS_CAP_def BYID_CAP_def)
qed

theorem stream_invariant_witness: "length (st_rows ex_streaming) \<le> 600 \<and> length (st_byId ex_streaming) \<le> 20000"
  using stream_invariant [OF ex_streaming_run] by simp

text \<open>C15. A batch, as the loop over settled and fresh rows processes it, does what its comments say, when no receipt that
  is new to the live rows comes in it twice: known rows take their newest form in place, each new receipt is one row on
  top, in its settled form, newest arrival first, up to the cap; every receipt of the batch goes through the cache in
  order, the subscribers are called once, and no other part of the stream changes.  (A new receipt that does come twice
  is two rows, against the comment; that is a fact of Further.)\<close>

theorem upsertMany_refines:
  assumes "distinct (map rc_id (filter (\<lambda>r. rc_id r \<notin> rc_id ` set (st_rows s)) batch))"
  shows "upsertMany batch s =
     s\<lparr>st_byId := fold remember batch (st_byId s),
       st_rows := (let new = rev (map (newest batch)
                         (first_arrivals (filter (\<lambda>r. rc_id r \<notin> rc_id ` set (st_rows s)) batch)));
                       known = map (newest batch) (st_rows s)
                   in if new = [] then known else take ROWS_CAP (new @ known)),
       st_emits := Suc (st_emits s)\<rparr>"
  using rows_spec_settled [of "st_rows s" batch] assms
  by (simp add: upsertMany_eq rc.remember_all_def settled_rows_def unknown_of_def Let_def)

theorem upsertMany_refines_witness:
  "st_rows (upsertMany [ex_receipt ''a'' 5, ex_receipt ''b'' 4, ex_receipt ''a'' 6] (init_stream [ex_receipt ''a'' 3])) =
     [ex_receipt ''b'' 4, ex_receipt ''a'' 6]"
proof -
  let ?s = "init_stream [ex_receipt ''a'' 3]"
  have r: "st_rows ?s = [ex_receipt ''a'' 3]" by (simp add: init_stream_def)
  show ?thesis
    by (subst upsertMany_refines) (simp_all add: r newest_def index_by_Cons first_arrivals_def ROWS_CAP_def)
qed

section \<open>Polled reads and hydration\<close>

text \<open>C16. A polled read never shows one path's data under another: through every interleaving of renders with
  new paths, reloads, poll timers and late answers, what it shows as loaded is an answer the server gave for the
  path of the last render, and until there is one it shows the initial value.\<close>

theorem live_shows_own_path:
  assumes "live_run Api answers initial s"
  shows "if snd (live_view Api initial s)
    then (\<exists>p. lh_path s = Some p \<and> answers p (fst (live_view Api initial s)))
    else fst (live_view Api initial s) = initial"
  using live_run_inv [OF assms] by (auto simp: live_view_def live_inv_def split: if_splits)

theorem live_shows_own_path_witness:
  "snd (live_view Api 0 ex_live) \<and> fst (live_view Api 0 ex_live) = 7"
proof -
  have "snd (live_view Api 0 ex_live)"
    by (simp add: ex_live_def live_view_def live_reply_def live_mount_def live_effect_def live_load_def
        live_path_set_def Let_def)
  then show ?thesis using live_shows_own_path [OF ex_live_run] by simp
qed

text \<open>C17. Hydration is all or nothing past the session: when it fails, at most the session was stored; when it
  succeeds every part of the catalog is what the control plane answered to its own read, the keys converted one by one,
  and the time of the load is kept.\<close>

theorem hydrate_all_or_session:
  "case hydrate Api cp t c of
     (c', Inl e) \<Rightarrow> c' = c \<or> (\<exists>s. cp_session cp = Inr s \<and> c' = c\<lparr>ct_session := s\<rparr>)
   | (c', Inr u) \<Rightarrow>
       cp_session cp = Inr (ct_session c') \<and> cp_teams cp = Inr (ct_teams c') \<and> cp_projects cp = Inr (ct_projects c') \<and>
       cp_models cp = Inr (ct_models c') \<and> (\<exists>k. cp_keys cp = Inr k \<and> ct_keys c' = map (fromWire t) k) \<and>
       cp_receipts cp = Inr (ct_seedReceipts c') \<and> cp_traffic cp = Inr (ct_trafficSeries c') \<and>
       cp_spend cp = Inr (ct_spendSeries c') \<and> ct_now c' = t"
  using hydrate_atomic [of cp t c] hydrate_loaded [of cp t c]
  by (auto split: prod.split sum.split)

section \<open>Session and requests of the key manager\<close>

text \<open>C18. A request to the key manager's API is sent at most twice, always with the caller's method, path and
  body; a second time only after an answer of 401, and then with a token whose refresh was forced.\<close>

theorem request_sent_twice_at_most:
  assumes "request_run adapter net m p b s = ((s', sent), res)"
  shows "length sent \<le> 2 \<and> (\<forall>q \<in> set sent. rq_method q = m \<and> rq_path q = p \<and> rq_body q = b) \<and>
    (\<forall>q0 q1. sent = [q0, q1] \<longrightarrow>
       (\<exists>r. net 0 q0 = Inr r \<and> rp_status r = 401) \<and> au_updates s' = au_updates s @ [30, -1])"
  by (rule request_run_sent [OF assms])

theorem request_sent_twice_at_most_witness:
  "length (snd (fst (request_run (\<lambda>n k. Inr k) ex_refused ''GET'' ''/api/keys'' None ex_session))) = 2 \<and>
   au_updates (fst (fst (request_run (\<lambda>n k. Inr k) ex_refused ''GET'' ''/api/keys'' None ex_session))) = [30, -1]"
proof -
  let ?r = "request_run (\<lambda>n k. Inr k) ex_refused ''GET'' ''/api/keys'' None ex_session"
  have e: "?r = ((fst (fst ?r), snd (fst ?r)), snd ?r)" by simp
  have l: "length (snd (fst ?r)) = 2"
    by (simp add: request_run_def exec_def getToken_def update_token_def ex_session_def ex_refused_def Let_def)
  then obtain q0 q1 where "snd (fst ?r) = [q0, q1]" by (auto simp: numeral_2_eq_2 length_Suc_conv)
  with request_sent_twice_at_most [OF e] l show ?thesis by (simp add: ex_session_def)
qed

text \<open>C19. A token is only handed out from an authenticated session, fresh from the adapter and not empty, after
  exactly one refresh call, forced when asked for; every failure is SessionExpired and either changes nothing or
  sends the user to the login once.\<close>

theorem token_contract:
  "case getToken adapter force s of
     (s', Inr t) \<Rightarrow> t \<noteq> [] \<and> au_logins s' = au_logins s \<and>
       au_updates s' = au_updates s @ [if force then -1 else 30] \<and>
       (\<exists>k k'. au_keycloak s = Some k \<and> kc_authenticated k \<and> au_keycloak s' = Some k' \<and> kc_token k' = Some t \<and>
          update_token adapter (if force then -1 else 30) k = Inr k')
   | (s', Inl e) \<Rightarrow> e = SessionExpired \<and> (au_logins s' = Suc (au_logins s) \<or> s' = s)"
proof (cases "getToken adapter force s")
  case (Pair s' r)
  then show ?thesis
    using getToken_ok [of adapter force s s'] getToken_error [of adapter force s s']
    by (cases r) auto
qed

section \<open>Untrusted configuration\<close>

text \<open>C20. The URLs that reach the page from config.json, but for network-path addresses, are the given text unchanged and
  are one of: a root-relative address, http, https, or a base64 data: URL of an allowed image type; anything else, a script
  URL above all, is dropped. Filtering again changes nothing.  (A network-path address, two slashes and a host, passes as
  well, against the comment of the code; that is a fact of Further.)\<close>

theorem sanitizeUrl_safe:
  assumes "sanitizeUrl up v = Some w" and "\<not> network_path w"
  shows "v = Some w \<and> sanitizeUrl up (Some w) = Some w \<and>
    (root_relative w \<or> up w = Some ''http:'' \<or> up w = Some ''https:'' \<or>
     (up w = Some ''data:'' \<and> (\<exists>mime d. w = ''data:'' @ mime @ '';base64,'' @ d \<and>
        to_lower mime \<in> set ALLOWED_DATA_MIME_TYPES)))"
  using sanitizeUrl_Some [OF assms(1)] sanitizeUrl_idem [of up v] assms by (simp add: root_relative_def)

theorem sanitizeUrl_safe_witness:
  "sanitizeUrl (\<lambda>u. Some ''data:'') (Some ''data:image/PNG;base64,AAAA'') = Some ''data:image/PNG;base64,AAAA'' \<and>
   (\<exists>mime d. ''data:image/PNG;base64,AAAA'' = ''data:'' @ mime @ '';base64,'' @ d \<and> to_lower mime \<in> set ALLOWED_DATA_MIME_TYPES)"
proof -
  have ok: "sanitizeUrl (\<lambda>u. Some ''data:'') (Some ''data:image/PNG;base64,AAAA'') = Some ''data:image/PNG;base64,AAAA''"
    by code_simp
  have d: "\<not> network_path ''data:image/PNG;base64,AAAA''" "\<not> root_relative ''data:image/PNG;base64,AAAA''"
    by (simp_all add: network_path_def root_relative_def)
  note safe = sanitizeUrl_safe [OF ok d(1), THEN conjunct2, THEN conjunct2]
  have "\<exists>mime d. ''data:image/PNG;base64,AAAA'' = ''data:'' @ mime @ '';base64,'' @ d \<and> to_lower mime \<in> set ALLOWED_DATA_MIME_TYPES"
    using safe d(2) by simp
  with ok show ?thesis by (rule conjI)
qed

section \<open>Theme\<close>

text \<open>C21. The script before the first paint and the hook after it agree on dark mode, for every storage (readable
  or not), stored value and media query, when the page has just loaded.\<close>

theorem first_paint_agrees:
  assumes "ts_inMemory s k = None"
  shows "themeBootstrap k media (ts_storage s) = tm_isDarkMode (useThemePreference (Some k) media s)"
  by (rule bootstrap_matches_hook [OF assms])

theorem first_paint_agrees_witness:
  "tm_isDarkMode (useThemePreference (Some ''nebari:themeMode'') (Some True) \<lparr>ts_storage = ex_storage, ts_inMemory = Map.empty\<rparr>)"
  using first_paint_agrees [of "\<lparr>ts_storage = ex_storage, ts_inMemory = Map.empty\<rparr>" "''nebari:themeMode''" "Some True"]
  by (simp add: themeBootstrap_def ex_storage_def get_item_def prefersDark_def)

section \<open>Key manager page\<close>

text \<open>C22. The path of a revocation is decoded by the server to exactly the namespace, model name and client id of
  the key: no character of them can add, remove or change a segment.\<close>

theorem revoke_addresses_key:
  "path_segments (revoke_path k) = [[], ''api'', ''keys'', uk_namespace k, uk_modelName k, uk_clientId k]"
  by (rule revoke_path_segments)

text \<open>C23. Through every run of the page, a key is only ever requested for a model of the list with a description of
  at most 200 characters, only keys of the list are revoked, and while a new key is shown no creation is pending.\<close>

theorem page_requests_valid:
  assumes "km_run models ks s"
  shows "(\<forall>m d. pg_creating s = Some (m, d) \<longrightarrow> m \<noteq> [] \<and> m \<in> km_name ` set models \<and> length d \<le> 200) \<and>
    (\<forall>k. pg_revoking s = Some k \<or> pg_dialog s = RevokeDialog k \<longrightarrow> k \<in> set ks) \<and>
    (\<forall>i a. pg_dialog s = CreatedDialog i a \<longrightarrow> pg_creating s = None)"
  using km_run_inv [OF assms] by (simp add: page_inv_def)

theorem page_requests_valid_witness:
  "pg_creating ex_creating = Some (''llama'', []) \<and> ''llama'' \<in> km_name ` set [ex_model]"
proof -
  have c: "pg_creating ex_creating = Some (''llama'', [])"
    by (simp add: ex_creating_def on_submit_def pick_model_def page_init_def js_trim_def Let_def)
  with page_requests_valid [OF ex_creating_run] show ?thesis by blast
qed

text \<open>C24. The second way happens: there is a run in which the key just made is on screen while a revocation of
  another is pending, and its answer, whatever it is, closes the dialog, so the key is gone unseen.\<close>

theorem created_key_lost:
  assumes "k \<in> set ks" and "m \<in> set models" and "km_name m \<noteq> []"
  shows "\<exists>s. km_run models ks s \<and> pg_dialog s = CreatedDialog i a \<and>
    (\<forall>r. km_run models ks (revoke_reply r s) \<and> pg_dialog (revoke_reply r s) = NoDialog)"
proof -
  obtain s where s: "km_run models ks s" "pg_dialog s = CreatedDialog i a" "pg_revoking s = Some k"
    using created_key_lost_run [OF assms] by blast
  have "km_run models ks (revoke_reply r s)" for r
    by (rule km_run.Step [OF s(1)], rule km_step.RevokeReply) (simp add: s(3))
  moreover have "pg_dialog (revoke_reply r s) = NoDialog" for r
    by (simp add: revoke_reply_def close_revoke_def Let_def split: sum.split)
  ultimately show ?thesis using s by blast
qed

theorem created_key_lost_witness:
  "\<exists>s. km_run [ex_model] [ex_key] s \<and> pg_dialog s = CreatedDialog ''cid'' ''sk-1'' \<and>
    (\<forall>r. km_run [ex_model] [ex_key] (revoke_reply r s) \<and> pg_dialog (revoke_reply r s) = NoDialog)"
  by (rule created_key_lost [of ex_key "[ex_key]" ex_model "[ex_model]"]) (simp_all add: ex_model_def)

section \<open>Spend\<close>

text \<open>C25. However spend is grouped, it is the same spend: for both the window and the one before it, the rows of the
  breakdown by any dimension add up to the sum over all attribution cells, and so do a day's bars in the trend; any two
  dimensions reconcile.\<close>

theorem breakdowns_reconcile:
  "sum_list (map bk_spend (breakdown_over fx d cur prev)) = sum_list (map (cell_amount cur) (cells fx)) \<and>
   sum_list (map bk_prevSpend (breakdown_over fx d cur prev)) = sum_list (map (cell_amount prev) (cells fx)) \<and>
   om_total (trend_values fx d p []) = sum_list (map (\<lambda>c. num_of (sp_byTeam p) (ce_team c) * ce_share c) (cells fx))"
  by (simp only: breakdown_over_total breakdown_over_prev trend_values_total)

text \<open>C26. The spend export reads back: an RFC 4180 reader gets exactly the cells that were written, for any texts
  with commas, quotes and line breaks, and no text cell that is read back starts as a spreadsheet formula.\<close>

theorem csv_reads_back:
  assumes "rows \<noteq> []" and "\<forall>r \<in> set rows. r \<noteq> []"
  shows "csv_parse (toCsv rows) = map (map cell_text) rows \<and>
    (\<forall>s. cell_text (CText s) = [] \<or> \<not> formula_start (hd (cell_text (CText s))))"
  using csv_parse_toCsv [OF assms] cell_text_safe by blast

theorem csv_reads_back_witness:
  "csv_parse (toCsv [[CText ''=1+1'', CText ''a,b''], [CNum 3, CNull]]) = [[char_apos # ''=1+1'', ''a,b''], [''3'', []]]"
proof -
  have "map (map cell_text) [[CText ''=1+1'', CText ''a,b''], [CNum 3, CNull]] = [[char_apos # ''=1+1'', ''a,b''], [''3'', []]]"
    by code_simp
  with csv_reads_back [THEN conjunct1, of "[[CText ''=1+1'', CText ''a,b''], [CNum 3, CNull]]"] show ?thesis by simp
qed

section \<open>Traffic page\<close>

text \<open>C27. The bar of a day in Spend's trend opens that day in Traffic, as far as the page's time range reaches back: for
  any midnight of the last 365 days, across a year's end and leap days, the receipts in the window of the bar's link are
  exactly those of that UTC day that are not before the start of the range.  (The link does not carry the range, so the bar
  of a day before it opens an empty window; that is a fact of Further.)\<close>

theorem bar_opens_its_day:
  assumes "trend_daily tr" and "p \<in> set (tr_points tr)"
    and "DAY_MS dvd tp_t p" and "tp_t p \<le> now" and "now - tp_t p < 365 * DAY_MS"
  shows "\<exists>l. bar_href tz tr (trend_label tz tr (tp_t p)) = Some l \<and> starts_with ''/traffic?'' l \<and>
    (\<forall>r. in_window (page_window now rng (p_parse (drop (length ''/traffic?'') l))) r \<longleftrightarrow>
      tp_t p \<le> rc_ts r \<and> rc_ts r < tp_t p + 86400000 \<and> range_start now rng \<le> rc_ts r)"
  using bar_link [OF assms(1,2), of tz] bar_rows [OF assms(3-5), of rng]
  unfolding day_param [of "tp_t p", symmetric] by (intro exI [of _ "''/traffic?day='' @ iso_month_day (tp_t p)"]) simp

theorem bar_opens_its_day_witness:
  "\<exists>l. bar_href (\<lambda>t. t) ex_daily (trend_label (\<lambda>t. t) ex_daily (59 * DAY_MS)) = Some l \<and>
     in_window (page_window (60 * DAY_MS) (7 * DAY_MS) (p_parse (drop (length ''/traffic?'') l))) (ex_receipt ''a'' (59 * DAY_MS + 5)) \<and>
     \<not> in_window (page_window (60 * DAY_MS) (7 * DAY_MS) (p_parse (drop (length ''/traffic?'') l))) (ex_receipt ''a'' (60 * DAY_MS))"
  using bar_opens_its_day [of ex_daily "\<lparr>tp_t = 59 * DAY_MS, tp_values = []\<rparr>" "60 * DAY_MS" "\<lambda>t. t" "7 * DAY_MS"]
  by (auto simp: ex_daily_def trend_daily_def DAY_MS_def range_start_def BUCKET_MS_def HOT_WINDOW_MS_def)

text \<open>C28. The virtual table renders every row that touches the viewport, and few others: at most the rows of one
  viewport and 26 more, however long the list is.\<close>

theorem rendered_rows_cover:
  assumes "0 < rowH" and "0 \<le> vw_height v" and "0 \<le> vw_top v" and "0 \<le> i" and "i < n"
    and "i * rowH < vw_top v + vw_height v" and "vw_top v < (i + 1) * rowH"
  shows "win_start v rowH \<le> i \<and> i < win_end v rowH n \<and>
    win_end v rowH n - win_start v rowH \<le> vw_height v div rowH + 26"
  using window_covers [OF assms(1,4-7)] window_size [OF assms(1-3), of n] by (simp add: OVERSCAN_def)

theorem rendered_rows_cover_witness:
  "win_start \<lparr>vw_top = 2800, vw_height = 800\<rparr> 28 \<le> 110 \<and> 110 < win_end \<lparr>vw_top = 2800, vw_height = 800\<rparr> 28 5000"
  using rendered_rows_cover [of 28 "\<lparr>vw_top = 2800, vw_height = 800\<rparr>" 110 5000] by simp

section \<open>The stream at rest, and the demo data\<close>

text \<open>C29.
  Left alone, the receipt stream comes to rest.  Its own pending work (the batch timer, the queued microtasks) cannot
  go on for ever, and from every state it can reach, doing that work leads to a state in which no receipt waits, no
  timer runs, the connection is the one for the current query, and the stream is narrowed only while a page tails it;
  no such state is left while any work is pending.\<close>

theorem stream_settles:
  assumes "stream_run mode seed s" and "length seed \<le> 600"
  shows "wfp (\<lambda>b a. settle_step a b) \<and> (\<exists>s'. settle_step\<^sup>*\<^sup>* s s' \<and> at_rest mode s') \<and>
    (\<forall>s'. settle_step\<^sup>*\<^sup>* s s' \<longrightarrow> (\<nexists>s''. settle_step s' s'') \<longrightarrow> at_rest mode s')"
proof (intro conjI allI impI)
  have cap: "length seed \<le> ROWS_CAP" using assms(2) by (simp add: ROWS_CAP_def)
  show "wfp (\<lambda>b a. settle_step a b)" by (rule settle_terminates)
  show "\<exists>s'. settle_step\<^sup>*\<^sup>* s s' \<and> at_rest mode s'" by (rule settles [OF assms(1) cap])
  show "settle_step\<^sup>*\<^sup>* s s' \<Longrightarrow> \<nexists>s''. settle_step s' s'' \<Longrightarrow> at_rest mode s'" for s'
    using settled_at_rest [OF settle_run cap] assms(1) by blast
qed

theorem stream_settles_witness:
  "\<exists>s'. settle_step\<^sup>*\<^sup>* ex_streaming s' \<and> st_queue s' = [] \<and> \<not> st_timer s'"
  using stream_settles [OF ex_streaming_run] by (auto simp: at_rest_def)

text \<open>C30.
  The demo history is typed and in order: from any state of the seeded generator, all 240 receipts are made (no lookup
  is undefined), each has ids of the right shape, a session exactly when it is an agent's, and the status, the cost and
  the codes of its verdict (blocked and throttled ones no output and no cost, truncated ones no cost, allowed ones some
  output, a cost, and cached tokens that are part of the input); each belongs to a key of the tenant and to a model that
  the key may call, and each is older than the one before it, none older than 336 seconds.  (Nothing is said of the token
  counts of truncated receipts, nor of reasoning against output, where the data disagrees with the rest of the program.)\<close>

theorem demo_history_typed:
  "\<exists>xs. fst (run_state (seedReceipts (mock_keys hour sin_turns) now mulberry32) s) = map Some xs \<and> length xs = 240 \<and>
     list_all (\<lambda>x. demo_receipt_ok x \<and> of_catalog (mock_keys hour sin_turns) x) xs \<and> sorted_wrt (\<lambda>a b. rc_ts b < rc_ts a) xs \<and>
     list_all (\<lambda>x. now - 336000 < rc_ts x \<and> rc_ts x \<le> now) xs"
  by (rule mock_history_demo)

text \<open>C31.
  The Keys page and the Spend page agree in the demo tenant: the rows of the 24-hour breakdown by key are, row for
  row, the keys of the Keys page with the amounts it shows.\<close>

theorem key_amounts_agree:
  "mset (map (\<lambda>row. (bk_id row, bk_spend row)) (breakdown (mock_fixtures hour now tz sin_turns) DKey ''24h'')) =
   mset (map (\<lambda>k. (ak_name k, keySpend24h (mock_fixtures hour now tz sin_turns) (ak_id k))) (mock_keys hour sin_turns))"
  by (rule mock_key_table)

section \<open>The receipt drawer, the Keys page, the palette and toasts\<close>

text \<open>C32.
  The top models of a key: one row for each model with a settled receipt and no other, each counting exactly that
  model's settled receipts and their known costs, taking the middle one of their durations and, for a model whose
  receipts have no reasoning tokens, their input and output tokens; and the rows in order of cost.  (With reasoning
  tokens the row counts them a second time, beside the output they are part of; that is a fact of Further.)\<close>

theorem top_models_partition:
  "distinct (map (\<lambda>gp. mo_model (fst gp)) (topModels rs)) \<and>
   mo_model ` fst ` set (topModels rs) = rc_resolvedModel ` set (filter (\<lambda>r. \<not> rc_inFlight r) rs) \<and>
   sorted_wrt (\<lambda>a b. mo_cost (fst b) \<le> mo_cost (fst a)) (topModels rs) \<and>
   list_all (\<lambda>(g, p50). let own = filter (\<lambda>r. \<not> rc_inFlight r \<and> rc_resolvedModel r = mo_model g) rs in
       mo_n g = int (length own) \<and>
       (list_all (\<lambda>r. rc_reasoningTokens r = 0) own \<longrightarrow>
          mo_tokens g = sum_list (map (\<lambda>r. rc_inputTokens r + rc_outputTokens r) own)) \<and>
       mo_cost g = sum_list (map (\<lambda>r. or_else (rc_costUsd r) 0) own) \<and>
       p50 = sort (map rc_durationMs own) ! (length own div 2)) (topModels rs)"
  by (intro conjI topModels_distinct topModels_complete [symmetric, unfolded settled_def] topModels_sorted topModels_claims)

theorem top_models_partition_witness:
  "\<exists>g p. topModels [ex_receipt ''a'' 3, ex_receipt ''b'' 4] = [(g, p)] \<and> mo_model g = ''m'' \<and> mo_n g = 2 \<and> mo_tokens g = 4"
proof -
  let ?rs = "[ex_receipt ''a'' 3, ex_receipt ''b'' 4]"
  have f: "rc_resolvedModel (ex_receipt i t) = ''m''" "rc_reasoningTokens (ex_receipt i t) = 0"
    "rc_inputTokens (ex_receipt i t) = 1" "rc_outputTokens (ex_receipt i t) = 1" for i t
    by (simp_all add: ex_receipt_def)
  note tops = top_models_partition [of ?rs]
  have s: "filter (\<lambda>r. \<not> rc_inFlight r) ?rs = ?rs" by simp
  have m: "mo_model ` fst ` set (topModels ?rs) = {''m''}"
    using tops [THEN conjunct2, THEN conjunct1] unfolding s by (simp add: f)
  have "length (topModels ?rs) = card (mo_model ` fst ` set (topModels ?rs))"
    using distinct_card [OF tops [THEN conjunct1]] by (simp add: image_image)
  then have "length (topModels ?rs) = 1" by (simp add: m)
  then obtain g q where t: "topModels ?rs = [(g, q)]" by (auto simp: length_Suc_conv)
  then have g: "mo_model g = ''m''" using m by simp
  have "mo_n g = 2 \<and> mo_tokens g = 4"
    using tops [THEN conjunct2, THEN conjunct2, THEN conjunct2] unfolding t by (simp add: g f Let_def)
  with t g show ?thesis by blast
qed

text \<open>C33.
  Pasting a trace id and pressing Enter opens its receipt: when the text has at least eight hex characters, and
  otherwise only dashes, what runs is the receipt that entered the cache first of those it matches, and the palette
  closes with its query cleared.\<close>

theorem pasted_trace_opens:
  assumes "q \<noteq> pa_q s" and "trace_id_text (needle_of q)"
    and "filter (receipt_matches (needle_of q)) (pe_cached e) = r # rest"
  shows "pa_ran (press_enter e (on_query e q s)) = pa_ran s @ [RunReceipt (rc_id r)] \<and>
    \<not> pa_open (press_enter e (on_query e q s)) \<and> pa_q (press_enter e (on_query e q s)) = []"
  by (rule enter_runs_first [OF assms(1) trace_id_looks [OF assms(2)] assms(3)])

theorem pasted_trace_opens_witness:
  "pa_ran (press_enter ex_palette (on_query ex_palette ''7f3a91c2'' (palette_mount ex_palette))) = [RunReceipt ''7f3a91c2'']"
proof -
  have n: "needle_of ''7f3a91c2'' = ''7f3a91c2''" by code_simp
  have l: "trace_id_text ''7f3a91c2''" by code_simp
  have f: "filter (receipt_matches ''7f3a91c2'') (pe_cached ex_palette) = ex_receipt ''7f3a91c2'' 3 # []"
    by (simp add: ex_palette_def receipt_matches_def)
  from pasted_trace_opens [of "''7f3a91c2''" "palette_mount ex_palette" ex_palette "ex_receipt ''7f3a91c2'' 3" "[]"] n l f
  show ?thesis by (simp add: palette_mount_def)
qed

text \<open>C34.
  A toast with an action waits for its reader and can be dismissed: for every manager that adds an item as it is given
  and spreads an update over the item it names, whatever is added through the wrapped manager and however its items are
  updated through it, as long as an update that says anything of the timeout of the item restates its action, an item
  with an action has no running timeout, and its close button is drawn.\<close>

theorem toast_with_action_waits:
  assumes "shallow_manager M item" and "mg_add (createToastManager M) o' m = (i, m1)"
    and "list_all (\<lambda>(j, u). j = i \<longrightarrow> to_timeout u = Absent \<or> prop_get (to_action u) \<noteq> None) us"
    and "item (fold (\<lambda>(j, u). mg_update (createToastManager M) j u) us m1) i = Some it"
    and "prop_get (to_action it) \<noteq> None"
  shows "to_timeout it = Given 0 \<and> ui_find ''ToastClose'' (toast_view it :: 'e ui) \<noteq> []"
proof
  have "list_all (\<lambda>(j, u). j = i \<longrightarrow> restates u) us" using assms(3) by (simp add: restates_def)
  from wrapped_action_waits [OF assms(1,2) this assms(4)] assms(5) show "to_timeout it = Given 0"
    by (simp add: action_waits_def)
  have "toast_dismissible it" using assms(5) by (simp add: toast_dismissible_def)
  then show "ui_find ''ToastClose'' (toast_view it :: 'e ui) \<noteq> []" by (rule ToastClose_shown [THEN iffD1])
qed

theorem toast_with_action_waits_witness:
  "\<exists>it. ex_item (mg_update (createToastManager ex_manager) [] ex_retitle
       (snd (mg_add (createToastManager ex_manager) ex_toast []))) [] = Some it \<and>
     to_title it = Given ''Done'' \<and> to_action it = Given ''Undo'' \<and> to_timeout it = Given 0"
proof -
  let ?m = "mg_update (createToastManager ex_manager) [] ex_retitle (snd (mg_add (createToastManager ex_manager) ex_toast []))"
  have add: "mg_add (createToastManager ex_manager) ex_toast [] = ([], [withToastA11yDefaults ex_toast])"
    by (simp add: createToastManager_def ex_manager_def)
  have it: "ex_item ?m [] = Some (spread_options (withToastA11yDefaults ex_toast) (withToastA11yDefaults ex_retitle))"
    unfolding add by (simp add: createToastManager_def ex_manager_def ex_item_def)
  let ?it = "spread_options (withToastA11yDefaults ex_toast) (withToastA11yDefaults ex_retitle)"
  have f: "to_title ?it = Given ''Done''" "to_action ?it = Given ''Undo''"
    by (simp_all add: spread_options_def ex_retitle_def ex_toast_def)
  have "to_timeout ?it = Given 0"
    by (rule toast_with_action_waits [OF ex_manager_shallow add, of "[([], ex_retitle)]", THEN conjunct1])
      (use it f in \<open>simp_all add: ex_retitle_def add\<close>)
  with it f show ?thesis by blast
qed

text \<open>C35.
  A key's link opens Traffic with that key and model as its only filters, when both names are of unreserved
  characters; a key named R&D opens the list of another key, because the link does not encode names.\<close>

theorem key_link_filters:
  assumes "list_all form_kept (ak_name k)" and "list_all form_kept m"
  shows "page_filters (p_parse (drop (length ''/traffic?'') (model_link k m))) =
      map (\<lambda>d. (d, if d = DimKey then [ak_name k] else if d = DimModel then [m] else [])) dims_order \<and>
    p_get_all (p_parse (drop (length ''/traffic?'') (key_traffic_link (k\<lparr>ak_name := ''R&D''\<rparr>)))) ''key'' = [''R'']"
  by (rule conjI [OF model_link_filters [OF assms] key_link_split])

theorem key_link_filters_witness:
  "page_filters (p_parse (drop (length ''/traffic?'') (model_link (ex_api_key ''k1'' 30) ''gpt'')))
     = map (\<lambda>d. (d, if d = DimKey then [''ci''] else if d = DimModel then [''gpt''] else [])) dims_order"
proof -
  have n: "ak_name (ex_api_key ''k1'' 30) = ''ci''" by (simp add: ex_api_key_def)
  show ?thesis
    using key_link_filters [of "ex_api_key ''k1'' 30" "''gpt''", THEN conjunct1]
    unfolding n by (simp only: list.pred_inject form_kept_def is_alnum_def) simp
qed

section \<open>The theme in one tab\<close>

text \<open>C36.
  The theme follows.  After a page load, whatever happens in the tab (the provider mounts or unmounts, the reader picks
  a mode, the system changes its scheme, anything renders again), the theme that is rendered is the one that the
  preference and the system give now, and the \<open>dark\<close> class on the document is its class; writes of other tabs never
  leave the class apart from the theme that is rendered.\<close>

theorem theme_follows_tab:
  assumes "theme_step\<^sup>*\<^sup>* (page_load k m st) s" and "theme_world\<^sup>*\<^sup>* (page_load k m st) s'"
  shows "(\<forall>p. th_snap s = Some p \<longrightarrow>
      rendered_theme p = useThemePreference (Some (th_key s)) (md_matches (th_media s)) (th_store s) \<and>
      th_class s = tm_isDarkMode (rendered_theme p)) \<and>
    (\<forall>p. th_snap s' = Some p \<longrightarrow> th_class s' = tm_isDarkMode (rendered_theme p))"
  using theme_follows [OF assms(1)] conjunct1 [OF theme_world_right [OF assms(2)]] unfolding class_right_def
  by (intro conjI allI impI) (blast, simp, simp add: rendered_theme_def)

theorem theme_follows_tab_witness: "th_class ex_themed"
proof -
  have s: "th_snap ex_themed = Some (''system'', True)"
    by (simp add: ex_themed_def scheme_changes_def on_scheme_change_def hook_mount_def rerender_def page_load_def ex_media_def
      snapshots_def prefersDark_def readStoredMode_def get_item_def isThemeMode_def subscribeToSystemScheme_def Let_def)
  show ?thesis
    using theme_follows_tab [OF ex_themed_run rtranclp.rtrancl_refl] s by (simp add: rendered_theme_def resolved_dark_def)
qed

text \<open>C37.
  The text of the script before the first paint keeps the storage key inside its literal.  For every key, the text splits
  into the same 14 lines but for one, that line reads the item under a literal that is read back as exactly the key, and
  with the key manager's key the lines are those of its \<open>index.html\<close>, indented.\<close>

theorem boot_script_keeps_key:
  "split_chars (\<lambda>c. c = char_lf) (themeBootstrapScript (Some k)) = script_lines k \<and> length (script_lines k) = 14 \<and>
    (\<exists>lit. script_lines k ! 4 = ''    mode = localStorage.getItem('' @ lit @ '');'' \<and>
       (\<forall>rest. read_literal (lit @ rest) = Some (k, rest))) \<and>
    list_update (script_lines k) 4 [] = list_update (script_lines k') 4 [] \<and>
    manager_index_lines = map (\<lambda>l. ''      '' @ l) (script_lines THEME_STORAGE_KEY)"
  by (intro conjI script_split script_key_line(2) manager_index_in_sync exI [of _ "json_string k"] script_key_line(1) allI read_json_string)
    (simp add: script_lines_def)

section \<open>Links and requests\<close>

text \<open>C38.
  Every link of the console leads to a page.  The links that the Overview page, the Keys page, the receipt drawer and the
  sidebar render, for any data, are answered by a route and not by the fallback to Overview, and lead where they say;
  so are the paths that the palette runs and the ones that a bar or a row of the Spend page opens.\<close>

theorem links_reach_pages:
  "all_links {PageTraffic, PageSpend} (OverviewPage oe rng series sm receipts) \<and>
   list_all (all_links {PageTraffic}) (KeysPage fx ts tz now all ks) \<and>
   all_links {PageTraffic, PageKeys} (ReceiptDrawer de mode lk ls s a) \<and>
   all_links UNIV (AppSidebar mode build ses sb pathname) \<and>
   list_all (\<lambda>r. case pr_run r of RunNavigate l \<Rightarrow> leads_to PageKeys l \<or> leads_to PageTraffic l | _ \<Rightarrow> True)
     (palette_results pks pms cached q) \<and>
   (case trafficHref gdim row of None \<Rightarrow> True | Some l \<Rightarrow> leads_to PageTraffic l) \<and>
   (case bar_href btz tr x of None \<Rightarrow> True | Some l \<Rightarrow> leads_to PageTraffic l)"
  using overview_links keys_page_links drawer_links sidebar_links palette_links spend_links
  by (auto simp: list_all_iff split: option.split palette_run.split)

text \<open>C39.
  A submitted key is created and shown, or the dialog says why not.  The request is sent at most twice, the same both
  times, with the model and the trimmed description of the moment of the submit; and whatever the user does while the
  answer is out, when it is in: if the last answer is a success with a body, the page shows exactly the client id and the
  key that this body names, the fields are cleared and the list is asked for again; otherwise the dialog and the fields
  stay as the user left them and the error is set.  Nothing is left pending.\<close>

theorem create_answers:
  assumes "pg_modelName pg \<noteq> []" and "(while_creating models)\<^sup>*\<^sup>* (on_submit pg) later"
    and "submit_create wr ad net s pg later = ((s', sent), pg')"
  shows "length sent \<le> 2 \<and>
    (\<forall>q \<in> set sent. rq_method q = ''POST'' \<and> rq_path q = ''/api/keys'' \<and> rq_body q =
       Some (wr_body wr \<lparr>ci_modelName = pg_modelName pg, ci_description = js_trim (pg_description pg)\<rparr>)) \<and>
    pg_creating later = Some (pg_modelName pg, js_trim (pg_description pg)) \<and> pg_creating pg' = None \<and>
    (case snd (request_run ad net ''POST'' ''/api/keys'' (create_body wr pg) s) of
       Inr (Some j) \<Rightarrow>
         (\<exists>r. sent \<noteq> [] \<and> net (length sent - 1) (last sent) = Inr r \<and> 200 \<le> rp_status r \<and> rp_status r < 300 \<and> rp_json r = Inr j) \<and>
         pg_dialog pg' = CreatedDialog (cr_clientId (wr_created wr j)) (cr_apiKey (wr_created wr j)) \<and>
         pg_modelName pg' = [] \<and> pg_description pg' = [] \<and> pg_invalidations pg' = Suc (pg_invalidations later)
     | _ \<Rightarrow> pg_dialog pg' = pg_dialog later \<and> pg_modelName pg' = pg_modelName later \<and>
         pg_description pg' = pg_description later \<and> (\<exists>m. pg_fieldError pg' = Some (''Failed to create key: '' @ m)))"
proof -
  have "pg_creating later = Some (pg_modelName pg, js_trim (pg_description pg))"
    using while_creating_keeps [OF assms(2)] assms(1) by (simp add: on_submit_def Let_def)
  with submit_create_sent [OF assms(3)] submit_create_outcome [OF assms(3,1)] show ?thesis
    unfolding create_body_def create_input_of_def by blast
qed

theorem create_answers_witness:
  "pg_dialog (snd (submit_create ex_wire (\<lambda>n k. Inr k) ex_granted ex_session ex_ready (close_create (on_submit ex_ready))))
     = CreatedDialog ''cid'' ''sk''"
proof -
  let ?later = "close_create (on_submit ex_ready)"
  obtain s' sent pg' where r: "submit_create ex_wire (\<lambda>n k. Inr k) ex_granted ex_session ex_ready ?later = ((s', sent), pg')"
    by (metis prod.exhaust)
  have m: "pg_modelName ex_ready \<noteq> []" by (simp add: ex_ready_def pick_model_def)
  have "km_step [ex_model] [] (on_submit ex_ready) ?later"
    by (rule km_step.CloseCreate) (simp add: ex_ready_def pick_model_def on_submit_def Let_def)
  then have w: "(while_creating [ex_model])\<^sup>*\<^sup>* (on_submit ex_ready) ?later"
    by (intro r_into_rtranclp) (auto simp: while_creating_def close_create_def)
  have answer: "snd (request_run (\<lambda>n k. Inr k) ex_granted ''POST'' ''/api/keys'' b ex_session) = Inr (Some ''cid'')" for b
    by (simp add: request_run_def exec_def getToken_def update_token_def ex_session_def ex_granted_def finish_def Let_def)
  from create_answers [OF m w r] r show ?thesis unfolding answer by (simp add: ex_wire_def)
qed

text \<open>C40.
  A confirmed revocation closes its dialog whatever the answer.  What is sent is the delete request of that key, at most
  twice; after a success the list is asked for again, after a failure an error is left on the page and the list is not.\<close>

theorem revoke_answers:
  assumes "submit_revoke ad net s pg = ((s', sent), pg')" and "pg_dialog pg = RevokeDialog k"
  shows "length sent \<le> 2 \<and> (\<forall>q \<in> set sent. rq_method q = ''DELETE'' \<and> rq_path q = revoke_path k) \<and>
    pg_dialog pg' = NoDialog \<and> pg_revoking pg' = None \<and>
    (pg_invalidations pg' = Suc (pg_invalidations pg) \<and> pg_error pg' = pg_error pg \<and>
       (\<exists>r. net (length sent - 1) (last sent) = Inr r \<and> 200 \<le> rp_status r \<and> rp_status r < 300)
     \<or> pg_invalidations pg' = pg_invalidations pg \<and> (\<exists>m. pg_error pg' = Some (''Failed to revoke key: '' @ m)))"
  by (rule submit_revoke_outcome [OF assms])

theorem revoke_answers_witness:
  "pg_dialog (snd (submit_revoke (\<lambda>n k. Inr k) ex_refused ex_session (page_init\<lparr>pg_dialog := RevokeDialog ex_key\<rparr>))) = NoDialog"
proof -
  let ?pg = "page_init\<lparr>pg_dialog := RevokeDialog ex_key\<rparr>"
  obtain s' sent pg' where r: "submit_revoke (\<lambda>n k. Inr k) ex_refused ex_session ?pg = ((s', sent), pg')"
    by (metis prod.exhaust)
  show ?thesis using revoke_answers [OF r, of ex_key] r by simp
qed

end
